(* ===== verification/Prelude.thy ===== *)
theory Prelude
  imports Main "HOL-Library.Word"
begin

text \<open>
  Shared vocabulary of the development: Rust's \<open>Result\<close>, panics as values, the sequencing of
  computations that may panic, machine integers with the checked operations of the standard
  library, and slice indexing.

  A computation that may panic has a result of type \<open>panic + 'a\<close>: \<open>Inl p\<close> is the panic \<open>p\<close>,
  \<open>Inr a\<close> the value. State (an \<open>Env\<close>, the fuzzer's \<open>ContractState\<close>, a nonce) is passed and
  returned explicitly. The crates are built with \<open>overflow-checks = true\<close> (fuzz/Cargo.toml), so
  an overflowing \<open>+\<close> or \<open>-\<close> panics instead of wrapping.
\<close>

section \<open>Results and panics\<close>

datatype ('a, 'e) result = Ok 'a | Err 'e

fun is_err :: "('a, 'e) result \<Rightarrow> bool" where
  "is_err (Ok _) = False"
| "is_err (Err _) = True"

fun is_ok :: "('a, 'e) result \<Rightarrow> bool" where
  "is_ok (Ok _) = True"
| "is_ok (Err _) = False"

text \<open>
  Error types and codes of the host (\<open>ScErrorType\<close>, \<open>ScErrorCode\<close>). The program names one
  constructor of each; the others are numbered.
\<close>

datatype sc_error_type = WasmVm | OtherErrorType nat

datatype sc_error_code = InvalidAction | OtherErrorCode nat

datatype error = Error (error_type: sc_error_type) (error_code: sc_error_code)

text \<open>
  The ways a computation stops: the panics of the language, \<open>HostError\<close> for a failing host
  function (which the SDK turns into a panic that carries the error), and \<open>Diverged\<close>, which is no
  panic of the program but the value of a loop that spent its fuel.
\<close>

datatype panic =
    AssertFailed
  | Panic string
  | Expect string
  | Unwrap
  | IndexOutOfBounds
  | ArithmeticOverflow
  | HostError error
  | Todo
  | Diverged

named_theorems may_simps \<open>equations of computations that may panic\<close>

definition bnd :: "'p + 'a \<Rightarrow> ('a \<Rightarrow> 'p + 'b) \<Rightarrow> 'p + 'b" where
  "bnd m f = (case m of Inl p \<Rightarrow> Inl p | Inr a \<Rightarrow> f a)"

definition assert_that :: "bool \<Rightarrow> panic + unit" where
  "assert_that b = (if b then Inr () else Inl AssertFailed)"

definition expect :: "string \<Rightarrow> 'a option \<Rightarrow> panic + 'a" where
  "expect msg x = (case x of None \<Rightarrow> Inl (Expect msg) | Some a \<Rightarrow> Inr a)"

definition unwrap :: "'a option \<Rightarrow> panic + 'a" where
  "unwrap x = (case x of None \<Rightarrow> Inl Unwrap | Some a \<Rightarrow> Inr a)"

definition expect_ok :: "string \<Rightarrow> ('a, 'e) result \<Rightarrow> panic + 'a" where
  "expect_ok msg r = (case r of Ok a \<Rightarrow> Inr a | Err _ \<Rightarrow> Inl (Expect msg))"

definition index :: "'a list \<Rightarrow> nat \<Rightarrow> panic + 'a" where
  "index xs i = (if i < length xs then Inr (xs ! i) else Inl IndexOutOfBounds)"

text \<open>A loop over the elements of a collection that threads a state and stops at a panic.\<close>

fun fold_may :: "('x \<Rightarrow> 's \<Rightarrow> 'p + 's) \<Rightarrow> 'x list \<Rightarrow> 's \<Rightarrow> 'p + 's" where
  "fold_may f [] s = Inr s"
| "fold_may f (x # xs) s = bnd (f x s) (fold_may f xs)"

lemma bnd_simps [simp, may_simps]:
  "bnd (Inl p) f = Inl p"
  "bnd (Inr a) f = f a"
  by (simp_all add: bnd_def)

lemma bnd_Inr_iff: "bnd m f = Inr b \<longleftrightarrow> (\<exists>a. m = Inr a \<and> f a = Inr b)"
  by (cases m) auto

lemma bnd_Inl_iff: "bnd m f = Inl p \<longleftrightarrow> m = Inl p \<or> (\<exists>a. m = Inr a \<and> f a = Inl p)"
  by (cases m) auto

lemma bnd_assoc: "bnd (bnd m f) g = bnd m (\<lambda>a. bnd (f a) g)"
  by (cases m) auto

lemma bnd_cong: "m = n \<Longrightarrow> (\<And>a. n = Inr a \<Longrightarrow> f a = g a) \<Longrightarrow> bnd m f = bnd n g"
  by (cases n) auto

lemma assert_that_iff [simp]:
  "assert_that b = Inr u \<longleftrightarrow> b"
  "assert_that b = Inl p \<longleftrightarrow> \<not> b \<and> p = AssertFailed"
  by (auto simp: assert_that_def)

lemma assert_that_True [simp]: "assert_that True = Inr ()"
  by simp

lemma assert_that_False [simp]: "assert_that False = Inl AssertFailed"
  by simp

lemma bnd_assert [simp]:
  "bnd (assert_that b) f = (if b then f () else Inl AssertFailed)"
  by (simp add: assert_that_def)

lemma expect_iff [simp]:
  "expect msg x = Inr a \<longleftrightarrow> x = Some a"
  "expect msg x = Inl p \<longleftrightarrow> x = None \<and> p = Expect msg"
  by (auto simp: expect_def split: option.splits)

lemma expect_simps [simp]:
  "expect msg (Some a) = Inr a"
  "expect msg None = Inl (Expect msg)"
  by simp_all

lemma unwrap_iff [simp]:
  "unwrap x = Inr a \<longleftrightarrow> x = Some a"
  "unwrap x = Inl p \<longleftrightarrow> x = None \<and> p = Unwrap"
  by (auto simp: unwrap_def split: option.splits)

lemma unwrap_simps [simp]:
  "unwrap (Some a) = Inr a"
  "unwrap None = Inl Unwrap"
  by simp_all

lemma expect_ok_iff [simp]:
  "expect_ok msg r = Inr a \<longleftrightarrow> r = Ok a"
  by (auto simp: expect_ok_def split: result.splits)

lemma expect_ok_simps [simp]:
  "expect_ok msg (Ok a) = Inr a"
  "expect_ok msg (Err e) = Inl (Expect msg)"
  by (simp_all add: expect_ok_def)

lemma index_iff [simp]:
  "index xs i = Inr x \<longleftrightarrow> i < length xs \<and> xs ! i = x"
  by (auto simp: index_def)

lemma index_in [simp]: "i < length xs \<Longrightarrow> index xs i = Inr (xs ! i)"
  by simp

lemma index_out: "length xs \<le> i \<Longrightarrow> index xs i = Inl IndexOutOfBounds"
  by (simp add: index_def)

lemma is_err_iff: "is_err r \<longleftrightarrow> (\<exists>e. r = Err e)"
  by (cases r) auto

lemma is_ok_iff: "is_ok r \<longleftrightarrow> (\<exists>a. r = Ok a)"
  by (cases r) auto

lemma fold_may_append:
  "fold_may f (xs @ ys) s = bnd (fold_may f xs s) (fold_may f ys)"
  by (induction xs arbitrary: s) (simp_all add: bnd_assoc fun_eq_iff cong: bnd_cong)

lemma fold_may_collect:
  assumes "\<And>x. x \<in> set xs \<Longrightarrow> f x = Inr (g x)"
  shows "fold_may (\<lambda>x acc. bnd (f x) (\<lambda>y. Inr (acc @ [y]))) xs acc = Inr (acc @ map g xs)"
  using assms by (induction xs arbitrary: acc) simp_all

lemma fold_may_concat:
  "fold_may f (concat xss) s = fold_may (\<lambda>xs. fold_may f xs) xss s"
  by (induction xss arbitrary: s) (simp_all add: fold_may_append fun_eq_iff cong: bnd_cong)

lemma fold_may_cong [fundef_cong]:
  "xs = ys \<Longrightarrow> s = t \<Longrightarrow> (\<And>x s. x \<in> set ys \<Longrightarrow> f x s = g x s) \<Longrightarrow> fold_may f xs s = fold_may g ys t"
  by (induction ys arbitrary: xs s t) (auto intro!: bnd_cong)

lemma fold_may_map: "fold_may f (map h xs) s = fold_may (\<lambda>x. f (h x)) xs s"
  by (induction xs arbitrary: s) (simp_all add: fun_eq_iff cong: bnd_cong)

text \<open>The Hoare rule of such a loop: an invariant of every iteration holds at the end.\<close>

lemma fold_may_invariant:
  assumes "fold_may f xs s = Inr s'" and "P s"
    and "\<And>x s s'. x \<in> set xs \<Longrightarrow> P s \<Longrightarrow> f x s = Inr s' \<Longrightarrow> P s'"
  shows "P s'"
  using assms
proof (induction xs arbitrary: s)
  case Nil
  then show ?case by simp
next
  case (Cons x xs)
  from Cons.prems(1) obtain t where t: "f x s = Inr t" "fold_may f xs t = Inr s'"
    by (auto simp: bnd_Inr_iff)
  with Cons.prems have "P t" by auto
  with t(2) show ?case using Cons.prems(3) by (intro Cons.IH) auto
qed

text \<open>The total version: where every iteration returns and keeps the invariant, the loop returns.\<close>

lemma fold_may_total:
  assumes "P s"
    and "\<And>x s. x \<in> set xs \<Longrightarrow> P s \<Longrightarrow> \<exists>s'. f x s = Inr s' \<and> P s'"
  shows "\<exists>s'. fold_may f xs s = Inr s' \<and> P s'"
  using assms
proof (induction xs arbitrary: s)
  case Nil
  then show ?case by simp
next
  case (Cons x xs)
  from Cons.prems obtain t where "f x s = Inr t" "P t" by force
  moreover have "\<exists>s'. fold_may f xs t = Inr s' \<and> P s'"
    using Cons.prems(2) \<open>P t\<close> by (intro Cons.IH) auto
  ultimately show ?case by simp
qed

section \<open>Machine integers\<close>

type_synonym u8 = "8 word"
type_synonym u32 = "32 word"
type_synonym u64 = "64 word"
type_synonym i64 = "64 word"
type_synonym i128 = "128 word"

text \<open>\<open>checked_add\<close>, \<open>checked_sub\<close>, \<open>checked_mul\<close>: unsigned (\<open>u\<close>) and signed (\<open>s\<close>).\<close>

definition checked_uadd :: "'w::len word \<Rightarrow> 'w word \<Rightarrow> 'w word option" where
  "checked_uadd a b = (if unat a + unat b < 2 ^ LENGTH('w) then Some (a + b) else None)"

definition checked_usub :: "'w::len word \<Rightarrow> 'w word \<Rightarrow> 'w word option" where
  "checked_usub a b = (if unat b \<le> unat a then Some (a - b) else None)"

definition checked_umul :: "'w::len word \<Rightarrow> 'w word \<Rightarrow> 'w word option" where
  "checked_umul a b = (if unat a * unat b < 2 ^ LENGTH('w) then Some (a * b) else None)"

definition checked_sadd :: "'w::len word \<Rightarrow> 'w word \<Rightarrow> 'w word option" where
  "checked_sadd a b =
     (if - (2 ^ (LENGTH('w) - 1)) \<le> sint a + sint b \<and> sint a + sint b < 2 ^ (LENGTH('w) - 1)
      then Some (a + b) else None)"

definition checked_ssub :: "'w::len word \<Rightarrow> 'w word \<Rightarrow> 'w word option" where
  "checked_ssub a b =
     (if - (2 ^ (LENGTH('w) - 1)) \<le> sint a - sint b \<and> sint a - sint b < 2 ^ (LENGTH('w) - 1)
      then Some (a - b) else None)"

text \<open>The operators \<open>+\<close> and \<open>-\<close> under overflow checks.\<close>

definition arith :: "'a option \<Rightarrow> panic + 'a" where
  "arith x = (case x of None \<Rightarrow> Inl ArithmeticOverflow | Some a \<Rightarrow> Inr a)"

lemma arith_iff [simp]:
  "arith x = Inr a \<longleftrightarrow> x = Some a"
  "arith x = Inl p \<longleftrightarrow> x = None \<and> p = ArithmeticOverflow"
  by (auto simp: arith_def split: option.splits)

lemma arith_simps [simp]:
  "arith (Some a) = Inr a"
  "arith None = Inl ArithmeticOverflow"
  by simp_all

lemma sint_eq_sint_iff [simp]: "sint a = sint b \<longleftrightarrow> a = b"
  using signed_word_eqI [of a b] by auto

lemma checked_uadd_Some: "checked_uadd a b = Some c \<longleftrightarrow> unat c = unat a + unat b"
proof
  assume "checked_uadd a b = Some c"
  then show "unat c = unat a + unat b"
    by (auto simp: checked_uadd_def unat_word_ariths split: if_splits)
next
  assume c: "unat c = unat a + unat b"
  then have "unat a + unat b < 2 ^ LENGTH('a)"
    using unsigned_less [of c, where ?'a = nat] by simp
  moreover from this c have "c = a + b"
    by (simp add: word_unat_eq_iff unat_word_ariths)
  ultimately show "checked_uadd a b = Some c"
    by (simp add: checked_uadd_def)
qed

lemma checked_usub_Some: "checked_usub a b = Some c \<longleftrightarrow> unat a = unat b + unat c"
proof
  assume "checked_usub a b = Some c"
  then show "unat a = unat b + unat c"
    by (auto simp: checked_usub_def unat_sub word_le_nat_alt split: if_splits)
next
  assume c: "unat a = unat b + unat c"
  then have "b \<le> a" by (simp add: word_le_nat_alt)
  with c have "unat c = unat (a - b)" by (simp add: unat_sub)
  then have "c = a - b" by (simp add: word_unat_eq_iff)
  with c show "checked_usub a b = Some c"
    by (simp add: checked_usub_def)
qed

lemma checked_umul_Some: "checked_umul a b = Some c \<longleftrightarrow> unat c = unat a * unat b"
proof
  assume "checked_umul a b = Some c"
  then show "unat c = unat a * unat b"
    by (auto simp: checked_umul_def unat_word_ariths split: if_splits)
next
  assume c: "unat c = unat a * unat b"
  then have "unat a * unat b < 2 ^ LENGTH('a)"
    using unsigned_less [of c, where ?'a = nat] by simp
  moreover from this c have "c = a * b"
    by (simp add: word_unat_eq_iff unat_word_ariths)
  ultimately show "checked_umul a b = Some c"
    by (simp add: checked_umul_def)
qed

lemma sint_bounds:
  fixes a :: "'w::len word"
  shows "- (2 ^ (LENGTH('w) - 1)) \<le> sint a" "sint a < 2 ^ (LENGTH('w) - 1)"
  using sint_greater_eq [of a] sint_less [of a] by simp_all

lemma sint_of_int_id:
  assumes "- (2 ^ (LENGTH('w::len) - 1)) \<le> i" "i < 2 ^ (LENGTH('w) - 1)"
  shows "sint (word_of_int i :: 'w word) = i"
  using assms by (simp add: sint_sbintrunc' signed_take_bit_int_eq_self)

lemma word_of_int_eq_iff_sint:
  fixes c :: "'w::len word"
  assumes "- (2 ^ (LENGTH('w) - 1)) \<le> i" "i < 2 ^ (LENGTH('w) - 1)"
  shows "word_of_int i = c \<longleftrightarrow> sint c = i"
  using sint_of_int_id [OF assms] of_int_sint [of c] by auto

lemma checked_sadd_Some: "checked_sadd a b = Some c \<longleftrightarrow> sint c = sint a + sint b"
proof -
  have w: "a + b = word_of_int (sint a + sint b)" by simp
  show ?thesis
    unfolding checked_sadd_def w
    using sint_bounds [of c] by (auto simp: word_of_int_eq_iff_sint simp del: of_int_add of_int_sint)
qed

lemma checked_ssub_Some: "checked_ssub a b = Some c \<longleftrightarrow> sint c = sint a - sint b"
proof -
  have w: "a - b = word_of_int (sint a - sint b)" by simp
  show ?thesis
    unfolding checked_ssub_def w
    using sint_bounds [of c] by (auto simp: word_of_int_eq_iff_sint simp del: of_int_diff of_int_sint)
qed

lemma checked_sadd_None:
  fixes a b :: "'w::len word"
  shows "checked_sadd a b = None \<longleftrightarrow>
    sint a + sint b < - (2 ^ (LENGTH('w) - 1)) \<or> 2 ^ (LENGTH('w) - 1) \<le> sint a + sint b"
  by (auto simp: checked_sadd_def)

lemma checked_uadd_None:
  fixes a b :: "'w::len word"
  shows "checked_uadd a b = None \<longleftrightarrow> 2 ^ LENGTH('w) \<le> unat a + unat b"
  by (auto simp: checked_uadd_def)

lemma checked_ssub_nonneg:
  fixes a b :: "'w::len word"
  assumes "0 \<le> sint a" "0 \<le> sint b"
  shows "\<exists>c. checked_ssub a b = Some c"
  using assms sint_bounds [of a] sint_bounds [of b] by (auto simp: checked_ssub_def)

lemmas checked_Some [may_simps] =
  checked_uadd_Some checked_usub_Some checked_umul_Some checked_sadd_Some checked_ssub_Some

end
