(* ===== verification/Sdk.thy ===== *)
theory Sdk
  imports Prelude
begin

text \<open>
  What the program uses of the Soroban SDK, of its XDR types and of the cryptographic crates.
  None of that code is part of the repository, so its functions are parameters: they are the
  fields of the dictionaries \<open>sdk\<close>, \<open>snapshots\<close>, \<open>token_client\<close> and \<open>token_admin_client\<close>, over the
  opaque types \<open>'env\<close> (an \<open>Env\<close>), \<open>'addr\<close> (an \<open>Address\<close>) and \<open>'key\<close> (a \<open>SigningKey\<close>). A function that
  changes the \<open>Env\<close> it is called on returns the new one. The datatypes below have the
  constructors and fields the sources write.
\<close>

section \<open>XDR data the sources construct\<close>

type_synonym sstring = "u8 list"

datatype account_id = AccountId (account_key: "u8 list")

datatype sc_address = ScAccount account_id | ScContract "u8 list"

text \<open>Addresses carry 32 bytes (\<open>Uint256\<close>, \<open>Hash\<close>).\<close>

fun sc_address_ok :: "sc_address \<Rightarrow> bool" where
  "sc_address_ok (ScAccount aid) = (length (account_key aid) = 32)"
| "sc_address_ok (ScContract h) = (length h = 32)"

datatype 'addr val =
    AddressVal 'addr
  | I128Val i128
  | U32Val u32
  | StringVal sstring
  | VoidVal

record 'addr invoke_contract_args =
  contract_address :: sc_address
  function_name :: string
  args :: "'addr val list"

datatype 'addr authorized_function = ContractFn "'addr invoke_contract_args"

datatype 'addr authorized_invocation =
  AuthorizedInvocation
    (invocation_function: "'addr authorized_function")
    (sub_invocations: "'addr authorized_invocation list")

record account_ed25519_signature =
  public_key :: "u8 list"
  signature :: "u8 list"

datatype sc_signature = Void | Signatures "account_ed25519_signature list"

record address_credentials =
  cred_address :: sc_address
  cred_nonce :: i64
  cred_expiration_ledger :: u32
  cred_signature :: sc_signature

record 'addr authorization_entry =
  credentials :: address_credentials
  root_invocation :: "'addr authorized_invocation"

record 'addr authorization_preimage =
  pre_network_id :: "u8 list"
  pre_nonce :: i64
  pre_expiration_ledger :: u32
  pre_invocation :: "'addr authorized_invocation"

datatype trust_line_asset = CreditAlphanum4 (asset_code: "u8 list") (asset_issuer: account_id)

datatype ledger_key =
    AccountLedgerKey account_id
  | TrustlineLedgerKey account_id trust_line_asset

record xdr_signer =
  signer_key :: "u8 list"
  signer_weight :: u32

record account_entry =
  ae_account_id :: account_id
  ae_balance :: i64
  ae_seq_num :: i64
  ae_num_sub_entries :: u32
  ae_inflation_dest :: "account_id option"
  ae_flags :: u32
  ae_home_domain :: sstring
  ae_thresholds :: "u8 list"
  ae_signers :: "xdr_signer list"

record trust_line_entry =
  tl_account_id :: account_id
  tl_asset :: trust_line_asset
  tl_balance :: i64
  tl_limit :: i64
  tl_flags :: u32

datatype ledger_entry_data = AccountData account_entry | TrustlineData trust_line_entry

record ledger_entry =
  last_modified_ledger_seq :: u32
  entry_data :: ledger_entry_data

section \<open>Clients\<close>

text \<open>
  \<open>TokenContractResult\<close> of fuzz.rs: the outer result says whether the call succeeded, the
  inner one of a success whether its value converted, the inner one of a failure whether the
  host's error is an \<open>Error\<close> or an \<open>InvokeError\<close>.
\<close>

datatype conversion_error = ConversionError

datatype invoke_error = Abort | ContractCode u32

type_synonym 'a call_result =
  "(('a, conversion_error) result, (error, invoke_error) result) result"

type_synonym token_contract_result = "unit call_result"

record ('env, 'addr) token_admin_client =
  try_mint :: "'env \<Rightarrow> 'addr \<Rightarrow> i128 \<Rightarrow> token_contract_result \<times> 'env"

record ('env, 'addr) token_client =
  try_approve :: "'env \<Rightarrow> 'addr \<Rightarrow> 'addr \<Rightarrow> i128 \<Rightarrow> u32 \<Rightarrow> token_contract_result \<times> 'env"
  try_transfer_from :: "'env \<Rightarrow> 'addr \<Rightarrow> 'addr \<Rightarrow> 'addr \<Rightarrow> i128 \<Rightarrow> token_contract_result \<times> 'env"
  try_transfer :: "'env \<Rightarrow> 'addr \<Rightarrow> 'addr \<Rightarrow> i128 \<Rightarrow> token_contract_result \<times> 'env"
  try_burn_from :: "'env \<Rightarrow> 'addr \<Rightarrow> 'addr \<Rightarrow> i128 \<Rightarrow> token_contract_result \<times> 'env"
  try_burn :: "'env \<Rightarrow> 'addr \<Rightarrow> i128 \<Rightarrow> token_contract_result \<times> 'env"
  try_allowance :: "'env \<Rightarrow> 'addr \<Rightarrow> 'addr \<Rightarrow> i128 call_result \<times> 'env"
  client_allowance :: "'env \<Rightarrow> 'addr \<Rightarrow> 'addr \<Rightarrow> panic + i128 \<times> 'env"
  client_balance :: "'env \<Rightarrow> 'addr \<Rightarrow> panic + i128 \<times> 'env"
  client_name :: "'env \<Rightarrow> panic + sstring \<times> 'env"
  client_symbol :: "'env \<Rightarrow> panic + sstring \<times> 'env"
  client_decimals :: "'env \<Rightarrow> panic + u32 \<times> 'env"

section \<open>The dictionaries of SDK functions\<close>

text \<open>
  Conversions that the sources \<open>unwrap\<close> return an option; \<open>None\<close> is the failure that makes the
  \<open>unwrap\<close> panic.
\<close>

record ('env, 'addr, 'key) sdk =
  env_default :: 'env
  budget_reset_unlimited :: "'env \<Rightarrow> 'env"
  ledger_sequence :: "'env \<Rightarrow> u32"
  max_entry_ttl :: "'env \<Rightarrow> u32"
  network_id :: "'env \<Rightarrow> u8 list option"
  string_len :: "sstring \<Rightarrow> u32"
  copy_into_slice :: "sstring \<Rightarrow> u8 list \<Rightarrow> panic + u8 list"
  address_to_string :: "'addr \<Rightarrow> sstring"
  address_from_string_bytes :: "'env \<Rightarrow> u8 list \<Rightarrow> panic + 'addr"
  address_try_from_val :: "'env \<Rightarrow> sc_address \<Rightarrow> 'addr option"
  sc_address_try_from :: "'addr \<Rightarrow> sc_address option"
  address_generate :: "'env \<Rightarrow> 'addr \<times> 'env"
  signing_key_from_bytes :: "u8 list \<Rightarrow> 'key"
  verifying_key :: "'key \<Rightarrow> u8 list"
  sign :: "'key \<Rightarrow> u8 list \<Rightarrow> u8 list"
  sha256_digest :: "u8 list \<Rightarrow> u8 list"
  write_xdr :: "'addr authorization_preimage \<Rightarrow> u8 list option"
  bytes_n_try_from_val :: "'env \<Rightarrow> nat \<Rightarrow> u8 list \<Rightarrow> u8 list option"
  symbol_try_into :: "string \<Rightarrow> string option"
  vecm_try_from :: "'addr val list \<Rightarrow> 'addr val list option"
  signatures_try_into :: "account_ed25519_signature list \<Rightarrow> sc_signature option"
  signers_try_into :: "xdr_signer list \<Rightarrow> xdr_signer list option"
  authorized_flag :: u32
  trustline_clawback_enabled_flag :: u32
  storage_put :: "'env \<Rightarrow> ledger_key \<Rightarrow> ledger_entry \<Rightarrow> u32 option \<Rightarrow> ('env, error) result"
  register_mock_auth_contract :: "'env \<Rightarrow> 'addr \<Rightarrow> 'env"
  set_auths :: "'env \<Rightarrow> 'addr authorization_entry list \<Rightarrow> 'env"
  register_stellar_asset_contract :: "'env \<Rightarrow> 'addr \<Rightarrow> 'addr \<times> 'env"
  stellar_asset_client_new :: "'env \<Rightarrow> 'addr \<Rightarrow> ('env, 'addr) token_admin_client"
  client_new :: "'env \<Rightarrow> 'addr \<Rightarrow> ('env, 'addr) token_client"

text \<open>
  \<open>try_into\<close> from bytes to an array of \<open>n\<close> bytes: the standard library's conversion fails on any
  other length.
\<close>

definition array_try_into :: "nat \<Rightarrow> u8 list \<Rightarrow> u8 list option" where
  "array_try_into n bytes = (if length bytes = n then Some bytes else None)"

text \<open>
  The part of \<open>testutils::Snapshot\<close> that fuzz.rs reads and writes. The record is extensible:
  the snapshot's other fields are its extension \<open>'r\<close>.
\<close>

record ('lk, 'le) snapshot =
  sequence_number :: u32
  timestamp :: u64
  ledger_entries :: "('lk \<times> 'le \<times> u32 option) list"

record ('env, 'lk, 'le, 'r) snapshots =
  to_snapshot :: "'env \<Rightarrow> ('lk, 'le, 'r) snapshot_scheme"
  from_snapshot :: "('lk, 'le, 'r) snapshot_scheme \<Rightarrow> 'env"

end
