(* ===== verification/Token.thy ===== *)
theory Token
  imports Sdk
begin

text \<open>
  The example token, tokens/example-token/src: storage types, allowances, balances, the
  administrator, metadata and the contract's entry points. The host functions it calls
  (storage, ledger, authorization, events, and the metadata helper of \<open>soroban_token_sdk\<close>) are the
  dictionary \<open>token_host\<close>. An entry point returns the new \<open>Env\<close> or the panic that aborts it; a
  failing host function panics with \<open>HostError\<close>.
\<close>

section \<open>storage_types.rs\<close>

definition token_DAY_IN_LEDGERS :: u32 where
  "token_DAY_IN_LEDGERS = 17280"

definition INSTANCE_BUMP_AMOUNT :: u32 where
  "INSTANCE_BUMP_AMOUNT = 7 * token_DAY_IN_LEDGERS"

definition INSTANCE_LIFETIME_THRESHOLD :: u32 where
  "INSTANCE_LIFETIME_THRESHOLD = INSTANCE_BUMP_AMOUNT - token_DAY_IN_LEDGERS"

definition BALANCE_BUMP_AMOUNT :: u32 where
  "BALANCE_BUMP_AMOUNT = 30 * token_DAY_IN_LEDGERS"

definition BALANCE_LIFETIME_THRESHOLD :: u32 where
  "BALANCE_LIFETIME_THRESHOLD = BALANCE_BUMP_AMOUNT - token_DAY_IN_LEDGERS"

record 'addr allowance_data_key =
  key_from :: 'addr
  key_spender :: 'addr

record allowance_value =
  av_amount :: i128
  av_expiration_ledger :: u32

datatype 'addr data_key =
    AllowanceKey "'addr allowance_data_key"
  | BalanceKey 'addr
  | NonceKey 'addr
  | StateKey 'addr
  | AdminKey

section \<open>The host as the contract sees it\<close>

datatype durability = Instance | Persistent | Temporary

text \<open>The values the contract stores, by their type.\<close>

datatype 'addr stored =
    StoredAddress 'addr
  | StoredI128 i128
  | StoredAllowance allowance_value

record token_metadata =
  md_decimal :: u32
  md_name :: sstring
  md_symbol :: sstring

datatype 'addr token_event =
    MintEvent 'addr 'addr i128
  | SetAdminEvent 'addr 'addr
  | ApproveEvent 'addr 'addr i128 u32
  | TransferEvent 'addr 'addr i128
  | BurnEvent 'addr i128

record ('env, 'addr) token_host =
  host_sequence :: "'env \<Rightarrow> u32"
  host_has :: "durability \<Rightarrow> 'env \<Rightarrow> 'addr data_key \<Rightarrow> panic + bool"
  host_get :: "durability \<Rightarrow> 'env \<Rightarrow> 'addr data_key \<Rightarrow> panic + 'addr stored option"
  host_set :: "durability \<Rightarrow> 'env \<Rightarrow> 'addr data_key \<Rightarrow> 'addr stored \<Rightarrow> panic + 'env"
  host_extend_ttl :: "durability \<Rightarrow> 'env \<Rightarrow> 'addr data_key \<Rightarrow> u32 \<Rightarrow> u32 \<Rightarrow> panic + 'env"
  host_extend_instance_ttl :: "'env \<Rightarrow> u32 \<Rightarrow> u32 \<Rightarrow> panic + 'env"
  host_require_auth :: "'env \<Rightarrow> 'addr \<Rightarrow> panic + 'env"
  host_get_metadata :: "'env \<Rightarrow> panic + token_metadata"
  host_set_metadata :: "'env \<Rightarrow> token_metadata \<Rightarrow> panic + 'env"
  host_publish :: "'env \<Rightarrow> 'addr token_event \<Rightarrow> panic + 'env"

text \<open>A typed read: a value of another type does not convert, and the SDK unwraps.\<close>

definition get_address ::
  "('env, 'addr) token_host \<Rightarrow> durability \<Rightarrow> 'env \<Rightarrow> 'addr data_key \<Rightarrow> panic + 'addr option" where
  "get_address H d e key =
     bnd (host_get H d e key) (\<lambda>v. case v of
       None \<Rightarrow> Inr None
     | Some (StoredAddress a) \<Rightarrow> Inr (Some a)
     | Some _ \<Rightarrow> Inl Unwrap)"

definition get_i128 ::
  "('env, 'addr) token_host \<Rightarrow> durability \<Rightarrow> 'env \<Rightarrow> 'addr data_key \<Rightarrow> panic + i128 option" where
  "get_i128 H d e key =
     bnd (host_get H d e key) (\<lambda>v. case v of
       None \<Rightarrow> Inr None
     | Some (StoredI128 a) \<Rightarrow> Inr (Some a)
     | Some _ \<Rightarrow> Inl Unwrap)"

definition get_allowance_value ::
  "('env, 'addr) token_host \<Rightarrow> durability \<Rightarrow> 'env \<Rightarrow> 'addr data_key
    \<Rightarrow> panic + allowance_value option" where
  "get_allowance_value H d e key =
     bnd (host_get H d e key) (\<lambda>v. case v of
       None \<Rightarrow> Inr None
     | Some (StoredAllowance a) \<Rightarrow> Inr (Some a)
     | Some _ \<Rightarrow> Inl Unwrap)"

section \<open>allowance.rs\<close>

definition read_allowance ::
  "('env, 'addr) token_host \<Rightarrow> 'env \<Rightarrow> 'addr \<Rightarrow> 'addr \<Rightarrow> panic + allowance_value" where
  "read_allowance H e from spender =
     (let key = AllowanceKey \<lparr>key_from = from, key_spender = spender\<rparr> in
      bnd (get_allowance_value H Temporary e key) (\<lambda>v. Inr (case v of
        Some allowance \<Rightarrow>
          (if av_expiration_ledger allowance < host_sequence H e
           then \<lparr>av_amount = 0, av_expiration_ledger = av_expiration_ledger allowance\<rparr>
           else allowance)
      | None \<Rightarrow> \<lparr>av_amount = 0, av_expiration_ledger = 0\<rparr>)))"

definition write_allowance ::
  "('env, 'addr) token_host \<Rightarrow> 'env \<Rightarrow> 'addr \<Rightarrow> 'addr \<Rightarrow> i128 \<Rightarrow> u32 \<Rightarrow> panic + 'env" where
  "write_allowance H e from spender amount expiration_ledger =
     (let allowance = \<lparr>av_amount = amount, av_expiration_ledger = expiration_ledger\<rparr> in
      if 0 < sint amount \<and> expiration_ledger < host_sequence H e
      then Inl (Panic ''expiration_ledger is less than ledger seq when amount > 0'')
      else
        let key = AllowanceKey \<lparr>key_from = from, key_spender = spender\<rparr> in
        bnd (host_set H Temporary e key (StoredAllowance allowance)) (\<lambda>e.
        if 0 < sint amount then
          bnd (unwrap (checked_usub expiration_ledger (host_sequence H e))) (\<lambda>live_for.
          host_extend_ttl H Temporary e key live_for live_for)
        else Inr e))"

definition spend_allowance ::
  "('env, 'addr) token_host \<Rightarrow> 'env \<Rightarrow> 'addr \<Rightarrow> 'addr \<Rightarrow> i128 \<Rightarrow> panic + 'env" where
  "spend_allowance H e from spender amount =
     bnd (read_allowance H e from spender) (\<lambda>allowance.
     if sint (av_amount allowance) < sint amount then Inl (Panic ''insufficient allowance'')
     else
       bnd (arith (checked_ssub (av_amount allowance) amount)) (\<lambda>rest.
       write_allowance H e from spender rest (av_expiration_ledger allowance)))"

section \<open>balance.rs\<close>

definition read_balance ::
  "('env, 'addr) token_host \<Rightarrow> 'env \<Rightarrow> 'addr \<Rightarrow> panic + i128 \<times> 'env" where
  "read_balance H e addr =
     (let key = BalanceKey addr in
      bnd (get_i128 H Persistent e key) (\<lambda>v. case v of
        Some balance \<Rightarrow>
          bnd (host_extend_ttl H Persistent e key BALANCE_LIFETIME_THRESHOLD BALANCE_BUMP_AMOUNT)
            (\<lambda>e. Inr (balance, e))
      | None \<Rightarrow> Inr (0, e)))"

definition write_balance ::
  "('env, 'addr) token_host \<Rightarrow> 'env \<Rightarrow> 'addr \<Rightarrow> i128 \<Rightarrow> panic + 'env" where
  "write_balance H e addr amount =
     (let key = BalanceKey addr in
      bnd (host_set H Persistent e key (StoredI128 amount)) (\<lambda>e.
      host_extend_ttl H Persistent e key BALANCE_LIFETIME_THRESHOLD BALANCE_BUMP_AMOUNT))"

definition receive_balance ::
  "('env, 'addr) token_host \<Rightarrow> 'env \<Rightarrow> 'addr \<Rightarrow> i128 \<Rightarrow> panic + 'env" where
  "receive_balance H e addr amount =
     bnd (read_balance H e addr) (\<lambda>(balance, e).
     bnd (arith (checked_sadd balance amount)) (\<lambda>sum.
     write_balance H e addr sum))"

definition spend_balance ::
  "('env, 'addr) token_host \<Rightarrow> 'env \<Rightarrow> 'addr \<Rightarrow> i128 \<Rightarrow> panic + 'env" where
  "spend_balance H e addr amount =
     bnd (read_balance H e addr) (\<lambda>(balance, e).
     if sint balance < sint amount then Inl (Panic ''insufficient balance'')
     else
       bnd (arith (checked_ssub balance amount)) (\<lambda>diff.
       write_balance H e addr diff))"

section \<open>admin.rs and metadata.rs\<close>

definition has_administrator :: "('env, 'addr) token_host \<Rightarrow> 'env \<Rightarrow> panic + bool" where
  "has_administrator H e = host_has H Instance e AdminKey"

definition read_administrator :: "('env, 'addr) token_host \<Rightarrow> 'env \<Rightarrow> panic + 'addr" where
  "read_administrator H e = bnd (get_address H Instance e AdminKey) unwrap"

definition write_administrator :: "('env, 'addr) token_host \<Rightarrow> 'env \<Rightarrow> 'addr \<Rightarrow> panic + 'env" where
  "write_administrator H e a = host_set H Instance e AdminKey (StoredAddress a)"

definition read_decimal :: "('env, 'addr) token_host \<Rightarrow> 'env \<Rightarrow> panic + u32" where
  "read_decimal H e = bnd (host_get_metadata H e) (\<lambda>md. Inr (md_decimal md))"

definition read_name :: "('env, 'addr) token_host \<Rightarrow> 'env \<Rightarrow> panic + sstring" where
  "read_name H e = bnd (host_get_metadata H e) (\<lambda>md. Inr (md_name md))"

definition read_symbol :: "('env, 'addr) token_host \<Rightarrow> 'env \<Rightarrow> panic + sstring" where
  "read_symbol H e = bnd (host_get_metadata H e) (\<lambda>md. Inr (md_symbol md))"

definition write_metadata :: "('env, 'addr) token_host \<Rightarrow> 'env \<Rightarrow> token_metadata \<Rightarrow> panic + 'env" where
  "write_metadata H e md = host_set_metadata H e md"

section \<open>contract.rs\<close>

text \<open>The message of this panic also prints the amount, which the model leaves out.\<close>

definition check_nonnegative_amount :: "i128 \<Rightarrow> panic + unit" where
  "check_nonnegative_amount amount =
     (if sint amount < 0 then Inl (Panic ''negative amount is not allowed'') else Inr ())"

definition extend_instance :: "('env, 'addr) token_host \<Rightarrow> 'env \<Rightarrow> panic + 'env" where
  "extend_instance H e =
     host_extend_instance_ttl H e INSTANCE_LIFETIME_THRESHOLD INSTANCE_BUMP_AMOUNT"

definition token_initialize ::
  "('env, 'addr) token_host \<Rightarrow> 'env \<Rightarrow> 'addr \<Rightarrow> u32 \<Rightarrow> sstring \<Rightarrow> sstring \<Rightarrow> panic + 'env" where
  "token_initialize H e admin decimal nm sb =
     bnd (has_administrator H e) (\<lambda>b.
     if b then Inl (Panic ''already initialized'')
     else
       bnd (write_administrator H e admin) (\<lambda>e.
       if 255 < decimal then Inl (Panic ''Decimal must fit in a u8'')
       else write_metadata H e \<lparr>md_decimal = decimal, md_name = nm, md_symbol = sb\<rparr>))"

definition token_mint ::
  "('env, 'addr) token_host \<Rightarrow> 'env \<Rightarrow> 'addr \<Rightarrow> i128 \<Rightarrow> panic + 'env" where
  "token_mint H e to amount =
     bnd (check_nonnegative_amount amount) (\<lambda>_.
     bnd (read_administrator H e) (\<lambda>admin.
     bnd (host_require_auth H e admin) (\<lambda>e.
     bnd (extend_instance H e) (\<lambda>e.
     bnd (receive_balance H e to amount) (\<lambda>e.
     host_publish H e (MintEvent admin to amount))))))"

definition token_set_admin ::
  "('env, 'addr) token_host \<Rightarrow> 'env \<Rightarrow> 'addr \<Rightarrow> panic + 'env" where
  "token_set_admin H e new_admin =
     bnd (read_administrator H e) (\<lambda>admin.
     bnd (host_require_auth H e admin) (\<lambda>e.
     bnd (extend_instance H e) (\<lambda>e.
     bnd (write_administrator H e new_admin) (\<lambda>e.
     host_publish H e (SetAdminEvent admin new_admin)))))"

definition token_allowance ::
  "('env, 'addr) token_host \<Rightarrow> 'env \<Rightarrow> 'addr \<Rightarrow> 'addr \<Rightarrow> panic + i128 \<times> 'env" where
  "token_allowance H e from spender =
     bnd (extend_instance H e) (\<lambda>e.
     bnd (read_allowance H e from spender) (\<lambda>v. Inr (av_amount v, e)))"

definition token_approve ::
  "('env, 'addr) token_host \<Rightarrow> 'env \<Rightarrow> 'addr \<Rightarrow> 'addr \<Rightarrow> i128 \<Rightarrow> u32 \<Rightarrow> panic + 'env" where
  "token_approve H e from spender amount expiration_ledger =
     bnd (host_require_auth H e from) (\<lambda>e.
     bnd (check_nonnegative_amount amount) (\<lambda>_.
     bnd (extend_instance H e) (\<lambda>e.
     bnd (write_allowance H e from spender amount expiration_ledger) (\<lambda>e.
     host_publish H e (ApproveEvent from spender amount expiration_ledger)))))"

definition token_balance ::
  "('env, 'addr) token_host \<Rightarrow> 'env \<Rightarrow> 'addr \<Rightarrow> panic + i128 \<times> 'env" where
  "token_balance H e addr =
     bnd (extend_instance H e) (\<lambda>e. read_balance H e addr)"

definition token_transfer ::
  "('env, 'addr) token_host \<Rightarrow> 'env \<Rightarrow> 'addr \<Rightarrow> 'addr \<Rightarrow> i128 \<Rightarrow> panic + 'env" where
  "token_transfer H e from to amount =
     bnd (host_require_auth H e from) (\<lambda>e.
     bnd (check_nonnegative_amount amount) (\<lambda>_.
     bnd (extend_instance H e) (\<lambda>e.
     bnd (spend_balance H e from amount) (\<lambda>e.
     bnd (receive_balance H e to amount) (\<lambda>e.
     host_publish H e (TransferEvent from to amount))))))"

definition token_transfer_from ::
  "('env, 'addr) token_host \<Rightarrow> 'env \<Rightarrow> 'addr \<Rightarrow> 'addr \<Rightarrow> 'addr \<Rightarrow> i128 \<Rightarrow> panic + 'env" where
  "token_transfer_from H e spender from to amount =
     bnd (host_require_auth H e spender) (\<lambda>e.
     bnd (check_nonnegative_amount amount) (\<lambda>_.
     bnd (extend_instance H e) (\<lambda>e.
     bnd (spend_allowance H e from spender amount) (\<lambda>e.
     bnd (spend_balance H e from amount) (\<lambda>e.
     bnd (receive_balance H e to amount) (\<lambda>e.
     host_publish H e (TransferEvent from to amount)))))))"

definition token_burn ::
  "('env, 'addr) token_host \<Rightarrow> 'env \<Rightarrow> 'addr \<Rightarrow> i128 \<Rightarrow> panic + 'env" where
  "token_burn H e from amount =
     bnd (host_require_auth H e from) (\<lambda>e.
     bnd (check_nonnegative_amount amount) (\<lambda>_.
     bnd (extend_instance H e) (\<lambda>e.
     bnd (spend_balance H e from amount) (\<lambda>e.
     host_publish H e (BurnEvent from amount)))))"

definition token_burn_from ::
  "('env, 'addr) token_host \<Rightarrow> 'env \<Rightarrow> 'addr \<Rightarrow> 'addr \<Rightarrow> i128 \<Rightarrow> panic + 'env" where
  "token_burn_from H e spender from amount =
     bnd (host_require_auth H e spender) (\<lambda>e.
     bnd (check_nonnegative_amount amount) (\<lambda>_.
     bnd (extend_instance H e) (\<lambda>e.
     bnd (spend_allowance H e from spender amount) (\<lambda>e.
     bnd (spend_balance H e from amount) (\<lambda>e.
     host_publish H e (BurnEvent from amount))))))"

definition token_decimals :: "('env, 'addr) token_host \<Rightarrow> 'env \<Rightarrow> panic + u32" where
  "token_decimals H e = read_decimal H e"

definition token_name :: "('env, 'addr) token_host \<Rightarrow> 'env \<Rightarrow> panic + sstring" where
  "token_name H e = read_name H e"

definition token_symbol :: "('env, 'addr) token_host \<Rightarrow> 'env \<Rightarrow> panic + sstring" where
  "token_symbol H e = read_symbol H e"

end
