(* ===== verification/Util.thy ===== *)
theory Util
  imports Sdk
begin

text \<open>
  src/util.rs: byte copies of host strings and of addresses. The locale \<open>sdk_strings\<close> states what
  the program relies on: \<open>len\<close> is the number of bytes, \<open>copy_into_slice\<close> fills a slice of that
  length with them, and different addresses print as different strings (the strkey encoding is
  injective) of a length that fits \<open>u32\<close>.
\<close>

definition string_to_bytes :: "('env, 'addr, 'key) sdk \<Rightarrow> sstring \<Rightarrow> panic + u8 list" where
  "string_to_bytes S s =
     (let out = replicate (unat (string_len S s)) 0 in copy_into_slice S s out)"

definition address_to_bytes :: "('env, 'addr, 'key) sdk \<Rightarrow> 'addr \<Rightarrow> panic + u8 list" where
  "address_to_bytes S addr =
     (let addr_str = address_to_string S addr;
          buf = replicate (unat (string_len S addr_str)) 0
      in copy_into_slice S addr_str buf)"

locale sdk_strings =
  fixes S :: "('env, 'addr, 'key) sdk"
  assumes string_len_law: "length s < 2 ^ 32 \<Longrightarrow> unat (string_len S s) = length s"
    and copy_law: "length buf = length s \<Longrightarrow> copy_into_slice S s buf = Inr s"
    and address_string_short: "length (address_to_string S a) < 2 ^ 32"
    and address_string_inj: "address_to_string S a = address_to_string S b \<Longrightarrow> a = b"
begin

lemma string_to_bytes_ok: "length s < 2 ^ 32 \<Longrightarrow> string_to_bytes S s = Inr s"
  using copy_law [of "replicate (length s) 0" s]
  by (simp add: string_to_bytes_def string_len_law)

lemma address_to_bytes_ok: "address_to_bytes S a = Inr (address_to_string S a)"
  using address_string_short [of a] copy_law [of "replicate (length (address_to_string S a)) 0" "address_to_string S a"]
  by (simp add: address_to_bytes_def string_len_law)

lemma address_string_eq_iff: "address_to_string S a = address_to_string S b \<longleftrightarrow> a = b"
  using address_string_inj by blast

end

end
