(* ===== verification/Contract_State.thy ===== *)
theory Contract_State
  imports Util
begin

text \<open>
  \<open>ContractState\<close> of src/fuzz.rs: the fuzzer's own book of what the token's state should be.
  Balances and allowances are keyed by the bytes of addresses, as in the code. The observations
  \<open>tracked_balance\<close> and \<open>tracked_allowance\<close> read the book at an address; the lemmas of the context
  \<open>sdk_strings\<close> give every operation in terms of them: when it panics, what it writes, and what
  it leaves alone.
\<close>

record contract_state =
  name :: "u8 list"
  symbol :: "u8 list"
  decimals :: u32
  balances :: "u8 list \<rightharpoonup> i128"
  allowances :: "u8 list \<times> u8 list \<rightharpoonup> i128"
  sum_of_mints :: int
  sum_of_burns :: int

definition init :: contract_state where
  "init = \<lparr>name = [], symbol = [], decimals = 0, balances = Map.empty,
     allowances = Map.empty, sum_of_mints = 0, sum_of_burns = 0\<rparr>"

definition get_balance ::
  "('env, 'addr, 'key) sdk \<Rightarrow> contract_state \<Rightarrow> 'addr \<Rightarrow> panic + i128" where
  "get_balance S st addr =
     bnd (address_to_bytes S addr) (\<lambda>addr_bytes.
     Inr (case balances st addr_bytes of None \<Rightarrow> 0 | Some b \<Rightarrow> b))"

definition sub_balance ::
  "('env, 'addr, 'key) sdk \<Rightarrow> contract_state \<Rightarrow> 'addr \<Rightarrow> i128 \<Rightarrow> panic + contract_state" where
  "sub_balance S st addr amount =
     bnd (address_to_bytes S addr) (\<lambda>addr_bytes.
     bnd (get_balance S st addr) (\<lambda>balance.
     bnd (expect ''overflow'' (checked_ssub balance amount)) (\<lambda>new_balance.
     bnd (assert_that (0 \<le> sint new_balance)) (\<lambda>_.
     Inr (st\<lparr>balances := (balances st)(addr_bytes \<mapsto> new_balance)\<rparr>)))))"

definition add_balance ::
  "('env, 'addr, 'key) sdk \<Rightarrow> contract_state \<Rightarrow> 'addr \<Rightarrow> i128 \<Rightarrow> panic + contract_state" where
  "add_balance S st addr amount =
     bnd (address_to_bytes S addr) (\<lambda>addr_bytes.
     bnd (get_balance S st addr) (\<lambda>balance.
     bnd (expect ''overflow'' (checked_sadd balance amount)) (\<lambda>new_balance.
     bnd (assert_that (0 \<le> sint new_balance)) (\<lambda>_.
     Inr (st\<lparr>balances := (balances st)(addr_bytes \<mapsto> new_balance)\<rparr>)))))"

definition set_allowance ::
  "('env, 'addr, 'key) sdk \<Rightarrow> contract_state \<Rightarrow> 'addr \<Rightarrow> 'addr \<Rightarrow> i128 \<Rightarrow> panic + contract_state"
  where
  "set_allowance S st from spender amount =
     bnd (assert_that (0 \<le> sint amount)) (\<lambda>_.
     bnd (address_to_bytes S from) (\<lambda>from_bytes.
     bnd (address_to_bytes S spender) (\<lambda>spender_bytes.
     Inr (st\<lparr>allowances := (allowances st)((from_bytes, spender_bytes) \<mapsto> amount)\<rparr>))))"

definition get_allowance ::
  "('env, 'addr, 'key) sdk \<Rightarrow> contract_state \<Rightarrow> 'addr \<Rightarrow> 'addr \<Rightarrow> panic + i128" where
  "get_allowance S st from spender =
     bnd (address_to_bytes S from) (\<lambda>from_bytes.
     bnd (address_to_bytes S spender) (\<lambda>spender_bytes.
     Inr (case allowances st (from_bytes, spender_bytes) of None \<Rightarrow> 0 | Some a \<Rightarrow> a)))"

definition sub_allowance ::
  "('env, 'addr, 'key) sdk \<Rightarrow> contract_state \<Rightarrow> 'addr \<Rightarrow> 'addr \<Rightarrow> i128 \<Rightarrow> panic + contract_state"
  where
  "sub_allowance S st from spender amount =
     bnd (get_allowance S st from spender) (\<lambda>allowance.
     bnd (expect ''overflow'' (checked_ssub allowance amount)) (\<lambda>new_allowance.
     bnd (assert_that (0 \<le> sint new_allowance)) (\<lambda>_.
     set_allowance S st from spender new_allowance)))"

section \<open>Observations of the book\<close>

definition tracked_balance :: "('env, 'addr, 'key) sdk \<Rightarrow> contract_state \<Rightarrow> 'addr \<Rightarrow> int" where
  "tracked_balance S st a =
     sint (case balances st (address_to_string S a) of None \<Rightarrow> 0 | Some b \<Rightarrow> b)"

definition tracked_allowance ::
  "('env, 'addr, 'key) sdk \<Rightarrow> contract_state \<Rightarrow> 'addr \<Rightarrow> 'addr \<Rightarrow> int" where
  "tracked_allowance S st f s =
     sint (case allowances st (address_to_string S f, address_to_string S s) of
       None \<Rightarrow> 0 | Some b \<Rightarrow> b)"

text \<open>The sum of the tracked balances of a list of accounts.\<close>

definition tracked_total :: "('env, 'addr, 'key) sdk \<Rightarrow> contract_state \<Rightarrow> 'addr list \<Rightarrow> int" where
  "tracked_total S st as = (\<Sum>a\<leftarrow>as. tracked_balance S st a)"

text \<open>
  The type invariant of the book: everything it records is non-negative. It is what the
  assertions of \<open>sub_balance\<close>, \<open>add_balance\<close> and \<open>set_allowance\<close> guard.
\<close>

definition book_ok :: "contract_state \<Rightarrow> bool" where
  "book_ok st \<longleftrightarrow>
     (\<forall>k v. balances st k = Some v \<longrightarrow> 0 \<le> sint v) \<and>
     (\<forall>k v. allowances st k = Some v \<longrightarrow> 0 \<le> sint v)"

named_theorems book_simps \<open>observations after an operation of the book\<close>

lemma book_ok_init [simp]: "book_ok init"
  by (simp add: book_ok_def init_def)

lemma tracked_init [simp]:
  "tracked_balance S init a = 0" "tracked_allowance S init f s = 0" "tracked_total S init as = 0"
  by (simp_all add: tracked_balance_def tracked_allowance_def tracked_total_def init_def)

lemma book_ok_tracked:
  assumes "book_ok st"
  shows "0 \<le> tracked_balance S st a" "0 \<le> tracked_allowance S st f s"
  using assms
  by (auto simp: book_ok_def tracked_balance_def tracked_allowance_def split: option.splits)

lemma tracked_update [simp]:
  "tracked_balance S (st\<lparr>allowances := A\<rparr>) = tracked_balance S st"
  "tracked_allowance S (st\<lparr>balances := B\<rparr>) = tracked_allowance S st"
  "tracked_balance S (st\<lparr>sum_of_mints := m\<rparr>) = tracked_balance S st"
  "tracked_balance S (st\<lparr>sum_of_burns := m\<rparr>) = tracked_balance S st"
  "tracked_allowance S (st\<lparr>sum_of_mints := m\<rparr>) = tracked_allowance S st"
  "tracked_allowance S (st\<lparr>sum_of_burns := m\<rparr>) = tracked_allowance S st"
  by (simp_all add: tracked_balance_def tracked_allowance_def fun_eq_iff)

lemma book_ok_update [simp]:
  "book_ok (st\<lparr>sum_of_mints := m\<rparr>) = book_ok st"
  "book_ok (st\<lparr>sum_of_burns := m\<rparr>) = book_ok st"
  by (simp_all add: book_ok_def)

lemma tracked_total_cong:
  "tracked_balance S st = tracked_balance S st' \<Longrightarrow> tracked_total S st as = tracked_total S st' as"
  by (simp add: tracked_total_def)

lemma tracked_balance_bounds:
  "- (2 ^ 127) \<le> tracked_balance S st a" "tracked_balance S st a < 2 ^ 127"
  using sint_bounds [where 'w = 128] by (simp_all add: tracked_balance_def)

section \<open>Effects of the operations\<close>

definition book_meta :: "contract_state \<Rightarrow> u8 list \<times> u8 list \<times> u32" where
  "book_meta st = (name st, symbol st, decimals st)"

definition book_sums :: "contract_state \<Rightarrow> int \<times> int" where
  "book_sums st = (sum_of_mints st, sum_of_burns st)"

lemma book_meta_update [simp]:
  "book_meta (st\<lparr>sum_of_mints := m\<rparr>) = book_meta st"
  "book_meta (st\<lparr>sum_of_burns := m\<rparr>) = book_meta st"
  "book_meta (st\<lparr>balances := B\<rparr>) = book_meta st"
  "book_meta (st\<lparr>allowances := A\<rparr>) = book_meta st"
  by (simp_all add: book_meta_def)

context sdk_strings
begin

lemma tracked_balance_put:
  "tracked_balance S (st\<lparr>balances := (balances st)(address_to_string S a \<mapsto> v)\<rparr>) =
     (tracked_balance S st)(a := sint v)"
  by (auto simp: tracked_balance_def fun_eq_iff address_string_eq_iff)

lemma tracked_allowance_put:
  "tracked_allowance S
     (st\<lparr>allowances := (allowances st)((address_to_string S f, address_to_string S s) \<mapsto> v)\<rparr>) =
   (tracked_allowance S st)(f := (tracked_allowance S st f)(s := sint v))"
  by (auto simp: tracked_allowance_def fun_eq_iff address_string_eq_iff)

lemma get_balance_Inr: "get_balance S st a = Inr w \<longleftrightarrow> sint w = tracked_balance S st a"
  by (auto simp: get_balance_def address_to_bytes_ok tracked_balance_def
      split: option.splits)

lemma get_allowance_Inr: "get_allowance S st f s = Inr w \<longleftrightarrow> sint w = tracked_allowance S st f s"
  by (auto simp: get_allowance_def address_to_bytes_ok tracked_allowance_def
      split: option.splits)

lemma get_balance_ok:
  obtains w where "get_balance S st a = Inr w" "sint w = tracked_balance S st a"
  using get_balance_Inr by (fastforce simp: get_balance_def address_to_bytes_ok)

lemma get_allowance_ok:
  obtains w where "get_allowance S st f s = Inr w" "sint w = tracked_allowance S st f s"
  using get_allowance_Inr by (fastforce simp: get_allowance_def address_to_bytes_ok)

lemma sub_balance_Inr:
  "sub_balance S st a amount = Inr st' \<longleftrightarrow>
     (\<exists>v. sint v = tracked_balance S st a - sint amount \<and> 0 \<le> sint v \<and>
       st' = st\<lparr>balances := (balances st)(address_to_string S a \<mapsto> v)\<rparr>)"
proof -
  obtain w where w: "get_balance S st a = Inr w" "sint w = tracked_balance S st a"
    by (rule get_balance_ok)
  show ?thesis
    by (auto simp: sub_balance_def address_to_bytes_ok w bnd_Inr_iff checked_ssub_Some)
qed

lemma add_balance_Inr:
  "add_balance S st a amount = Inr st' \<longleftrightarrow>
     (\<exists>v. sint v = tracked_balance S st a + sint amount \<and> 0 \<le> sint v \<and>
       st' = st\<lparr>balances := (balances st)(address_to_string S a \<mapsto> v)\<rparr>)"
proof -
  obtain w where w: "get_balance S st a = Inr w" "sint w = tracked_balance S st a"
    by (rule get_balance_ok)
  show ?thesis
    by (auto simp: add_balance_def address_to_bytes_ok w bnd_Inr_iff checked_sadd_Some)
qed

lemma set_allowance_Inr:
  "set_allowance S st f s amount = Inr st' \<longleftrightarrow>
     0 \<le> sint amount \<and>
     st' = st\<lparr>allowances :=
       (allowances st)((address_to_string S f, address_to_string S s) \<mapsto> amount)\<rparr>"
  by (auto simp: set_allowance_def address_to_bytes_ok)

lemma sub_allowance_Inr:
  "sub_allowance S st f s amount = Inr st' \<longleftrightarrow>
     (\<exists>v. sint v = tracked_allowance S st f s - sint amount \<and> 0 \<le> sint v \<and>
       st' = st\<lparr>allowances :=
         (allowances st)((address_to_string S f, address_to_string S s) \<mapsto> v)\<rparr>)"
proof -
  obtain w where w: "get_allowance S st f s = Inr w" "sint w = tracked_allowance S st f s"
    by (rule get_allowance_ok)
  show ?thesis
    by (auto simp: sub_allowance_def w bnd_Inr_iff checked_ssub_Some set_allowance_Inr)
qed

end

end
