(* ===== verification/Addrgen.thy ===== *)
theory Addrgen
  imports Util
begin

text \<open>
  src/addrgen.rs: the accounts a fuzzing run uses. Account \<open>i\<close> is derived from the seed
  \<open>address_seed + i\<close>, either as the public key of the signing key made from it or as a contract
  hash. The locale \<open>sdk_accounts\<close> states what the program relies on of the SDK's address
  conversions; \<open>sdk_addresses\<close> adds that no two of the \<open>u64\<close> seeds the generator can use collide in
  their ed25519 public key. The lemmas show when the signers are generated and when the seed
  overflows, that their addresses differ unless two public keys collide, and what
  \<open>setup_account_storage\<close> writes.
\<close>

definition NUMBER_OF_ADDRESSES :: nat where
  "NUMBER_OF_ADDRESSES = 3"

datatype address_type = Account | Contract

record address_generator =
  address_seed :: u64
  address_types :: "address_type list"

record ('addr, 'key) test_signer =
  ts_address :: 'addr
  ts_key :: "'key option"

text \<open>The standard library's \<open>u64::to_be_bytes\<close>.\<close>

definition to_be_bytes :: "u64 \<Rightarrow> u8 list" where
  "to_be_bytes w = map (\<lambda>i. ucast (drop_bit (8 * (7 - i)) w)) [0..<8]"

definition signer_bytes :: "u64 \<Rightarrow> u8 list" where
  "signer_bytes seed = replicate 24 0 @ to_be_bytes seed"

text \<open>One iteration of the loop of \<open>generate_signers_with_bytes\<close>.\<close>

definition generate_signer ::
  "('env, 'addr, 'key) sdk \<Rightarrow> address_generator \<Rightarrow> 'env \<Rightarrow> nat
    \<Rightarrow> panic + ('addr, 'key) test_signer \<times> u8 list" where
  "generate_signer S gen env i =
     bnd (expect ''Overflow'' (checked_uadd (address_seed gen) (of_nat i))) (\<lambda>seed.
     let bytes = signer_bytes seed in
     bnd (index (address_types gen) i) (\<lambda>ty.
     case ty of
       Account \<Rightarrow>
         (let signing_key = signing_key_from_bytes S bytes;
              sc_addr = ScAccount (AccountId (verifying_key S signing_key))
          in bnd (unwrap (address_try_from_val S env sc_addr)) (\<lambda>a.
             Inr (\<lparr>ts_address = a, ts_key = Some signing_key\<rparr>, bytes)))
     | Contract \<Rightarrow>
         bnd (unwrap (address_try_from_val S env (ScContract bytes))) (\<lambda>a.
         Inr (\<lparr>ts_address = a, ts_key = None\<rparr>, bytes))))"

definition generate_signers_with_bytes ::
  "('env, 'addr, 'key) sdk \<Rightarrow> address_generator \<Rightarrow> 'env
    \<Rightarrow> panic + (('addr, 'key) test_signer \<times> u8 list) list" where
  "generate_signers_with_bytes S gen env =
     fold_may (\<lambda>i signers. bnd (generate_signer S gen env i) (\<lambda>x. Inr (signers @ [x])))
       [0..<NUMBER_OF_ADDRESSES] []"

definition generate_signers ::
  "('env, 'addr, 'key) sdk \<Rightarrow> address_generator \<Rightarrow> 'env \<Rightarrow> panic + ('addr, 'key) test_signer list"
  where
  "generate_signers S gen env =
     bnd (generate_signers_with_bytes S gen env) (\<lambda>xs. Inr (map fst xs))"

definition default_account_entry :: "account_id \<Rightarrow> xdr_signer list \<Rightarrow> ledger_entry" where
  "default_account_entry account_id signers =
     \<lparr>last_modified_ledger_seq = 0,
      entry_data = AccountData
        \<lparr>ae_account_id = account_id, ae_balance = 10000000, ae_seq_num = 0,
         ae_num_sub_entries = 0, ae_inflation_dest = None, ae_flags = 0,
         ae_home_domain = [], ae_thresholds = [1, 0, 0, 0], ae_signers = signers\<rparr>\<rparr>"

definition put_entry ::
  "('env, 'addr, 'key) sdk \<Rightarrow> 'env \<Rightarrow> ledger_key \<times> ledger_entry \<Rightarrow> panic + 'env" where
  "put_entry S env ke = expect_ok ''ok'' (storage_put S env (fst ke) (snd ke) None)"

definition create_default_account ::
  "('env, 'addr, 'key) sdk \<Rightarrow> 'env \<Rightarrow> account_id \<Rightarrow> ('key \<times> u32) list \<Rightarrow> panic + 'env" where
  "create_default_account S env account_id signers =
     (let key = AccountLedgerKey account_id;
          acc_signers = map (\<lambda>(signer, weight).
            \<lparr>signer_key = verifying_key S signer, signer_weight = weight\<rparr>) signers
      in bnd (unwrap (signers_try_into S acc_signers)) (\<lambda>xdr_signers.
         put_entry S env (key, default_account_entry account_id xdr_signers)))"

text \<open>The asset of \<open>create_default_trustline\<close>: code \<open>aaa\<close>, issued by the key \<open>0\<dots>01\<close>.\<close>

definition default_asset :: trust_line_asset where
  "default_asset = CreditAlphanum4 [97, 97, 97, 0] (AccountId (replicate 31 0 @ [1]))"

definition default_trustline_entry ::
  "('env, 'addr, 'key) sdk \<Rightarrow> account_id \<Rightarrow> ledger_entry" where
  "default_trustline_entry S account_id =
     \<lparr>last_modified_ledger_seq = 0,
      entry_data = TrustlineData
        \<lparr>tl_account_id = account_id, tl_asset = default_asset, tl_balance = 0,
         tl_limit = 2 ^ 63 - 1,
         tl_flags = or (authorized_flag S) (trustline_clawback_enabled_flag S)\<rparr>\<rparr>"

definition create_default_trustline ::
  "('env, 'addr, 'key) sdk \<Rightarrow> 'env \<Rightarrow> account_id \<Rightarrow> panic + 'env" where
  "create_default_trustline S env account_id =
     (let key = TrustlineLedgerKey account_id default_asset
      in put_entry S env (key, default_trustline_entry S account_id))"

text \<open>The closure of \<open>setup_account_storage\<close>, run for each signer.\<close>

definition setup_account ::
  "('env, 'addr, 'key) sdk \<Rightarrow> ('addr, 'key) test_signer \<times> u8 list \<Rightarrow> 'env \<Rightarrow> panic + 'env" where
  "setup_account S signer_n_bytes env =
     (let (signer, bytes) = signer_n_bytes in
      bnd (unwrap (sc_address_try_from S (ts_address signer))) (\<lambda>sc_addr.
      case sc_addr of
        ScAccount account_id \<Rightarrow>
          (let signing_key = signing_key_from_bytes S bytes
           in bnd (create_default_account S env account_id [(signing_key, 100)]) (\<lambda>env.
              create_default_trustline S env account_id))
      | ScContract _ \<Rightarrow> Inr env))"

definition setup_account_storage ::
  "('env, 'addr, 'key) sdk \<Rightarrow> address_generator \<Rightarrow> 'env \<Rightarrow> panic + 'env" where
  "setup_account_storage S gen env =
     bnd (generate_signers_with_bytes S gen env) (\<lambda>signers_n_bytes.
     fold_may (setup_account S) signers_n_bytes env)"

section \<open>Big-endian bytes\<close>

lemma length_to_be_bytes [simp]: "length (to_be_bytes w) = 8"
  by (simp add: to_be_bytes_def)

lemma length_signer_bytes [simp]: "length (signer_bytes w) = 32"
  by (simp add: signer_bytes_def)

lemma to_be_bytes_bit:
  assumes "i < 8" "j < 8"
  shows "bit (to_be_bytes w ! i) j = bit w (8 * (7 - i) + j)"
  using assms by (simp add: to_be_bytes_def bit_unsigned_iff bit_drop_bit_eq)

lemma to_be_bytes_inj: "to_be_bytes v = to_be_bytes w \<Longrightarrow> v = w"
proof (rule bit_word_eqI)
  fix n
  assume eq: "to_be_bytes v = to_be_bytes w" and n: "n < LENGTH(64)"
  define i where "i = 7 - n div 8"
  define j where "j = n mod 8"
  have ij: "i < 8" "j < 8" "8 * (7 - i) + j = n"
    using n by (auto simp: i_def j_def)
  show "bit v n = bit w n"
    using to_be_bytes_bit [OF ij(1,2), of v] to_be_bytes_bit [OF ij(1,2), of w] eq ij(3) by simp
qed

lemma signer_bytes_inj: "signer_bytes v = signer_bytes w \<longleftrightarrow> v = w"
  by (auto simp: signer_bytes_def dest: to_be_bytes_inj)

section \<open>The generated signers\<close>

text \<open>Account \<open>i\<close> of a generator: its seed, its address in XDR and its signing key.\<close>

definition account_seed :: "address_generator \<Rightarrow> nat \<Rightarrow> u64" where
  "account_seed gen i = address_seed gen + of_nat i"

definition account_sc :: "('env, 'addr, 'key) sdk \<Rightarrow> address_generator \<Rightarrow> nat \<Rightarrow> sc_address" where
  "account_sc S gen i =
     (let bytes = signer_bytes (account_seed gen i) in
      case address_types gen ! i of
        Account \<Rightarrow> ScAccount (AccountId (verifying_key S (signing_key_from_bytes S bytes)))
      | Contract \<Rightarrow> ScContract bytes)"

definition account_signer ::
  "('env, 'addr, 'key) sdk \<Rightarrow> (sc_address \<Rightarrow> 'addr) \<Rightarrow> address_generator \<Rightarrow> nat
    \<Rightarrow> ('addr, 'key) test_signer" where
  "account_signer S addr_of gen i =
     \<lparr>ts_address = addr_of (account_sc S gen i),
      ts_key = (case address_types gen ! i of
          Account \<Rightarrow> Some (signing_key_from_bytes S (signer_bytes (account_seed gen i)))
        | Contract \<Rightarrow> None)\<rparr>"

text \<open>
  The range of the \<open>Arbitrary\<close> instance: the seed leaves room for the accounts, and the array
  of types has its length.
\<close>

definition generator_ok :: "address_generator \<Rightarrow> bool" where
  "generator_ok gen \<longleftrightarrow>
     length (address_types gen) = NUMBER_OF_ADDRESSES \<and>
     unat (address_seed gen) + NUMBER_OF_ADDRESSES \<le> 2 ^ 64 - 1"

lemma seed_fits:
  assumes "unat (address_seed gen) + i < 2 ^ 64"
  shows "checked_uadd (address_seed gen) (of_nat i) = Some (account_seed gen i)"
    and "unat (account_seed gen i) = unat (address_seed gen) + i"
proof -
  have i: "unat (of_nat i :: u64) = i"
    using assms by (simp add: unat_of_nat)
  then show *: "checked_uadd (address_seed gen) (of_nat i) = Some (account_seed gen i)"
    using assms by (simp add: checked_uadd_def account_seed_def)
  from * show "unat (account_seed gen i) = unat (address_seed gen) + i"
    by (simp add: checked_uadd_Some i)
qed

lemma generator_ok_fits:
  "generator_ok gen \<Longrightarrow> i < NUMBER_OF_ADDRESSES \<Longrightarrow> unat (address_seed gen) + i < 2 ^ 64"
  by (simp add: generator_ok_def NUMBER_OF_ADDRESSES_def)

lemmas account_seed_unat = seed_fits [OF generator_ok_fits]

lemma account_seed_inj:
  assumes "generator_ok gen" "i < NUMBER_OF_ADDRESSES" "j < NUMBER_OF_ADDRESSES"
    and "account_seed gen i = account_seed gen j"
  shows "i = j"
  using account_seed_unat(2) [OF assms(1,2)] account_seed_unat(2) [OF assms(1,3)]
  unfolding assms(4) by linarith

text \<open>The ledger entries that \<open>setup_account_storage\<close> puts for one account.\<close>

definition account_puts ::
  "('env, 'addr, 'key) sdk \<Rightarrow> address_generator \<Rightarrow> nat \<Rightarrow> (ledger_key \<times> ledger_entry) list" where
  "account_puts S gen i =
     (case account_sc S gen i of
        ScAccount aid \<Rightarrow>
          [(AccountLedgerKey aid,
            default_account_entry aid
              [\<lparr>signer_key = verifying_key S
                  (signing_key_from_bytes S (signer_bytes (account_seed gen i))),
                signer_weight = 100\<rparr>]),
           (TrustlineLedgerKey aid default_asset, default_trustline_entry S aid)]
      | ScContract _ \<Rightarrow> [])"

locale sdk_accounts = sdk_strings S
  for S :: "('env, 'addr, 'key) sdk" +
  fixes addr_of :: "sc_address \<Rightarrow> 'addr"
  assumes address_from_sc: "sc_address_ok sc \<Longrightarrow> address_try_from_val S env sc = Some (addr_of sc)"
    and sc_from_address: "sc_address_ok sc \<Longrightarrow> sc_address_try_from S (addr_of sc) = Some sc"
    and verifying_key_length: "length (verifying_key S k) = 32"
    and signers_fit: "length signers \<le> 20 \<Longrightarrow> signers_try_into S signers = Some signers"
begin

lemma account_sc_ok [simp]: "sc_address_ok (account_sc S gen i)"
  by (simp add: account_sc_def Let_def verifying_key_length split: address_type.splits)

lemma account_sc_address [simp]:
  "sc_address_try_from S (addr_of (account_sc S gen i)) = Some (account_sc S gen i)"
  by (simp add: sc_from_address)

lemma addr_of_inj: "sc_address_ok a \<Longrightarrow> sc_address_ok b \<Longrightarrow> addr_of a = addr_of b \<longleftrightarrow> a = b"
  by (metis sc_from_address option.inject)

text \<open>The seeds that fit: every account gets one, and there is a type for each.\<close>

lemma generate_signer_ok:
  assumes "unat (address_seed gen) + i < 2 ^ 64" "i < length (address_types gen)"
  shows "generate_signer S gen env i =
    Inr (account_signer S addr_of gen i, signer_bytes (account_seed gen i))"
  using assms(2) seed_fits(1) [OF assms(1)]
  by (simp add: generate_signer_def account_signer_def account_sc_def address_from_sc
      verifying_key_length Let_def split: address_type.splits)

lemma generate_signer_overflow:
  assumes "2 ^ 64 \<le> unat (address_seed gen) + i" "i < 2 ^ 64"
  shows "generate_signer S gen env i = Inl (Expect ''Overflow'')"
  using assms by (simp add: generate_signer_def checked_uadd_def unat_of_nat)

lemma generate_signers_with_bytes_fit:
  assumes "unat (address_seed gen) + NUMBER_OF_ADDRESSES \<le> 2 ^ 64"
    and "length (address_types gen) = NUMBER_OF_ADDRESSES"
  shows "generate_signers_with_bytes S gen env =
    Inr (map (\<lambda>i. (account_signer S addr_of gen i, signer_bytes (account_seed gen i)))
      [0..<NUMBER_OF_ADDRESSES])"
  unfolding generate_signers_with_bytes_def
  by (subst fold_may_collect [where g = "\<lambda>i. (account_signer S addr_of gen i, signer_bytes (account_seed gen i))"])
    (use assms in \<open>simp_all add: generate_signer_ok\<close>)

lemma generate_signers_fit:
  assumes "unat (address_seed gen) + NUMBER_OF_ADDRESSES \<le> 2 ^ 64"
    and "length (address_types gen) = NUMBER_OF_ADDRESSES"
  shows "generate_signers S gen env =
    Inr (map (account_signer S addr_of gen) [0..<NUMBER_OF_ADDRESSES])"
  by (simp add: generate_signers_def generate_signers_with_bytes_fit [OF assms] comp_def)

lemma generate_signers_overflow:
  assumes "2 ^ 64 < unat (address_seed gen) + NUMBER_OF_ADDRESSES"
    and "length (address_types gen) = NUMBER_OF_ADDRESSES"
  shows "generate_signers S gen env = Inl (Expect ''Overflow'')"
proof -
  have i: "generate_signer S gen env i = Inl (Expect ''Overflow'') \<or>
      (\<exists>x. generate_signer S gen env i = Inr x)" if "i < NUMBER_OF_ADDRESSES" for i
    using generate_signer_ok [of gen i env] generate_signer_overflow [of gen i env] assms(2) that
    by (cases "unat (address_seed gen) + i < 2 ^ 64") (simp_all add: NUMBER_OF_ADDRESSES_def)
  have "generate_signer S gen env 2 = Inl (Expect ''Overflow'')"
    using assms(1) by (intro generate_signer_overflow) (simp_all add: NUMBER_OF_ADDRESSES_def)
  then show ?thesis
    using i [of 0] i [of 1]
    by (auto simp: generate_signers_def generate_signers_with_bytes_def NUMBER_OF_ADDRESSES_def upt_rec
        numeral_2_eq_2)
qed

lemma generator_ok_bound:
  "generator_ok gen \<Longrightarrow> unat (address_seed gen) + NUMBER_OF_ADDRESSES \<le> 2 ^ 64"
  "generator_ok gen \<Longrightarrow> length (address_types gen) = NUMBER_OF_ADDRESSES"
  by (simp_all add: generator_ok_def)

lemma generate_signers_with_bytes_ok:
  assumes "generator_ok gen"
  shows "generate_signers_with_bytes S gen env =
    Inr (map (\<lambda>i. (account_signer S addr_of gen i, signer_bytes (account_seed gen i)))
      [0..<NUMBER_OF_ADDRESSES])"
  by (rule generate_signers_with_bytes_fit [OF generator_ok_bound [OF assms]])

lemma generate_signers_ok:
  assumes "generator_ok gen"
  shows "generate_signers S gen env =
    Inr (map (account_signer S addr_of gen) [0..<NUMBER_OF_ADDRESSES])"
  by (rule generate_signers_fit [OF generator_ok_bound [OF assms]])

text \<open>Two accounts have the same address only if the public keys of two seeds collide.\<close>

lemma account_sc_collision:
  assumes "account_seed gen i \<noteq> account_seed gen j" "account_sc S gen i = account_sc S gen j"
  shows "address_types gen ! i = Account" "address_types gen ! j = Account"
    "verifying_key S (signing_key_from_bytes S (signer_bytes (account_seed gen i))) =
     verifying_key S (signing_key_from_bytes S (signer_bytes (account_seed gen j)))"
  using assms by (auto simp: account_sc_def Let_def signer_bytes_inj split: address_type.splits)

lemma signer_shape:
  "case address_types gen ! i of
     Contract \<Rightarrow> ts_key (account_signer S addr_of gen i) = None \<and>
       sc_address_try_from S (ts_address (account_signer S addr_of gen i)) =
         Some (ScContract (signer_bytes (account_seed gen i)))
   | Account \<Rightarrow>
       (let key = signing_key_from_bytes S (signer_bytes (account_seed gen i)) in
        ts_key (account_signer S addr_of gen i) = Some key \<and>
        sc_address_try_from S (ts_address (account_signer S addr_of gen i)) =
          Some (ScAccount (AccountId (verifying_key S key))))"
  using account_sc_address [of gen i]
  by (cases "address_types gen ! i") (simp_all add: account_signer_def account_sc_def)

lemma signers_apart:
  assumes fit: "unat (address_seed gen) + NUMBER_OF_ADDRESSES \<le> 2 ^ 64"
    and ij: "i < NUMBER_OF_ADDRESSES" "j < i"
    and same: "ts_address (account_signer S addr_of gen i) = ts_address (account_signer S addr_of gen j)"
  shows "address_types gen ! i = Account" "address_types gen ! j = Account"
    "verifying_key S (signing_key_from_bytes S (signer_bytes (account_seed gen i))) =
     verifying_key S (signing_key_from_bytes S (signer_bytes (account_seed gen j)))"
proof -
  have "unat (account_seed gen i) = unat (address_seed gen) + i"
      "unat (account_seed gen j) = unat (address_seed gen) + j"
    using fit ij by (intro seed_fits(2); simp)+
  then have "account_seed gen i \<noteq> account_seed gen j" using ij(2) by auto
  moreover have "account_sc S gen i = account_sc S gen j"
    using same by (simp add: account_signer_def addr_of_inj)
  ultimately show "address_types gen ! i = Account" "address_types gen ! j = Account"
    "verifying_key S (signing_key_from_bytes S (signer_bytes (account_seed gen i))) =
     verifying_key S (signing_key_from_bytes S (signer_bytes (account_seed gen j)))"
    by (rule account_sc_collision)+
qed

lemma create_default_account_ok:
  "create_default_account S env aid [(sk, w)] =
     put_entry S env (AccountLedgerKey aid,
       default_account_entry aid [\<lparr>signer_key = verifying_key S sk, signer_weight = w\<rparr>])"
  by (simp add: create_default_account_def Let_def signers_fit)

lemma setup_account_ok:
  "setup_account S (account_signer S addr_of gen i, signer_bytes (account_seed gen i)) env =
     fold_may (\<lambda>ke env. put_entry S env ke) (account_puts S gen i) env"
  using account_sc_address [of gen i]
  by (cases "account_sc S gen i")
    (simp_all add: setup_account_def account_signer_def account_puts_def
      create_default_account_ok create_default_trustline_def bnd_def split: sum.splits)

lemma setup_account_storage_ok:
  assumes "generator_ok gen"
  shows "setup_account_storage S gen env =
    fold_may (\<lambda>ke env. put_entry S env ke)
      (concat (map (account_puts S gen) [0..<NUMBER_OF_ADDRESSES])) env"
  unfolding setup_account_storage_def generate_signers_with_bytes_ok [OF assms] fold_may_concat
  by (simp add: fold_may_map setup_account_ok cong: fold_may_cong)

end

text \<open>No collision of public keys among the seeds a generator can use.\<close>

locale sdk_addresses = sdk_accounts S addr_of
  for S :: "('env, 'addr, 'key) sdk" and addr_of :: "sc_address \<Rightarrow> 'addr" +
  assumes verifying_key_inj:
    "verifying_key S (signing_key_from_bytes S (signer_bytes v)) =
       verifying_key S (signing_key_from_bytes S (signer_bytes w)) \<Longrightarrow> v = w"
begin

lemma account_sc_inj:
  assumes "generator_ok gen" "i < NUMBER_OF_ADDRESSES" "j < NUMBER_OF_ADDRESSES"
    and "account_sc S gen i = account_sc S gen j"
  shows "i = j"
  using account_sc_collision(3) [OF _ assms(4)] verifying_key_inj account_seed_inj [OF assms(1-3)]
  by blast

lemma account_addresses_distinct:
  assumes "generator_ok gen"
  shows "distinct (map (\<lambda>i. addr_of (account_sc S gen i)) [0..<NUMBER_OF_ADDRESSES])"
  using account_sc_inj [OF assms] by (auto simp: distinct_map inj_on_def addr_of_inj)

end

end
