(* ===== verification/Auths.thy ===== *)
theory Auths
  imports Addrgen
begin

text \<open>
  \<open>mock_auths_for_command\<close> and \<open>sign_payload_for_account\<close> of src/fuzz.rs: before a command, the
  fuzzer gives the \<open>Env\<close> one authorization entry for each account whose flag is set, signed with
  the account's key (contract addresses get a registered contract that accepts everything). The
  locale \<open>sdk_auth\<close> states what the program relies on of the conversions it unwraps. The lemmas
  show exactly which entries are set and which nonces they use.
\<close>

definition sign_payload_for_account ::
  "('env, 'addr, 'key) sdk \<Rightarrow> 'env \<Rightarrow> 'key \<Rightarrow> u8 list \<Rightarrow> panic + account_ed25519_signature" where
  "sign_payload_for_account S env signer payload =
     bnd (unwrap (bytes_n_try_from_val S env 32 (verifying_key S signer))) (\<lambda>pk.
     bnd (unwrap (bytes_n_try_from_val S env 64 (sign S signer payload))) (\<lambda>sg.
     Inr \<lparr>public_key = pk, signature = sg\<rparr>))"

text \<open>The signature of an entry: \<open>Void\<close> for a contract address, a signed payload otherwise.\<close>

definition mock_signature ::
  "('env, 'addr, 'key) sdk \<Rightarrow> 'env \<Rightarrow> 'key option \<Rightarrow> 'addr authorized_invocation \<Rightarrow> i64 \<Rightarrow> u32
    \<Rightarrow> panic + sc_signature" where
  "mock_signature S env key invocation nonce expiration_ledger =
     (case key of
        None \<Rightarrow> Inr Void
      | Some k \<Rightarrow>
          bnd (unwrap (network_id S env)) (\<lambda>li_network_id.
          bnd (unwrap (array_try_into 32 li_network_id)) (\<lambda>nid.
          let preimage = \<lparr>pre_network_id = nid, pre_nonce = nonce,
                pre_expiration_ledger = expiration_ledger, pre_invocation = invocation\<rparr>
          in bnd (unwrap (write_xdr S preimage)) (\<lambda>buf.
             bnd (unwrap (array_try_into 32 (sha256_digest S buf))) (\<lambda>signature_payload.
             bnd (sign_payload_for_account S env k signature_payload) (\<lambda>sg.
             unwrap (signatures_try_into S [sg])))))))"

text \<open>The body of the loop for an account whose flag is set.\<close>

definition mock_auth_entry ::
  "('env, 'addr, 'key) sdk \<Rightarrow> sc_address \<Rightarrow> string \<Rightarrow> 'addr val list \<Rightarrow> u32
    \<Rightarrow> ('addr, 'key) test_signer \<Rightarrow> 'env \<times> i64 \<times> 'addr authorization_entry list
    \<Rightarrow> panic + 'env \<times> i64 \<times> 'addr authorization_entry list" where
  "mock_auth_entry S token_sc fn_name fn_args expiration_ledger signer st =
     (let (env, signature_nonce, auth_entries) = st in
      bnd (unwrap (sc_address_try_from S (ts_address signer))) (\<lambda>sc_addr.
      let is_contract_address = (ts_key signer = None);
          env = (if is_contract_address then register_mock_auth_contract S env (ts_address signer)
                 else env)
      in
      bnd (unwrap (symbol_try_into S fn_name)) (\<lambda>fn_symbol.
      bnd (unwrap (vecm_try_from S fn_args)) (\<lambda>fn_vec.
      let root = AuthorizedInvocation
            (ContractFn \<lparr>contract_address = token_sc, function_name = fn_symbol, args = fn_vec\<rparr>) []
      in
      bnd (mock_signature S env (ts_key signer) root signature_nonce expiration_ledger) (\<lambda>sg.
      bnd (arith (checked_sadd signature_nonce 1)) (\<lambda>next_nonce.
      let entry = \<lparr>credentials = \<lparr>cred_address = sc_addr, cred_nonce = signature_nonce,
                     cred_expiration_ledger = expiration_ledger, cred_signature = sg\<rparr>,
                   root_invocation = root\<rparr>
      in Inr (env, next_nonce, auth_entries @ [entry])))))))"

definition mock_auth_step ::
  "('env, 'addr, 'key) sdk \<Rightarrow> sc_address \<Rightarrow> string \<Rightarrow> 'addr val list \<Rightarrow> u32 \<Rightarrow> bool list
    \<Rightarrow> ('addr, 'key) test_signer list \<Rightarrow> nat \<Rightarrow> 'env \<times> i64 \<times> 'addr authorization_entry list
    \<Rightarrow> panic + 'env \<times> i64 \<times> 'addr authorization_entry list" where
  "mock_auth_step S token_sc fn_name fn_args expiration_ledger auths accounts i st =
     bnd (index auths i) (\<lambda>auth.
     if auth then
       bnd (index accounts i) (\<lambda>signer.
       mock_auth_entry S token_sc fn_name fn_args expiration_ledger signer st)
     else Inr st)"

definition mock_auths_for_command ::
  "('env, 'addr, 'key) sdk \<Rightarrow> 'env \<Rightarrow> string \<Rightarrow> bool list \<Rightarrow> ('addr, 'key) test_signer list
    \<Rightarrow> u8 list \<Rightarrow> i64 \<Rightarrow> 'addr val list \<Rightarrow> panic + 'env \<times> i64" where
  "mock_auths_for_command S env fn_name auths accounts token_contract_id_bytes signature_nonce
      fn_args =
     (let curr_ledger = ledger_sequence S env; ttl = max_entry_ttl S env in
      bnd (arith (checked_uadd curr_ledger ttl)) (\<lambda>sum.
      bnd (arith (checked_usub sum 1)) (\<lambda>expiration_ledger.
      bnd (address_from_string_bytes S env token_contract_id_bytes) (\<lambda>token_contract_id.
      bnd (unwrap (sc_address_try_from S token_contract_id)) (\<lambda>token_sc.
      bnd (fold_may
             (mock_auth_step S token_sc fn_name fn_args expiration_ledger auths accounts)
             [0..<NUMBER_OF_ADDRESSES] (env, signature_nonce, []))
        (\<lambda>(env, signature_nonce, auth_entries).
      Inr (set_auths S env auth_entries, signature_nonce)))))))"

section \<open>What is authorized\<close>

definition command_invocation ::
  "sc_address \<Rightarrow> string \<Rightarrow> 'addr val list \<Rightarrow> 'addr authorized_invocation" where
  "command_invocation token_sc fn_name fn_args =
     AuthorizedInvocation
       (ContractFn \<lparr>contract_address = token_sc, function_name = fn_name, args = fn_args\<rparr>) []"

text \<open>
  A signature as the account contract accepts it: for a signing key, the key's signature of the
  hash of the entry's preimage.
\<close>

definition signed_entry ::
  "('env, 'addr, 'key) sdk \<Rightarrow> ('addr authorization_preimage \<Rightarrow> u8 list) \<Rightarrow> 'env \<Rightarrow> 'key option
    \<Rightarrow> 'addr authorization_entry \<Rightarrow> bool" where
  "signed_entry S xdr env key e \<longleftrightarrow>
     (case key of
        None \<Rightarrow> cred_signature (credentials e) = Void
      | Some k \<Rightarrow>
          (case network_id S env of
             None \<Rightarrow> False
           | Some nid \<Rightarrow> cred_signature (credentials e) = Signatures
               [\<lparr>public_key = verifying_key S k,
                 signature = sign S k (sha256_digest S (xdr
                   \<lparr>pre_network_id = nid, pre_nonce = cred_nonce (credentials e),
                    pre_expiration_ledger = cred_expiration_ledger (credentials e),
                    pre_invocation = root_invocation e\<rparr>))\<rparr>]))"

text \<open>The entry of account \<open>i\<close>, and the entries of a list of accounts in order.\<close>

definition entry_for ::
  "('env, 'addr, 'key) sdk \<Rightarrow> ('addr authorization_preimage \<Rightarrow> u8 list) \<Rightarrow> 'env
    \<Rightarrow> 'addr authorized_invocation \<Rightarrow> u32 \<Rightarrow> sc_address \<times> 'key option \<Rightarrow> i64
    \<Rightarrow> 'addr authorization_entry \<Rightarrow> bool" where
  "entry_for S xdr env ri ex acc n e \<longleftrightarrow>
     cred_address (credentials e) = fst acc \<and> cred_nonce (credentials e) = n \<and>
     cred_expiration_ledger (credentials e) = ex \<and> root_invocation e = ri \<and>
     signed_entry S xdr env (snd acc) e"

definition entries_for ::
  "('env, 'addr, 'key) sdk \<Rightarrow> ('addr authorization_preimage \<Rightarrow> u8 list) \<Rightarrow> 'env
    \<Rightarrow> 'addr authorized_invocation \<Rightarrow> u32 \<Rightarrow> (sc_address \<times> 'key option) list \<Rightarrow> i64
    \<Rightarrow> 'addr authorization_entry list \<Rightarrow> bool" where
  "entries_for S xdr env ri ex accs nonce es \<longleftrightarrow>
     length es = length accs \<and>
     (\<forall>k<length accs. entry_for S xdr env ri ex (accs ! k) (nonce + of_nat k) (es ! k))"

lemma entries_for_Nil [simp]: "entries_for S xdr env ri ex [] nonce es \<longleftrightarrow> es = []"
  by (simp add: entries_for_def)

lemma entries_for_snoc:
  "entries_for S xdr env ri ex accs nonce es \<Longrightarrow>
   entry_for S xdr env ri ex acc (nonce + of_nat (length es)) e \<Longrightarrow>
   entries_for S xdr env ri ex (accs @ [acc]) nonce (es @ [e])"
  by (auto simp: entries_for_def nth_append less_Suc_eq)

lemma signed_entry_network:
  "network_id S env = network_id S env' \<Longrightarrow> signed_entry S xdr env key e = signed_entry S xdr env' key e"
  by (simp add: signed_entry_def split: option.splits)

lemma entry_for_network:
  "network_id S env = network_id S env' \<Longrightarrow>
   entry_for S xdr env ri ex acc n e = entry_for S xdr env' ri ex acc n e"
  by (simp add: entry_for_def signed_entry_network [of S env env'])

definition authorized_accounts ::
  "('env, 'addr, 'key) sdk \<Rightarrow> (sc_address \<Rightarrow> 'addr) \<Rightarrow> address_generator \<Rightarrow> bool list \<Rightarrow> nat
    \<Rightarrow> (sc_address \<times> 'key option) list" where
  "authorized_accounts S addr_of gen auths m =
     map (\<lambda>i. (account_sc S gen i, ts_key (account_signer S addr_of gen i)))
       (filter (\<lambda>i. auths ! i) [0..<m])"

text \<open>
  The \<open>Env\<close> after the mock contract is registered at the flagged contract accounts among the first
  \<open>m\<close>.
\<close>

definition registered ::
  "('env, 'addr, 'key) sdk \<Rightarrow> (sc_address \<Rightarrow> 'addr) \<Rightarrow> address_generator \<Rightarrow> bool list \<Rightarrow> nat
    \<Rightarrow> 'env \<Rightarrow> 'env" where
  "registered S addr_of gen auths m env =
     fold (\<lambda>i env. register_mock_auth_contract S env (addr_of (account_sc S gen i)))
       (filter (\<lambda>i. auths ! i \<and> address_types gen ! i = Contract) [0..<m]) env"

lemma registered_keeps:
  assumes "P env" and "\<And>e i. P e \<Longrightarrow> i < m \<Longrightarrow> address_types gen ! i = Contract \<Longrightarrow>
    P (register_mock_auth_contract S e (addr_of (account_sc S gen i)))"
  shows "P (registered S addr_of gen auths m env)"
  unfolding registered_def by (rule fold_invariant [where Q = "\<lambda>i. i < m \<and> address_types gen ! i = Contract"])
    (use assms in auto)

lemma account_signer_key: "ts_key (account_signer S addr_of gen i) = None \<longleftrightarrow> address_types gen ! i = Contract"
  by (simp add: account_signer_def split: address_type.splits)

lemma nonce_add:
  assumes "0 \<le> sint n" "sint n + int k < 2 ^ 63"
  shows "sint (n + of_nat k :: i64) = sint n + int k"
proof -
  have "n + of_nat k = word_of_int (sint n + int k)" by simp
  then show ?thesis
    using assms sint_of_int_id [where 'w = 64, of "sint n + int k"] by (simp del: of_int_add)
qed

locale sdk_auth = sdk_addresses S addr_of
  for S :: "('env, 'addr, 'key) sdk" and addr_of :: "sc_address \<Rightarrow> 'addr" +
  fixes xdr :: "'addr authorization_preimage \<Rightarrow> u8 list"
  assumes write_xdr_law: "write_xdr S p = Some (xdr p)"
    and symbol_law: "length f \<le> 32 \<Longrightarrow> symbol_try_into S f = Some f"
    and vecm_law: "length vs < 2 ^ 32 \<Longrightarrow> vecm_try_from S vs = Some vs"
    and bytes_n_law: "length b = n \<Longrightarrow> bytes_n_try_from_val S env n b = Some b"
    and sign_length: "length (sign S k m) = 64"
    and sha256_length: "length (sha256_digest S b) = 32"
    and network_id_law: "\<exists>nid. network_id S env = Some nid \<and> length nid = 32"
    and signatures_law: "signatures_try_into S [sg] = Some (Signatures [sg])"
    and address_parse: "address_from_string_bytes S env (address_to_string S a) = Inr a"
    and sc_address_total: "\<exists>sc. sc_address_try_from S a = Some sc"
    and network_id_register: "network_id S (register_mock_auth_contract S env a) = network_id S env"
begin

lemma mock_signature_ok:
  assumes "signed_entry S xdr env key
    \<lparr>credentials = \<lparr>cred_address = sc, cred_nonce = nonce, cred_expiration_ledger = ex,
       cred_signature = sg\<rparr>, root_invocation = ri\<rparr>"
  shows "mock_signature S env key ri nonce ex = Inr sg"
proof -
  obtain nid where "network_id S env = Some nid" "length nid = 32" using network_id_law by blast
  with assms show ?thesis
    by (simp add: signed_entry_def mock_signature_def sign_payload_for_account_def write_xdr_law
        bytes_n_law verifying_key_length sign_length sha256_length array_try_into_def signatures_law
        Let_def split: option.splits)
qed

lemma signed_entry_exists:
  "\<exists>sg. signed_entry S xdr env key
    \<lparr>credentials = \<lparr>cred_address = sc, cred_nonce = nonce, cred_expiration_ledger = ex,
       cred_signature = sg\<rparr>, root_invocation = ri\<rparr>"
proof -
  obtain nid where "network_id S env = Some nid" using network_id_law by blast
  then show ?thesis by (cases key) (simp_all add: signed_entry_def)
qed

lemma mock_auth_entry_ok:
  assumes fn: "length fn_name \<le> 32" and vs: "length fn_args < 2 ^ 32"
    and n: "0 \<le> sint nonce" "sint nonce + 1 < 2 ^ 63"
    and sc: "sc_address_try_from S (ts_address signer) = Some sc"
  obtains env' e where
    "mock_auth_entry S token_sc fn_name fn_args ex signer (env, nonce, es) =
      Inr (env', nonce + 1, es @ [e])"
    "env' = (if ts_key signer = None then register_mock_auth_contract S env (ts_address signer)
      else env)"
    "entry_for S xdr env (command_invocation token_sc fn_name fn_args) ex (sc, ts_key signer) nonce e"
proof -
  let ?ri = "command_invocation token_sc fn_name fn_args"
  let ?env = "if ts_key signer = None then register_mock_auth_contract S env (ts_address signer)
    else env"
  obtain sg where sg: "signed_entry S xdr ?env (ts_key signer)
    \<lparr>credentials = \<lparr>cred_address = sc, cred_nonce = nonce, cred_expiration_ledger = ex,
       cred_signature = sg\<rparr>, root_invocation = ?ri\<rparr>" (is "signed_entry S xdr _ _ ?e")
    using signed_entry_exists by blast
  have "checked_sadd nonce 1 = Some (nonce + 1)"
    using nonce_add [of nonce 1] n by (simp add: checked_sadd_Some)
  then have "mock_auth_entry S token_sc fn_name fn_args ex signer (env, nonce, es) =
      Inr (?env, nonce + 1, es @ [?e])"
    using mock_signature_ok [OF sg]
    by (simp add: mock_auth_entry_def sc symbol_law [OF fn] vecm_law [OF vs] Let_def
        command_invocation_def)
  moreover have "entry_for S xdr env ?ri ex (sc, ts_key signer) nonce ?e"
    using sg signed_entry_network [of S ?env env xdr] by (simp add: entry_for_def network_id_register)
  ultimately show ?thesis by (intro that [of ?env ?e]) auto
qed

text \<open>
  The loop over the first \<open>m\<close> accounts: the entries are those of the flagged accounts, in order,
  with consecutive nonces.
\<close>

lemma mock_auth_loop:
  assumes gen: "generator_ok gen" and auths: "length auths = NUMBER_OF_ADDRESSES"
    and fn: "length fn_name \<le> 32" and vs: "length fn_args < 2 ^ 32"
    and n: "0 \<le> sint nonce" "sint nonce + int NUMBER_OF_ADDRESSES < 2 ^ 63"
    and m: "m \<le> NUMBER_OF_ADDRESSES"
  shows "\<exists>es.
    fold_may (mock_auth_step S token_sc fn_name fn_args ex auths
      (map (account_signer S addr_of gen) [0..<NUMBER_OF_ADDRESSES])) [0..<m] (env, nonce, []) =
      Inr (registered S addr_of gen auths m env, nonce + of_nat (length es), es) \<and> length es \<le> m \<and>
    entries_for S xdr env (command_invocation token_sc fn_name fn_args) ex
      (authorized_accounts S addr_of gen auths m) nonce es"
    (is "\<exists>es. fold_may ?step _ _ = _ \<and> _ \<and> entries_for S xdr env ?ri ex _ nonce es")
  using m
proof (induction m)
  case 0
  then show ?case by (simp add: authorized_accounts_def registered_def)
next
  case (Suc m)
  let ?env1 = "registered S addr_of gen auths m env"
  from Suc obtain es1 where
    IH: "fold_may ?step [0..<m] (env, nonce, []) = Inr (?env1, nonce + of_nat (length es1), es1)"
      "length es1 \<le> m"
      "entries_for S xdr env ?ri ex (authorized_accounts S addr_of gen auths m) nonce es1"
    by auto
  have net: "network_id S ?env1 = network_id S env"
    by (rule registered_keeps [where P = "\<lambda>e. network_id S e = network_id S env"])
      (simp_all add: network_id_register)
  have m: "m < NUMBER_OF_ADDRESSES" using Suc.prems by simp
  show ?case
  proof (cases "auths ! m")
    case False
    with m auths have "?step m st = Inr st" for st
      by (simp add: mock_auth_step_def)
    with IH False show ?thesis
      by (auto simp: fold_may_append authorized_accounts_def registered_def)
  next
    case True
    let ?signer = "account_signer S addr_of gen m"
    have sc: "sc_address_try_from S (ts_address ?signer) = Some (account_sc S gen m)"
      by (simp add: account_signer_def sc_from_address)
    have nn: "sint (nonce + of_nat (length es1)) = sint nonce + int (length es1)"
      using n IH(2) m by (intro nonce_add) auto
    obtain env2 e where e:
      "mock_auth_entry S token_sc fn_name fn_args ex ?signer
          (?env1, nonce + of_nat (length es1), es1) =
        Inr (env2, nonce + of_nat (length es1) + 1, es1 @ [e])"
      "env2 = (if ts_key ?signer = None then register_mock_auth_contract S ?env1 (ts_address ?signer)
        else ?env1)"
      "entry_for S xdr ?env1 ?ri ex (account_sc S gen m, ts_key ?signer)
        (nonce + of_nat (length es1)) e"
      using n IH(2) m nn by (elim mock_auth_entry_ok [OF fn vs _ _ sc, rotated 2]) auto
    have "?step m (?env1, nonce + of_nat (length es1), es1) =
        Inr (env2, nonce + of_nat (length (es1 @ [e])), es1 @ [e])"
      using True m auths e(1) by (simp add: mock_auth_step_def algebra_simps)
    moreover have "env2 = registered S addr_of gen auths (Suc m) env"
      using e(2) True by (simp add: account_signer_key registered_def) (simp add: account_signer_def)
    moreover have "entries_for S xdr env ?ri ex (authorized_accounts S addr_of gen auths (Suc m))
        nonce (es1 @ [e])"
      using entries_for_snoc [OF IH(3)] e(3) True entry_for_network [OF net]
      by (simp add: authorized_accounts_def)
    ultimately show ?thesis using IH(1,2) by (intro exI [of _ "es1 @ [e]"]) (simp add: fold_may_append)
  qed
qed

lemma mock_auths_for_command_ok:
  assumes gen: "generator_ok gen" and auths: "length auths = NUMBER_OF_ADDRESSES"
    and fn: "length fn_name \<le> 32" and vs: "length fn_args < 2 ^ 32"
    and n: "0 \<le> sint nonce" "sint nonce + int NUMBER_OF_ADDRESSES < 2 ^ 63"
    and ttl: "0 < unat (max_entry_ttl S env)"
      "unat (ledger_sequence S env) + unat (max_entry_ttl S env) < 2 ^ 32"
    and token: "sc_address_try_from S token = Some token_sc"
  shows "\<exists>es.
    mock_auths_for_command S env fn_name auths
      (map (account_signer S addr_of gen) [0..<NUMBER_OF_ADDRESSES])
      (address_to_string S token) nonce fn_args =
      Inr (set_auths S (registered S addr_of gen auths NUMBER_OF_ADDRESSES env) es,
        nonce + of_nat (length es)) \<and>
    length es \<le> NUMBER_OF_ADDRESSES \<and>
    entries_for S xdr env (command_invocation token_sc fn_name fn_args)
      (ledger_sequence S env + max_entry_ttl S env - 1)
      (authorized_accounts S addr_of gen auths NUMBER_OF_ADDRESSES) nonce es"
proof -
  let ?sum = "ledger_sequence S env + max_entry_ttl S env"
  have add: "checked_uadd (ledger_sequence S env) (max_entry_ttl S env) = Some ?sum"
    using ttl by (simp add: checked_uadd_def)
  then have "0 < unat ?sum" using ttl by (simp only: checked_uadd_Some)
  then have sub: "checked_usub ?sum 1 = Some (?sum - 1)"
    by (simp add: checked_usub_def)
  obtain es where
    "fold_may (mock_auth_step S token_sc fn_name fn_args (?sum - 1) auths
        (map (account_signer S addr_of gen) [0..<NUMBER_OF_ADDRESSES]))
        [0..<NUMBER_OF_ADDRESSES] (env, nonce, []) =
      Inr (registered S addr_of gen auths NUMBER_OF_ADDRESSES env, nonce + of_nat (length es), es)"
    "length es \<le> NUMBER_OF_ADDRESSES"
    "entries_for S xdr env (command_invocation token_sc fn_name fn_args) (?sum - 1)
      (authorized_accounts S addr_of gen auths NUMBER_OF_ADDRESSES) nonce es"
    using mock_auth_loop [OF gen auths fn vs n order_refl, of token_sc "?sum - 1"] by blast
  then show ?thesis
    by (auto simp: mock_auths_for_command_def add sub address_parse token Let_def)
qed

end

end
