(* ===== verification/Config.thy ===== *)
theory Config
  imports Util
begin

text \<open>
  src/config.rs: which token is fuzzed. The trait objects \<open>ContractTokenOps\<close> and
  \<open>TokenAdminClient\<close> are dictionaries; a \<open>Config\<close> is either the native token, whose functions are
  the SDK's, or a contract token with its own operations.
\<close>

record ('env, 'addr) contract_token_ops =
  ops_register_contract_init :: "'env \<Rightarrow> 'addr \<Rightarrow> panic + 'addr \<times> 'env"
  ops_reregister_contract :: "'env \<Rightarrow> 'addr \<Rightarrow> panic + 'env"
  ops_new_admin_client :: "'env \<Rightarrow> 'addr \<Rightarrow> ('env, 'addr) token_admin_client"

record ('env, 'addr) contract_token_config =
  ops :: "('env, 'addr) contract_token_ops"

datatype ('env, 'addr) token_kind =
    NativeToken
  | ContractToken "('env, 'addr) contract_token_config"

record ('env, 'addr) config =
  kind :: "('env, 'addr) token_kind"

definition native :: "('env, 'addr) config" where
  "native = \<lparr>kind = NativeToken\<rparr>"

definition contract :: "('env, 'addr) contract_token_ops \<Rightarrow> ('env, 'addr) config" where
  "contract ops' = \<lparr>kind = ContractToken \<lparr>ops = ops'\<rparr>\<rparr>"

definition cfg_register_contract_init ::
  "('env, 'addr) contract_token_config \<Rightarrow> 'env \<Rightarrow> 'addr \<Rightarrow> panic + 'addr \<times> 'env" where
  "cfg_register_contract_init cfg env admin = ops_register_contract_init (ops cfg) env admin"

definition cfg_reregister_contract ::
  "('env, 'addr) contract_token_config \<Rightarrow> 'env \<Rightarrow> 'addr \<Rightarrow> panic + 'env" where
  "cfg_reregister_contract cfg env token_contract_id =
     ops_reregister_contract (ops cfg) env token_contract_id"

definition cfg_new_admin_client ::
  "('env, 'addr) contract_token_config \<Rightarrow> 'env \<Rightarrow> 'addr \<Rightarrow> ('env, 'addr) token_admin_client" where
  "cfg_new_admin_client cfg env token_contract_id =
     ops_new_admin_client (ops cfg) env token_contract_id"

definition register_contract_init ::
  "('env, 'addr, 'key) sdk \<Rightarrow> ('env, 'addr) config \<Rightarrow> 'env \<Rightarrow> 'addr \<Rightarrow> panic + 'addr \<times> 'env" where
  "register_contract_init S config env admin =
     (case kind config of
        NativeToken \<Rightarrow> Inr (register_stellar_asset_contract S env admin)
      | ContractToken cfg \<Rightarrow> cfg_register_contract_init cfg env admin)"

definition reregister_contract ::
  "('env, 'addr) config \<Rightarrow> 'env \<Rightarrow> 'addr \<Rightarrow> panic + 'env" where
  "reregister_contract config env token_contract_id =
     (case kind config of
        NativeToken \<Rightarrow> Inr env
      | ContractToken cfg \<Rightarrow> cfg_reregister_contract cfg env token_contract_id)"

text \<open>\<open>NativeTokenAdminClient\<close>: the SDK's asset client behind the trait.\<close>

definition native_token_admin_client ::
  "('env, 'addr) token_admin_client \<Rightarrow> ('env, 'addr) token_admin_client" where
  "native_token_admin_client admin_client =
     \<lparr>try_mint = (\<lambda>env to amount. try_mint admin_client env to amount)\<rparr>"

definition new_admin_client ::
  "('env, 'addr, 'key) sdk \<Rightarrow> ('env, 'addr) config \<Rightarrow> 'env \<Rightarrow> 'addr
    \<Rightarrow> ('env, 'addr) token_admin_client" where
  "new_admin_client S config env token_contract_id =
     (case kind config of
        NativeToken \<Rightarrow>
          native_token_admin_client (stellar_asset_client_new S env token_contract_id)
      | ContractToken cfg \<Rightarrow> cfg_new_admin_client cfg env token_contract_id)"

lemmas config_simps [simp] =
  cfg_register_contract_init_def cfg_reregister_contract_def cfg_new_admin_client_def

lemma native_ops [simp]:
  "register_contract_init S native env admin = Inr (register_stellar_asset_contract S env admin)"
  "reregister_contract native env a = Inr env"
  "try_mint (new_admin_client S native env a) = try_mint (stellar_asset_client_new S env a)"
  by (simp_all add: native_def register_contract_init_def reregister_contract_def
      new_admin_client_def native_token_admin_client_def)

lemma contract_ops [simp]:
  "register_contract_init S (contract t) = ops_register_contract_init t"
  "reregister_contract (contract t) = ops_reregister_contract t"
  "new_admin_client S (contract t) = ops_new_admin_client t"
  by (simp_all add: contract_def register_contract_init_def reregister_contract_def
      new_admin_client_def fun_eq_iff)

end
