(* ===== verification/Input.thy ===== *)
theory Input
  imports Addrgen
begin

text \<open>
  src/input.rs: the commands a fuzzing run executes. The fields of the input structs carry a
  prefix (\<open>mint_\<close>, \<open>approve_\<close>, \<open>tf_\<close>, \<open>tr_\<close>, \<open>bf_\<close>, \<open>burn_\<close>, \<open>atf_\<close>, \<open>abf_\<close>), since the structs share field
  names. \<open>input_ok\<close> says that an input is well formed: indices address accounts, arrays have their
  length, ranges hold. The theory \<open>Arbitrary\<close> shows that the generated ones are.
\<close>

definition DAY_IN_LEDGERS :: u32 where
  "DAY_IN_LEDGERS = 17280"

record mint_input =
  mint_amount :: i128
  mint_to_account_index :: nat
  mint_auths :: "bool list"

record approve_input =
  approve_amount :: i128
  approve_expiration_ledger :: u32
  approve_from_account_index :: nat
  approve_spender_account_index :: nat
  approve_auths :: "bool list"

record transfer_from_input =
  tf_amount :: i128
  tf_spender_account_index :: nat
  tf_from_account_index :: nat
  tf_to_account_index :: nat
  tf_auths :: "bool list"

record transfer_input =
  tr_amount :: i128
  tr_from_account_index :: nat
  tr_to_account_index :: nat
  tr_auths :: "bool list"

record burn_from_input =
  bf_amount :: i128
  bf_spender_account_index :: nat
  bf_from_account_index :: nat
  bf_auths :: "bool list"

record burn_input =
  burn_amount :: i128
  burn_from_account_index :: nat
  burn_auths :: "bool list"

record approve_and_transfer_from_input =
  atf_amount :: i128
  atf_expiration_ledger :: u32
  atf_from_account_index :: nat
  atf_spender_account_index :: nat
  atf_to_account_index :: nat
  atf_auths :: "bool list"

record approve_and_burn_from_input =
  abf_amount :: i128
  abf_expiration_ledger :: u32
  abf_from_account_index :: nat
  abf_spender_account_index :: nat
  abf_to_account_index :: nat
  abf_auths :: "bool list"

datatype command =
    Mint mint_input
  | Approve approve_input
  | TransferFrom transfer_from_input
  | Transfer transfer_input
  | BurnFrom burn_from_input
  | Burn burn_input
  | ApproveAndTransferFrom approve_and_transfer_from_input
  | ApproveAndBurnFrom approve_and_burn_from_input

record transaction =
  commands :: "command list"
  advance_ledgers :: u32

record input =
  address_generator :: address_generator
  transactions :: "transaction list"

section \<open>Conversions of the compound inputs\<close>

definition atf_to_approve_input :: "approve_and_transfer_from_input \<Rightarrow> approve_input" where
  "atf_to_approve_input i =
     \<lparr>approve_amount = atf_amount i,
      approve_expiration_ledger = atf_expiration_ledger i,
      approve_from_account_index = atf_from_account_index i,
      approve_spender_account_index = atf_spender_account_index i,
      approve_auths = atf_auths i\<rparr>"

definition to_transfer_from_input :: "approve_and_transfer_from_input \<Rightarrow> transfer_from_input" where
  "to_transfer_from_input i =
     \<lparr>tf_amount = atf_amount i,
      tf_spender_account_index = atf_spender_account_index i,
      tf_from_account_index = atf_from_account_index i,
      tf_to_account_index = atf_to_account_index i,
      tf_auths = atf_auths i\<rparr>"

definition abf_to_approve_input :: "approve_and_burn_from_input \<Rightarrow> approve_input" where
  "abf_to_approve_input i =
     \<lparr>approve_amount = abf_amount i,
      approve_expiration_ledger = abf_expiration_ledger i,
      approve_from_account_index = abf_from_account_index i,
      approve_spender_account_index = abf_spender_account_index i,
      approve_auths = abf_auths i\<rparr>"

definition to_burn_from_input :: "approve_and_burn_from_input \<Rightarrow> burn_from_input" where
  "to_burn_from_input i =
     \<lparr>bf_amount = abf_amount i,
      bf_spender_account_index = abf_spender_account_index i,
      bf_from_account_index = abf_from_account_index i,
      bf_auths = abf_auths i\<rparr>"

section \<open>Well-formed inputs\<close>

definition account_index_ok :: "nat \<Rightarrow> bool" where
  "account_index_ok i \<longleftrightarrow> i < NUMBER_OF_ADDRESSES"

definition auths_ok :: "bool list \<Rightarrow> bool" where
  "auths_ok bs \<longleftrightarrow> length bs = NUMBER_OF_ADDRESSES"

definition expiration_ok :: "u32 \<Rightarrow> bool" where
  "expiration_ok l \<longleftrightarrow> l \<le> DAY_IN_LEDGERS * 30"

fun command_ok :: "command \<Rightarrow> bool" where
  "command_ok (Mint i) =
     (account_index_ok (mint_to_account_index i) \<and> auths_ok (mint_auths i))"
| "command_ok (Approve i) =
     (expiration_ok (approve_expiration_ledger i) \<and>
      account_index_ok (approve_from_account_index i) \<and>
      account_index_ok (approve_spender_account_index i) \<and> auths_ok (approve_auths i))"
| "command_ok (TransferFrom i) =
     (account_index_ok (tf_spender_account_index i) \<and> account_index_ok (tf_from_account_index i) \<and>
      account_index_ok (tf_to_account_index i) \<and> auths_ok (tf_auths i))"
| "command_ok (Transfer i) =
     (account_index_ok (tr_from_account_index i) \<and> account_index_ok (tr_to_account_index i) \<and>
      auths_ok (tr_auths i))"
| "command_ok (BurnFrom i) =
     (account_index_ok (bf_spender_account_index i) \<and> account_index_ok (bf_from_account_index i) \<and>
      auths_ok (bf_auths i))"
| "command_ok (Burn i) =
     (account_index_ok (burn_from_account_index i) \<and> auths_ok (burn_auths i))"
| "command_ok (ApproveAndTransferFrom i) =
     (expiration_ok (atf_expiration_ledger i) \<and>
      account_index_ok (atf_from_account_index i) \<and> account_index_ok (atf_spender_account_index i) \<and>
      account_index_ok (atf_to_account_index i) \<and> auths_ok (atf_auths i))"
| "command_ok (ApproveAndBurnFrom i) =
     (expiration_ok (abf_expiration_ledger i) \<and>
      account_index_ok (abf_from_account_index i) \<and> account_index_ok (abf_spender_account_index i) \<and>
      account_index_ok (abf_to_account_index i) \<and> auths_ok (abf_auths i))"

definition transaction_ok :: "transaction \<Rightarrow> bool" where
  "transaction_ok tx \<longleftrightarrow>
     list_all command_ok (commands tx) \<and>
     1 \<le> advance_ledgers tx \<and> advance_ledgers tx \<le> DAY_IN_LEDGERS"

definition input_ok :: "input \<Rightarrow> bool" where
  "input_ok inp \<longleftrightarrow>
     generator_ok (address_generator inp) \<and> list_all transaction_ok (transactions inp)"

lemma compound_parts_ok [simp]:
  "command_ok (ApproveAndTransferFrom i) \<Longrightarrow> command_ok (Approve (atf_to_approve_input i))"
  "command_ok (ApproveAndTransferFrom i) \<Longrightarrow> command_ok (TransferFrom (to_transfer_from_input i))"
  "command_ok (ApproveAndBurnFrom j) \<Longrightarrow> command_ok (Approve (abf_to_approve_input j))"
  "command_ok (ApproveAndBurnFrom j) \<Longrightarrow> command_ok (BurnFrom (to_burn_from_input j))"
  by (simp_all add: atf_to_approve_input_def to_transfer_from_input_def abf_to_approve_input_def
      to_burn_from_input_def)

end
