(* ===== verification/Time.thy ===== *)
theory Time
  imports Config Input
begin

text \<open>
  The ledger clock of src/fuzz.rs: \<open>advance_time\<close> moves the ledger forward in steps of at most
  \<open>MAX_LEDGERS_TO_ADVANCE\<close>, each step by \<open>advance_env\<close>, which rebuilds the \<open>Env\<close> from a snapshot
  without its expired entries (\<open>purge_expired_entries\<close>), and pings the token between steps.

  The loop of \<open>advance_time\<close> is \<open>advance_loop\<close> with a fuel argument: whether it ends depends on
  the SDK (the rebuilt \<open>Env\<close> has to report the snapshot's sequence number). Each iteration
  advances at least one ledger, so \<open>advance_time\<close> gives it as much fuel as there are ledgers to
  advance; the lemmas show that this is enough.
\<close>

definition MAX_LEDGERS_TO_ADVANCE :: u32 where
  "MAX_LEDGERS_TO_ADVANCE = 4095"

definition purge_expired_entries ::
  "('lk, 'le, 'r) snapshot_scheme \<Rightarrow> ('lk, 'le, 'r) snapshot_scheme" where
  "purge_expired_entries s =
     s\<lparr>ledger_entries := filter (\<lambda>(key, entry, expiration_ledger).
       case expiration_ledger of
         Some expiration_ledger \<Rightarrow>
           if expiration_ledger < sequence_number s then False else True
       | None \<Rightarrow> True) (ledger_entries s)\<rparr>"

text \<open>
  The seconds of \<open>ledgers\<close> ledgers: \<open>secs_per_day / ledgers_per_day\<close> is \<open>86400 / 17280 = 5\<close> in
  \<open>u64\<close>.
\<close>

definition secs_per_ledger :: u64 where
  "secs_per_ledger = (60 * 60 * 24) div (ucast DAY_IN_LEDGERS)"

definition advance_snapshot ::
  "('lk, 'le, 'r) snapshot_scheme \<Rightarrow> u32 \<Rightarrow> u64 \<Rightarrow> panic + ('lk, 'le, 'r) snapshot_scheme" where
  "advance_snapshot snap ledgers ledger_time =
     bnd (expect ''end of time'' (checked_uadd (sequence_number snap) ledgers)) (\<lambda>seq.
     let snap = snap\<lparr>sequence_number := seq\<rparr> in
     bnd (expect ''end of time'' (checked_uadd (timestamp snap) ledger_time)) (\<lambda>t.
     let snap = snap\<lparr>timestamp := t\<rparr> in
     Inr (purge_expired_entries snap)))"

definition advance_env ::
  "('env, 'lk, 'le, 'r) snapshots \<Rightarrow> 'env \<Rightarrow> u32 \<Rightarrow> panic + 'env" where
  "advance_env N prev_env ledgers =
     bnd (expect ''end of time'' (checked_umul secs_per_ledger (ucast ledgers))) (\<lambda>ledger_time.
     bnd (advance_snapshot (to_snapshot N prev_env) ledgers ledger_time) (\<lambda>snap.
     Inr (from_snapshot N snap)))"

text \<open>Keeping the contract alive between two steps.\<close>

definition ping ::
  "('env, 'addr, 'key) sdk \<Rightarrow> 'env \<Rightarrow> u8 list \<Rightarrow> panic + 'env" where
  "ping S env token_contract_id_bytes =
     bnd (address_from_string_bytes S env token_contract_id_bytes) (\<lambda>token_contract_id.
     let token_client = client_new S env token_contract_id;
         (a, env) = address_generate S env;
         (b, env) = address_generate S env;
         (r, env) = try_allowance token_client env a b
     in bnd (assert_that (is_ok r)) (\<lambda>_. Inr env))"

fun advance_loop ::
  "nat \<Rightarrow> ('env, 'addr, 'key) sdk \<Rightarrow> ('env, 'lk, 'le, 'r) snapshots \<Rightarrow> ('env, 'addr) config
    \<Rightarrow> u8 list \<Rightarrow> u32 \<Rightarrow> 'env \<Rightarrow> panic + 'env" where
  "advance_loop 0 S N config token_contract_id_bytes to_ledger env = Inl Diverged"
| "advance_loop (Suc fuel) S N config token_contract_id_bytes to_ledger env =
     (let curr_ledger = ledger_sequence S env in
      bnd (assert_that (curr_ledger < to_ledger)) (\<lambda>_.
      bnd (expect ''end of time'' (checked_uadd curr_ledger MAX_LEDGERS_TO_ADVANCE))
        (\<lambda>next_ledger.
      let next_ledger = min next_ledger to_ledger in
      bnd (arith (checked_usub next_ledger curr_ledger)) (\<lambda>ledgers.
      bnd (advance_env N env ledgers) (\<lambda>env.
      bnd (address_from_string_bytes S env token_contract_id_bytes) (\<lambda>token_contract_id.
      bnd (reregister_contract config env token_contract_id) (\<lambda>env.
      if next_ledger = to_ledger then Inr env
      else
        bnd (ping S env token_contract_id_bytes) (\<lambda>env.
        advance_loop fuel S N config token_contract_id_bytes to_ledger env))))))))"

definition advance_time ::
  "('env, 'addr, 'key) sdk \<Rightarrow> ('env, 'lk, 'le, 'r) snapshots \<Rightarrow> ('env, 'addr) config
    \<Rightarrow> 'env \<Rightarrow> u8 list \<Rightarrow> u32 \<Rightarrow> panic + 'env" where
  "advance_time S N config env token_contract_id_bytes ledgers =
     bnd (expect ''end of time'' (checked_uadd (ledger_sequence S env) ledgers)) (\<lambda>to_ledger.
     advance_loop (max 1 (unat ledgers)) S N config token_contract_id_bytes to_ledger env)"

section \<open>Purging\<close>

definition expired :: "u32 \<Rightarrow> 'lk \<times> 'le \<times> u32 option \<Rightarrow> bool" where
  "expired seq entry \<longleftrightarrow> (case snd (snd entry) of Some l \<Rightarrow> l < seq | None \<Rightarrow> False)"

lemma purge_eq:
  "purge_expired_entries s =
     s\<lparr>ledger_entries := filter (\<lambda>x. \<not> expired (sequence_number s) x) (ledger_entries s)\<rparr>"
  by (simp add: purge_expired_entries_def expired_def case_prod_unfold cong: option.case_cong
      split: option.splits)

lemma purge_simps [simp]:
  "sequence_number (purge_expired_entries s) = sequence_number s"
  "timestamp (purge_expired_entries s) = timestamp s"
  "snapshot.more (purge_expired_entries s) = snapshot.more s"
  "ledger_entries (purge_expired_entries s) =
     filter (\<lambda>x. \<not> expired (sequence_number s) x) (ledger_entries s)"
  by (simp_all add: purge_eq)

section \<open>One step\<close>

lemma secs_per_ledger_5 [simp]: "secs_per_ledger = 5"
  by (simp add: secs_per_ledger_def DAY_IN_LEDGERS_def unsigned_ucast_eq)

lemma unat_ucast_u32 [simp]: "unat (ucast (w :: u32) :: u64) = unat w"
proof -
  have "unat w < 2 ^ 64"
    using unsigned_less [of w, where ?'a = nat] by simp
  then show ?thesis by (simp add: unsigned_ucast_eq take_bit_nat_eq_self)
qed

lemma ledger_time_ok:
  obtains t where "checked_umul secs_per_ledger (ucast (l :: u32)) = Some t" "unat t = 5 * unat l"
proof -
  have "unat l < 2 ^ 32" using unsigned_less [of l, where ?'a = nat] by simp
  then have "checked_umul secs_per_ledger (ucast l :: u64) = Some (5 * ucast l)"
    by (simp add: checked_umul_def)
  then show ?thesis using that by (auto simp: checked_umul_Some)
qed

lemma advance_snapshot_Inr:
  "advance_snapshot s l t = Inr s' \<longleftrightarrow>
     (\<exists>seq ti. unat seq = unat (sequence_number s) + unat l \<and> unat ti = unat (timestamp s) + unat t \<and>
       s' = purge_expired_entries (s\<lparr>sequence_number := seq, timestamp := ti\<rparr>))"
  by (auto simp: advance_snapshot_def bnd_Inr_iff checked_uadd_Some Let_def)

text \<open>
  The clock of an \<open>Env\<close>, and what the program relies on of snapshots: they carry the clock, both
  ways.
\<close>

definition clock ::
  "('env, 'addr, 'key) sdk \<Rightarrow> ('env, 'lk, 'le, 'r) snapshots \<Rightarrow> 'env \<Rightarrow> u32 \<times> u64" where
  "clock S N e = (ledger_sequence S e, timestamp (to_snapshot N e))"

locale ledger_clock =
  fixes S :: "('env, 'addr, 'key) sdk" and N :: "('env, 'lk, 'le, 'r) snapshots"
  assumes seq_to_snapshot: "sequence_number (to_snapshot N e) = ledger_sequence S e"
    and seq_from_snapshot: "ledger_sequence S (from_snapshot N s) = sequence_number s"
    and time_from_snapshot: "timestamp (to_snapshot N (from_snapshot N s)) = timestamp s"
begin

lemma advance_env_Inr:
  assumes "advance_env N e l = Inr e'"
  obtains seq ti where "clock S N e' = (seq, ti)"
    "unat seq = unat (ledger_sequence S e) + unat l"
    "unat ti = unat (timestamp (to_snapshot N e)) + 5 * unat l"
    "e' = from_snapshot N (purge_expired_entries
       ((to_snapshot N e)\<lparr>sequence_number := seq, timestamp := ti\<rparr>))"
proof -
  obtain t where t: "checked_umul secs_per_ledger (ucast l) = Some t" "unat t = 5 * unat l"
    by (rule ledger_time_ok)
  with assms obtain seq ti where
    "unat seq = unat (ledger_sequence S e) + unat l"
    "unat ti = unat (timestamp (to_snapshot N e)) + 5 * unat l"
    "e' = from_snapshot N (purge_expired_entries
       ((to_snapshot N e)\<lparr>sequence_number := seq, timestamp := ti\<rparr>))"
    by (auto simp: advance_env_def bnd_Inr_iff advance_snapshot_Inr seq_to_snapshot)
  then show ?thesis
    by (intro that) (simp_all add: clock_def seq_from_snapshot time_from_snapshot)
qed

lemma advance_env_ok:
  assumes "unat (ledger_sequence S e) + unat l < 2 ^ 32"
    and "unat (timestamp (to_snapshot N e)) + 5 * unat l < 2 ^ 64"
  shows "\<exists>e'. advance_env N e l = Inr e'"
proof -
  obtain t where t: "checked_umul secs_per_ledger (ucast l) = Some t" "unat t = 5 * unat l"
    by (rule ledger_time_ok)
  have "checked_uadd (ledger_sequence S e) l = Some (ledger_sequence S e + l)"
    "checked_uadd (timestamp (to_snapshot N e)) t = Some (timestamp (to_snapshot N e) + t)"
    using assms t(2) by (simp_all add: checked_uadd_def)
  with t(1) show ?thesis
    by (simp add: advance_env_def advance_snapshot_def seq_to_snapshot Let_def)
qed

end

section \<open>The loop\<close>

text \<open>
  What the loop relies on of the token: \<open>lasts n e\<close> says that in \<open>e\<close> the token's entries outlive
  \<open>n\<close> more ledgers if the token is pinged at least every \<open>MAX_LEDGERS_TO_ADVANCE\<close> ledgers, \<open>up n e\<close>
  the same of a token that is due a ping, and \<open>ages\<close> relates an \<open>Env\<close> to the later ones.
\<close>

locale token_clock = ledger_clock S N
  for S :: "('env, 'addr, 'key) sdk" and N :: "('env, 'lk, 'le, 'r) snapshots" +
  fixes config :: "('env, 'addr) config" and token_bytes :: "u8 list"
    and up :: "nat \<Rightarrow> 'env \<Rightarrow> bool" and lasts :: "nat \<Rightarrow> 'env \<Rightarrow> bool"
    and ages :: "'env \<Rightarrow> 'env \<Rightarrow> bool"
  assumes step_ages: "lasts n e \<Longrightarrow> 0 < unat l \<Longrightarrow> unat l \<le> n \<Longrightarrow> l \<le> MAX_LEDGERS_TO_ADVANCE \<Longrightarrow>
      advance_env N e l = Inr e1 \<Longrightarrow>
      \<exists>a e2. address_from_string_bytes S e1 token_bytes = Inr a \<and>
        reregister_contract config e1 a = Inr e2 \<and> clock S N e2 = clock S N e1 \<and>
        up (n - unat l) e2 \<and> ages e e2"
    and ping_keeps: "up n e \<Longrightarrow>
      \<exists>e'. ping S e token_bytes = Inr e' \<and> clock S N e' = clock S N e \<and> lasts n e' \<and> ages e e'"
    and ages_trans: "ages e e1 \<Longrightarrow> ages e1 e2 \<Longrightarrow> ages e e2"
begin

lemma advance_loop_step:
  assumes "lasts n e" and d: "unat to_ledger = unat (ledger_sequence S e) + d" "0 < d" "d \<le> n"
    and "unat to_ledger + 4094 < 2 ^ 32"
    and "unat (timestamp (to_snapshot N e)) + 5 * d < 2 ^ 64"
  obtains l e2 where "l = min d 4095" "up (n - l) e2" "ages e e2"
    "unat (ledger_sequence S e2) = unat (ledger_sequence S e) + l"
    "unat (timestamp (to_snapshot N e2)) = unat (timestamp (to_snapshot N e)) + 5 * l"
    "advance_loop (Suc fuel) S N config token_bytes to_ledger e =
       (if l = d then Inr e2
        else bnd (ping S e2 token_bytes) (advance_loop fuel S N config token_bytes to_ledger))"
proof -
  let ?curr = "ledger_sequence S e"
  let ?next = "min (?curr + 4095) to_ledger"
  have curr: "?curr < to_ledger" using d by (simp add: word_less_nat_alt)
  have add: "checked_uadd ?curr MAX_LEDGERS_TO_ADVANCE = Some (?curr + 4095)"
    using assms by (simp add: checked_uadd_def MAX_LEDGERS_TO_ADVANCE_def)
  then have sum: "unat (?curr + 4095) = unat ?curr + 4095"
    by (simp add: checked_uadd_Some MAX_LEDGERS_TO_ADVANCE_def)
  then have next_unat: "unat ?next = unat ?curr + min d 4095"
    using d by (auto simp: min_def word_le_nat_alt)
  define l where "l = ?next - ?curr"
  have sub: "checked_usub ?next ?curr = Some l"
    using next_unat by (simp add: checked_usub_def l_def)
  then have l: "unat l = min d 4095"
    using next_unat by (simp only: checked_usub_Some)
  have ld: "unat l \<le> d" "0 < unat l" using l d(2) by simp_all
  then obtain e1 where e1: "advance_env N e l = Inr e1"
    using advance_env_ok [of e l] assms(5,6) d(1) by auto
  have "l \<le> MAX_LEDGERS_TO_ADVANCE"
    using l by (simp add: word_le_nat_alt MAX_LEDGERS_TO_ADVANCE_def)
  then obtain a e2 where e2: "address_from_string_bytes S e1 token_bytes = Inr a"
      "reregister_contract config e1 a = Inr e2" "clock S N e2 = clock S N e1"
      "up (n - unat l) e2" "ages e e2"
    using step_ages [OF assms(1) ld(2) _ _ e1] ld(1) d(3) by fastforce
  have eq: "?next = to_ledger \<longleftrightarrow> unat l = d"
    using next_unat l d by (auto simp: word_unat_eq_iff)
  obtain seq ti where "clock S N e1 = (seq, ti)" "unat seq = unat ?curr + unat l"
    "unat ti = unat (timestamp (to_snapshot N e)) + 5 * unat l"
    by (rule advance_env_Inr [OF e1])
  then have "unat (ledger_sequence S e2) = unat ?curr + unat l"
    "unat (timestamp (to_snapshot N e2)) = unat (timestamp (to_snapshot N e)) + 5 * unat l"
    using e2(3) by (simp_all add: clock_def)
  moreover have "advance_loop (Suc fuel) S N config token_bytes to_ledger e =
       (if unat l = d then Inr e2
        else bnd (ping S e2 token_bytes) (advance_loop fuel S N config token_bytes to_ledger))"
    using curr add sub e1 e2(1,2) eq by (simp add: Let_def)
  ultimately show ?thesis using that [of "unat l" e2] e2(4,5) l by simp
qed

lemma advance_loop_ok:
  assumes "lasts n e" and "unat to_ledger = unat (ledger_sequence S e) + d" "0 < d" "d \<le> n"
    and "unat to_ledger + 4094 < 2 ^ 32"
    and "unat (timestamp (to_snapshot N e)) + 5 * d < 2 ^ 64"
    and "d \<le> fuel * 4095"
  shows "\<exists>e'. advance_loop fuel S N config token_bytes to_ledger e = Inr e' \<and>
    ledger_sequence S e' = to_ledger \<and>
    unat (timestamp (to_snapshot N e')) = unat (timestamp (to_snapshot N e)) + 5 * d \<and>
    up (n - d) e' \<and> ages e e'"
  using assms
proof (induction fuel arbitrary: n e d)
  case 0
  then show ?case by simp
next
  case (Suc fuel)
  obtain l e2 where l: "l = min d 4095" "up (n - l) e2" "ages e e2"
    "unat (ledger_sequence S e2) = unat (ledger_sequence S e) + l"
    "unat (timestamp (to_snapshot N e2)) = unat (timestamp (to_snapshot N e)) + 5 * l"
    "advance_loop (Suc fuel) S N config token_bytes to_ledger e =
       (if l = d then Inr e2
        else bnd (ping S e2 token_bytes) (advance_loop fuel S N config token_bytes to_ledger))"
    using advance_loop_step [OF Suc.prems(1-6)] by blast
  show ?case
  proof (cases "l = d")
    case True
    with l Suc.prems(2) show ?thesis by (auto simp: word_unat_eq_iff)
  next
    case False
    with l(1) have d: "l = 4095" "4095 < d" by auto
    obtain e3 where e3: "ping S e2 token_bytes = Inr e3" "clock S N e3 = clock S N e2"
        "lasts (n - l) e3" "ages e2 e3"
      using ping_keeps [OF l(2)] by blast
    have c: "ledger_sequence S e3 = ledger_sequence S e2"
      "timestamp (to_snapshot N e3) = timestamp (to_snapshot N e2)"
      using e3(2) by (simp_all add: clock_def)
    have "\<exists>e'. advance_loop fuel S N config token_bytes to_ledger e3 = Inr e' \<and>
      ledger_sequence S e' = to_ledger \<and>
      unat (timestamp (to_snapshot N e')) = unat (timestamp (to_snapshot N e3)) + 5 * (d - l) \<and>
      up (n - l - (d - l)) e' \<and> ages e3 e'"
      using Suc.prems l(4,5) d c by (intro Suc.IH [OF e3(3)]) auto
    then obtain e' where e': "advance_loop fuel S N config token_bytes to_ledger e3 = Inr e'"
      "ledger_sequence S e' = to_ledger"
      "unat (timestamp (to_snapshot N e')) = unat (timestamp (to_snapshot N e3)) + 5 * (d - l)"
      "up (n - l - (d - l)) e'" "ages e3 e'"
      by blast
    have "ages e e'" using l(3) e3(4) e'(5) by (blast intro: ages_trans)
    moreover have "advance_loop (Suc fuel) S N config token_bytes to_ledger e = Inr e'"
      unfolding l(6) using False e3(1) e'(1) by simp
    ultimately show ?thesis using e' l(5) c(2) d by (intro exI [of _ e']) simp
  qed
qed

text \<open>The loop of \<open>advance_time\<close> ends at the requested ledger.\<close>

lemma advance_time_ok:
  assumes "lasts n e" and "0 < unat ledgers" "unat ledgers \<le> n"
    and "unat (ledger_sequence S e) + unat ledgers + 4094 < 2 ^ 32"
    and "unat (timestamp (to_snapshot N e)) + 5 * unat ledgers < 2 ^ 64"
  shows "\<exists>e'. advance_time S N config e token_bytes ledgers = Inr e' \<and>
    unat (ledger_sequence S e') = unat (ledger_sequence S e) + unat ledgers \<and>
    unat (timestamp (to_snapshot N e')) = unat (timestamp (to_snapshot N e)) + 5 * unat ledgers \<and>
    up (n - unat ledgers) e' \<and> ages e e'"
proof -
  have add: "checked_uadd (ledger_sequence S e) ledgers = Some (ledger_sequence S e + ledgers)"
    using assms by (simp add: checked_uadd_def)
  then have to: "unat (ledger_sequence S e + ledgers) = unat (ledger_sequence S e) + unat ledgers"
    by (simp only: checked_uadd_Some)
  have "unat ledgers \<le> max 1 (unat ledgers) * 4095" by (simp add: max_def)
  then show ?thesis
    using advance_loop_ok [OF assms(1) to assms(2,3) _ assms(5), of "max 1 (unat ledgers)"] to
      add assms(4) by (auto simp: advance_time_def)
qed

end

end
