(* ===== verification/Fuzz.thy ===== *)
theory Fuzz
  imports Contract_State Auths Time
begin

text \<open>
  The fuzzer of src/fuzz.rs: \<open>exec_command\<close> runs one command against the token and mirrors it in
  the book, \<open>assert_state\<close> compares the book with the token, and \<open>fuzz_token\<close> runs an input. A
  panic of the fuzzer (\<open>Inl\<close>) is a report of a defect in the token. The arms of \<open>exec_command\<close>
  are definitions of their own (\<open>exec_mint\<close>, \<open>exec_approve\<close>, \<open>\<dots>\<close>); the checks each arm repeats after
  its call are \<open>check_call\<close>. The lemmas of this theory hold for every token: what a run that
  does not panic says about it.
\<close>

datatype corpus = Keep | Reject

record ('env, 'addr, 'key) current_state =
  accounts :: "('addr, 'key) test_signer list"
  admin_client :: "('env, 'addr) token_admin_client"
  token_client :: "('env, 'addr) token_client"

type_synonym 'env exec_state = "'env \<times> contract_state \<times> i64"

definition current_state_new ::
  "('env, 'addr, 'key) sdk \<Rightarrow> ('env, 'addr) config \<Rightarrow> 'env \<Rightarrow> u8 list \<Rightarrow> address_generator
    \<Rightarrow> panic + ('env, 'addr, 'key) current_state" where
  "current_state_new S config env token_contract_id_bytes gen =
     bnd (address_from_string_bytes S env token_contract_id_bytes) (\<lambda>token_contract_id.
     bnd (generate_signers S gen env) (\<lambda>accs.
     Inr \<lparr>accounts = accs,
          admin_client = new_admin_client S config env token_contract_id,
          token_client = client_new S env token_contract_id\<rparr>))"

definition verify_token_contract_result :: "token_contract_result \<Rightarrow> panic + unit" where
  "verify_token_contract_result r =
     (case r of
        Err (Ok e) \<Rightarrow>
          if error_type e = WasmVm \<and> error_code e = InvalidAction
          then Inl (Panic ''contract failed with InvalidAction - unexpected panic?'')
          else Inr ()
      | _ \<Rightarrow> Inr ())"

text \<open>
  The checks after a call: no unexpected panic, an error for a negative amount, an error when
  the account that has to authorize the call did not.
\<close>

definition check_call ::
  "token_contract_result \<Rightarrow> i128 \<Rightarrow> bool list \<Rightarrow> nat \<Rightarrow> panic + unit" where
  "check_call r amount auths i =
     bnd (verify_token_contract_result r) (\<lambda>_.
     bnd (assert_that (sint amount < 0 \<longrightarrow> is_err r)) (\<lambda>_.
     bnd (index auths i) (\<lambda>auth.
     assert_that (\<not> auth \<longrightarrow> is_err r))))"

text \<open>\<open>if let Ok(r) = r { let _r = r.expect("ok"); ... }\<close>\<close>

definition on_ok ::
  "token_contract_result \<Rightarrow> contract_state \<Rightarrow> (contract_state \<Rightarrow> panic + contract_state)
    \<Rightarrow> panic + contract_state" where
  "on_ok r cs mirror =
     (case r of
        Ok r \<Rightarrow> bnd (expect_ok ''ok'' r) (\<lambda>_. mirror cs)
      | Err _ \<Rightarrow> Inr cs)"

text \<open>What each arm does to the book when its call succeeded.\<close>

definition mirror_mint ::
  "('env, 'addr, 'key) sdk \<Rightarrow> 'addr \<Rightarrow> i128 \<Rightarrow> contract_state \<Rightarrow> panic + contract_state" where
  "mirror_mint S to amount cs =
     bnd (add_balance S cs to amount) (\<lambda>cs.
     Inr (cs\<lparr>sum_of_mints := sum_of_mints cs + sint amount\<rparr>))"

definition mirror_approve ::
  "('env, 'addr, 'key) sdk \<Rightarrow> 'addr \<Rightarrow> 'addr \<Rightarrow> i128 \<Rightarrow> contract_state \<Rightarrow> panic + contract_state"
  where
  "mirror_approve S from spender amount cs = set_allowance S cs from spender amount"

definition mirror_transfer_from ::
  "('env, 'addr, 'key) sdk \<Rightarrow> 'addr \<Rightarrow> 'addr \<Rightarrow> 'addr \<Rightarrow> i128 \<Rightarrow> contract_state
    \<Rightarrow> panic + contract_state" where
  "mirror_transfer_from S spender from to amount cs =
     bnd (sub_balance S cs from amount) (\<lambda>cs.
     bnd (add_balance S cs to amount) (\<lambda>cs.
     sub_allowance S cs from spender amount))"

definition mirror_transfer ::
  "('env, 'addr, 'key) sdk \<Rightarrow> 'addr \<Rightarrow> 'addr \<Rightarrow> i128 \<Rightarrow> contract_state \<Rightarrow> panic + contract_state"
  where
  "mirror_transfer S from to amount cs =
     bnd (sub_balance S cs from amount) (\<lambda>cs. add_balance S cs to amount)"

definition mirror_burn_from ::
  "('env, 'addr, 'key) sdk \<Rightarrow> 'addr \<Rightarrow> 'addr \<Rightarrow> i128 \<Rightarrow> contract_state \<Rightarrow> panic + contract_state"
  where
  "mirror_burn_from S spender from amount cs =
     bnd (sub_balance S cs from amount) (\<lambda>cs.
     bnd (sub_allowance S cs from spender amount) (\<lambda>cs.
     Inr (cs\<lparr>sum_of_burns := sum_of_burns cs + sint amount\<rparr>)))"

definition mirror_burn ::
  "('env, 'addr, 'key) sdk \<Rightarrow> 'addr \<Rightarrow> i128 \<Rightarrow> contract_state \<Rightarrow> panic + contract_state" where
  "mirror_burn S from amount cs =
     bnd (sub_balance S cs from amount) (\<lambda>cs.
     Inr (cs\<lparr>sum_of_burns := sum_of_burns cs + sint amount\<rparr>))"

definition account_address ::
  "('env, 'addr, 'key) current_state \<Rightarrow> nat \<Rightarrow> panic + 'addr" where
  "account_address cur i = bnd (index (accounts cur) i) (\<lambda>signer. Inr (ts_address signer))"

text \<open>
  The frame every arm has: authorize, call, check, mirror. \<open>auth_index\<close> is the account whose
  authorization the call needs.
\<close>

definition run_call ::
  "('env, 'addr, 'key) sdk \<Rightarrow> u8 list \<Rightarrow> ('env, 'addr, 'key) current_state \<Rightarrow> string \<Rightarrow> bool list
    \<Rightarrow> 'addr val list \<Rightarrow> ('env \<Rightarrow> token_contract_result \<times> 'env) \<Rightarrow> i128 \<Rightarrow> nat
    \<Rightarrow> (contract_state \<Rightarrow> panic + contract_state) \<Rightarrow> 'env exec_state \<Rightarrow> panic + 'env exec_state" where
  "run_call S token_bytes cur fn_name auths fn_args call amount auth_index mirror st =
     (let (env, cs, nonce) = st in
      bnd (mock_auths_for_command S env fn_name auths (accounts cur) token_bytes nonce fn_args)
        (\<lambda>(env, nonce).
      let (r, env) = call env in
      bnd (check_call r amount auths auth_index) (\<lambda>_.
      bnd (on_ok r cs mirror) (\<lambda>cs.
      Inr (env, cs, nonce)))))"

definition exec_mint ::
  "('env, 'addr, 'key) sdk \<Rightarrow> u8 list \<Rightarrow> ('env, 'addr, 'key) current_state \<Rightarrow> mint_input
    \<Rightarrow> 'env exec_state \<Rightarrow> panic + 'env exec_state" where
  "exec_mint S token_bytes cur i st =
     bnd (account_address cur (mint_to_account_index i)) (\<lambda>to.
     run_call S token_bytes cur ''mint'' (mint_auths i)
       [AddressVal to, I128Val (mint_amount i)]
       (\<lambda>env. try_mint (admin_client cur) env to (mint_amount i))
       (mint_amount i) 0 (mirror_mint S to (mint_amount i)) st)"

definition exec_approve ::
  "('env, 'addr, 'key) sdk \<Rightarrow> u8 list \<Rightarrow> ('env, 'addr, 'key) current_state \<Rightarrow> approve_input
    \<Rightarrow> 'env exec_state \<Rightarrow> panic + 'env exec_state" where
  "exec_approve S token_bytes cur i st =
     bnd (account_address cur (approve_from_account_index i)) (\<lambda>from.
     bnd (account_address cur (approve_spender_account_index i)) (\<lambda>spender.
     run_call S token_bytes cur ''approve'' (approve_auths i)
       [AddressVal from, AddressVal spender, I128Val (approve_amount i),
        U32Val (approve_expiration_ledger i)]
       (\<lambda>env. try_approve (token_client cur) env from spender (approve_amount i)
          (approve_expiration_ledger i))
       (approve_amount i) (approve_from_account_index i)
       (mirror_approve S from spender (approve_amount i)) st))"

definition exec_transfer_from ::
  "('env, 'addr, 'key) sdk \<Rightarrow> u8 list \<Rightarrow> ('env, 'addr, 'key) current_state \<Rightarrow> transfer_from_input
    \<Rightarrow> 'env exec_state \<Rightarrow> panic + 'env exec_state" where
  "exec_transfer_from S token_bytes cur i st =
     bnd (account_address cur (tf_spender_account_index i)) (\<lambda>spender.
     bnd (account_address cur (tf_from_account_index i)) (\<lambda>from.
     bnd (account_address cur (tf_to_account_index i)) (\<lambda>to.
     run_call S token_bytes cur ''transfer_from'' (tf_auths i)
       [AddressVal spender, AddressVal from, AddressVal to, I128Val (tf_amount i)]
       (\<lambda>env. try_transfer_from (token_client cur) env spender from to (tf_amount i))
       (tf_amount i) (tf_spender_account_index i)
       (mirror_transfer_from S spender from to (tf_amount i)) st)))"

definition exec_transfer ::
  "('env, 'addr, 'key) sdk \<Rightarrow> u8 list \<Rightarrow> ('env, 'addr, 'key) current_state \<Rightarrow> transfer_input
    \<Rightarrow> 'env exec_state \<Rightarrow> panic + 'env exec_state" where
  "exec_transfer S token_bytes cur i st =
     bnd (account_address cur (tr_from_account_index i)) (\<lambda>from.
     bnd (account_address cur (tr_to_account_index i)) (\<lambda>to.
     run_call S token_bytes cur ''transfer'' (tr_auths i)
       [AddressVal from, AddressVal to, I128Val (tr_amount i)]
       (\<lambda>env. try_transfer (token_client cur) env from to (tr_amount i))
       (tr_amount i) (tr_from_account_index i)
       (mirror_transfer S from to (tr_amount i)) st))"

definition exec_burn_from ::
  "('env, 'addr, 'key) sdk \<Rightarrow> u8 list \<Rightarrow> ('env, 'addr, 'key) current_state \<Rightarrow> burn_from_input
    \<Rightarrow> 'env exec_state \<Rightarrow> panic + 'env exec_state" where
  "exec_burn_from S token_bytes cur i st =
     bnd (account_address cur (bf_spender_account_index i)) (\<lambda>spender.
     bnd (account_address cur (bf_from_account_index i)) (\<lambda>from.
     run_call S token_bytes cur ''burn_from'' (bf_auths i)
       [AddressVal spender, AddressVal from, I128Val (bf_amount i)]
       (\<lambda>env. try_burn_from (token_client cur) env spender from (bf_amount i))
       (bf_amount i) (bf_spender_account_index i)
       (mirror_burn_from S spender from (bf_amount i)) st))"

definition exec_burn ::
  "('env, 'addr, 'key) sdk \<Rightarrow> u8 list \<Rightarrow> ('env, 'addr, 'key) current_state \<Rightarrow> burn_input
    \<Rightarrow> 'env exec_state \<Rightarrow> panic + 'env exec_state" where
  "exec_burn S token_bytes cur i st =
     bnd (account_address cur (burn_from_account_index i)) (\<lambda>from.
     run_call S token_bytes cur ''burn'' (burn_auths i)
       [AddressVal from, I128Val (burn_amount i)]
       (\<lambda>env. try_burn (token_client cur) env from (burn_amount i))
       (burn_amount i) (burn_from_account_index i)
       (mirror_burn S from (burn_amount i)) st)"

function exec_command ::
  "('env, 'addr, 'key) sdk \<Rightarrow> u8 list \<Rightarrow> ('env, 'addr, 'key) current_state \<Rightarrow> command
    \<Rightarrow> 'env exec_state \<Rightarrow> panic + 'env exec_state" where
  "exec_command S token_bytes cur (Mint i) st = exec_mint S token_bytes cur i st"
| "exec_command S token_bytes cur (Approve i) st = exec_approve S token_bytes cur i st"
| "exec_command S token_bytes cur (TransferFrom i) st = exec_transfer_from S token_bytes cur i st"
| "exec_command S token_bytes cur (Transfer i) st = exec_transfer S token_bytes cur i st"
| "exec_command S token_bytes cur (BurnFrom i) st = exec_burn_from S token_bytes cur i st"
| "exec_command S token_bytes cur (Burn i) st = exec_burn S token_bytes cur i st"
| "exec_command S token_bytes cur (ApproveAndTransferFrom i) st =
     bnd (exec_command S token_bytes cur (Approve (atf_to_approve_input i)) st) (\<lambda>st.
     exec_command S token_bytes cur (TransferFrom (to_transfer_from_input i)) st)"
| "exec_command S token_bytes cur (ApproveAndBurnFrom i) st =
     bnd (exec_command S token_bytes cur (Approve (abf_to_approve_input i)) st) (\<lambda>st.
     exec_command S token_bytes cur (BurnFrom (to_burn_from_input i)) st)"
  by pat_completeness auto
termination
  by (relation "measure (\<lambda>(_, _, _, c, _). case c of
      ApproveAndTransferFrom _ \<Rightarrow> 1 | ApproveAndBurnFrom _ \<Rightarrow> 1 | _ \<Rightarrow> 0)") auto

section \<open>Checking the token against the book\<close>

definition account_pairs ::
  "('env, 'addr, 'key) current_state
    \<Rightarrow> (('addr, 'key) test_signer \<times> ('addr, 'key) test_signer) list" where
  "account_pairs cur = List.product (accounts cur) (accounts cur)"

definition assert_metadata ::
  "('env, 'addr, 'key) sdk \<Rightarrow> contract_state \<Rightarrow> ('env, 'addr, 'key) current_state \<Rightarrow> 'env
    \<Rightarrow> panic + 'env" where
  "assert_metadata S cs cur env =
     bnd (client_name (token_client cur) env) (\<lambda>(s, env).
     bnd (string_to_bytes S s) (\<lambda>bytes.
     bnd (assert_that (name cs = bytes)) (\<lambda>_.
     bnd (client_symbol (token_client cur) env) (\<lambda>(s, env).
     bnd (string_to_bytes S s) (\<lambda>bytes.
     bnd (assert_that (symbol cs = bytes)) (\<lambda>_.
     bnd (client_decimals (token_client cur) env) (\<lambda>(d, env).
     bnd (assert_that (decimals cs = d)) (\<lambda>_. Inr env))))))))"

definition assert_balance ::
  "('env, 'addr, 'key) sdk \<Rightarrow> contract_state \<Rightarrow> ('env, 'addr, 'key) current_state
    \<Rightarrow> ('addr, 'key) test_signer \<Rightarrow> 'env \<Rightarrow> panic + 'env" where
  "assert_balance S cs cur signer env =
     bnd (get_balance S cs (ts_address signer)) (\<lambda>expected.
     bnd (client_balance (token_client cur) env (ts_address signer)) (\<lambda>(actual, env).
     bnd (assert_that (expected = actual)) (\<lambda>_.
     bnd (client_balance (token_client cur) env (ts_address signer)) (\<lambda>(again, env).
     bnd (assert_that (0 \<le> sint again)) (\<lambda>_. Inr env)))))"

definition assert_allowance ::
  "('env, 'addr, 'key) sdk \<Rightarrow> contract_state \<Rightarrow> ('env, 'addr, 'key) current_state
    \<Rightarrow> ('addr, 'key) test_signer \<times> ('addr, 'key) test_signer \<Rightarrow> 'env \<Rightarrow> panic + 'env" where
  "assert_allowance S cs cur pair env =
     (let (signer1, signer2) = pair in
      bnd (get_allowance S cs (ts_address signer1) (ts_address signer2)) (\<lambda>expected.
      bnd (client_allowance (token_client cur) env (ts_address signer1) (ts_address signer2))
        (\<lambda>(actual, env).
      bnd (assert_that (expected = actual)) (\<lambda>_. Inr env))))"

definition add_actual_balance ::
  "('env, 'addr, 'key) current_state \<Rightarrow> ('addr, 'key) test_signer \<Rightarrow> int \<times> 'env
    \<Rightarrow> panic + int \<times> 'env" where
  "add_actual_balance cur signer acc =
     bnd (client_balance (token_client cur) (snd acc) (ts_address signer)) (\<lambda>(b, env).
     Inr (fst acc + sint b, env))"

definition assert_state ::
  "('env, 'addr, 'key) sdk \<Rightarrow> contract_state \<Rightarrow> ('env, 'addr, 'key) current_state \<Rightarrow> 'env
    \<Rightarrow> panic + 'env" where
  "assert_state S cs cur env =
     bnd (assert_metadata S cs cur env) (\<lambda>env.
     bnd (fold_may (assert_balance S cs cur) (accounts cur) env) (\<lambda>env.
     bnd (fold_may (assert_allowance S cs cur) (account_pairs cur) env) (\<lambda>env.
     let sum_of_balances_0 = sum_of_mints cs - sum_of_burns cs in
     bnd (fold_may (add_actual_balance cur) (accounts cur) (0, env)) (\<lambda>(sum_of_balances_1, env).
     bnd (assert_that (sum_of_balances_0 = sum_of_balances_1)) (\<lambda>_. Inr env)))))"

text \<open>
  After time has passed, an allowance the token reports as zero counts as expired: the book
  forgets it.
\<close>

definition refresh_allowance ::
  "('env, 'addr, 'key) sdk \<Rightarrow> ('env, 'addr, 'key) current_state
    \<Rightarrow> ('addr, 'key) test_signer \<times> ('addr, 'key) test_signer \<Rightarrow> contract_state \<times> 'env
    \<Rightarrow> panic + contract_state \<times> 'env" where
  "refresh_allowance S cur pair st =
     (let (signer1, signer2) = pair; (cs, env) = st in
      bnd (get_allowance S cs (ts_address signer1) (ts_address signer2)) (\<lambda>expected_allowance.
      bnd (client_allowance (token_client cur) env (ts_address signer1) (ts_address signer2))
        (\<lambda>(actual_allowance, env).
      if actual_allowance = 0 \<and> expected_allowance \<noteq> 0 then
        bnd (set_allowance S cs (ts_address signer1) (ts_address signer2) actual_allowance)
          (\<lambda>cs. Inr (cs, env))
      else Inr (cs, env))))"

section \<open>A run\<close>

type_synonym ('env, 'addr, 'key) run_state =
  "'env \<times> contract_state \<times> i64 \<times> ('env, 'addr, 'key) current_state"

definition run_transaction ::
  "('env, 'addr, 'key) sdk \<Rightarrow> ('env, 'lk, 'le, 'r) snapshots \<Rightarrow> ('env, 'addr) config
    \<Rightarrow> address_generator \<Rightarrow> u8 list \<Rightarrow> transaction \<Rightarrow> ('env, 'addr, 'key) run_state
    \<Rightarrow> panic + ('env, 'addr, 'key) run_state" where
  "run_transaction S N config gen token_bytes tx st =
     (let (env, cs, nonce, cur) = st; env = budget_reset_unlimited S env in
      bnd (fold_may (exec_command S token_bytes cur) (commands tx) (env, cs, nonce))
        (\<lambda>(env, cs, nonce).
      bnd (advance_time S N config env token_bytes (advance_ledgers tx)) (\<lambda>env.
      bnd (current_state_new S config env token_bytes gen) (\<lambda>cur.
      bnd (fold_may (refresh_allowance S cur) (account_pairs cur) (cs, env)) (\<lambda>(cs, env).
      bnd (assert_state S cs cur env) (\<lambda>env.
      Inr (env, cs, nonce, cur)))))))"

text \<open>The setup of a run: accounts, registration of the token, the values that never change.\<close>

definition setup_run ::
  "('env, 'addr, 'key) sdk \<Rightarrow> ('env, 'addr) config \<Rightarrow> address_generator
    \<Rightarrow> panic + u8 list \<times> ('env, 'addr, 'key) run_state" where
  "setup_run S config gen =
     (let env = env_default S in
      bnd (setup_account_storage S gen env) (\<lambda>env.
      bnd (generate_signers S gen env) (\<lambda>signers.
      bnd (index signers 0) (\<lambda>signer0.
      bnd (register_contract_init S config env (ts_address signer0)) (\<lambda>(token_contract_id, env).
      bnd (address_to_bytes S token_contract_id) (\<lambda>token_bytes.
      bnd (current_state_new S config env token_bytes gen) (\<lambda>cur.
      bnd (client_name (token_client cur) env) (\<lambda>(s, env).
      bnd (string_to_bytes S s) (\<lambda>name_bytes.
      bnd (client_symbol (token_client cur) env) (\<lambda>(s, env).
      bnd (string_to_bytes S s) (\<lambda>symbol_bytes.
      bnd (client_decimals (token_client cur) env) (\<lambda>(d, env).
      Inr (token_bytes,
           env, init\<lparr>name := name_bytes, symbol := symbol_bytes, decimals := d\<rparr>, 0, cur)))))))))))))"

definition fuzz_token ::
  "('env, 'addr, 'key) sdk \<Rightarrow> ('env, 'lk, 'le, 'r) snapshots \<Rightarrow> ('env, 'addr) config \<Rightarrow> input
    \<Rightarrow> panic + corpus" where
  "fuzz_token S N config inp =
     (if list_all (\<lambda>tx. commands tx = []) (transactions inp) then Inr Reject
      else
        bnd (setup_run S config (address_generator inp)) (\<lambda>(token_bytes, st).
        bnd (fold_may (run_transaction S N config (address_generator inp) token_bytes)
               (transactions inp) st) (\<lambda>_.
        Inr Keep)))"

section \<open>What a command that does not panic tells\<close>

lemma verify_ok:
  "verify_token_contract_result r = Inr () \<longleftrightarrow> r \<noteq> Err (Ok (Error WasmVm InvalidAction))"
  by (auto simp: verify_token_contract_result_def split: result.splits) (metis error.collapse)

lemma check_call_ok:
  "check_call r amount auths i = Inr () \<longleftrightarrow>
     r \<noteq> Err (Ok (Error WasmVm InvalidAction)) \<and> (sint amount < 0 \<longrightarrow> is_err r) \<and>
     i < length auths \<and> (\<not> auths ! i \<longrightarrow> is_err r)"
  by (auto simp: check_call_def bnd_Inr_iff verify_ok)

lemma on_ok_Inr:
  "on_ok r cs mirror = Inr cs' \<longleftrightarrow>
     (\<exists>e. r = Err e \<and> cs' = cs) \<or> (\<exists>u. r = Ok (Ok u) \<and> mirror cs = Inr cs')"
  by (auto simp: on_ok_def bnd_Inr_iff split: result.splits)

lemma run_call_Inr:
  assumes "run_call S tb cur fn auths vs call amount i mirror (env, cs, nonce) = Inr (env', cs', nonce')"
  obtains env1 r where
    "mock_auths_for_command S env fn auths (accounts cur) tb nonce vs = Inr (env1, nonce')"
    "call env1 = (r, env')"
    "check_call r amount auths i = Inr ()"
    "on_ok r cs mirror = Inr cs'"
  using assms that [of "fst x" "fst (call (fst x))" for x]
  by (auto simp: run_call_def bnd_Inr_iff Let_def case_prod_unfold)

lemma account_address_Inr [simp]:
  "account_address cur i = Inr a \<longleftrightarrow>
     i < length (accounts cur) \<and> a = ts_address (accounts cur ! i)"
  by (auto simp: account_address_def bnd_Inr_iff)

lemma account_address_in: "account_address cur i = Inr a \<Longrightarrow> a \<in> ts_address ` set (accounts cur)"
  by auto

lemmas exec_defs = exec_mint_def exec_approve_def exec_transfer_from_def exec_transfer_def
  exec_burn_from_def exec_burn_def

lemmas mirror_defs = mirror_mint_def mirror_approve_def mirror_transfer_from_def mirror_transfer_def
  mirror_burn_from_def mirror_burn_def

end
