(* ===== verification/Example_Target.thy ===== *)
theory Example_Target
  imports Token Fuzz
begin

text \<open>
  The fuzz targets fuzz/fuzz_targets/*.rs: the native token and the example token as a
  \<open>ContractTokenOps\<close>. The client of the example token's own interface (\<open>example_token::TokenClient\<close>,
  generated by the SDK's macro) and \<open>Env::register_contract\<close> are the dictionary \<open>example_sdk\<close>.
\<close>

record ('env, 'addr) example_client =
  ex_try_initialize :: "'env \<Rightarrow> 'addr \<Rightarrow> u32 \<Rightarrow> sstring \<Rightarrow> sstring \<Rightarrow> token_contract_result \<times> 'env"
  ex_try_mint :: "'env \<Rightarrow> 'addr \<Rightarrow> i128 \<Rightarrow> token_contract_result \<times> 'env"

record ('env, 'addr) example_sdk =
  ex_register_contract :: "'env \<Rightarrow> 'addr option \<Rightarrow> 'addr \<times> 'env"
  ex_client_new :: "'env \<Rightarrow> 'addr \<Rightarrow> ('env, 'addr) example_client"

text \<open>The bytes of a string literal (\<open>String::from_str\<close>).\<close>

definition from_str :: "string \<Rightarrow> sstring" where
  "from_str s = map of_char s"

definition example_register_contract_init ::
  "('env, 'addr) example_sdk \<Rightarrow> 'env \<Rightarrow> 'addr \<Rightarrow> panic + 'addr \<times> 'env" where
  "example_register_contract_init X env admin =
     (let (token_contract_id, env) = ex_register_contract X env None;
          admin_client = ex_client_new X env token_contract_id;
          (r, env) = ex_try_initialize admin_client env admin 10
            (from_str ''token'') (from_str ''TKN'')
      in bnd (assert_that (is_ok r)) (\<lambda>_. Inr (token_contract_id, env)))"

definition example_reregister_contract ::
  "('env, 'addr) example_sdk \<Rightarrow> 'env \<Rightarrow> 'addr \<Rightarrow> panic + 'env" where
  "example_reregister_contract X env token_contract_id =
     (let (_, env) = ex_register_contract X env (Some token_contract_id) in Inr env)"

text \<open>\<open>AdminClient\<close>: the \<open>TokenAdminClient\<close> of the example token.\<close>

definition example_try_mint ::
  "('env, 'addr) example_client \<Rightarrow> 'env \<Rightarrow> 'addr \<Rightarrow> i128 \<Rightarrow> token_contract_result \<times> 'env" where
  "example_try_mint client env to amount = ex_try_mint client env to amount"

definition example_new_admin_client ::
  "('env, 'addr) example_sdk \<Rightarrow> 'env \<Rightarrow> 'addr \<Rightarrow> ('env, 'addr) token_admin_client" where
  "example_new_admin_client X env token_contract_id =
     \<lparr>try_mint = example_try_mint (ex_client_new X env token_contract_id)\<rparr>"

definition TokenOps :: "('env, 'addr) example_sdk \<Rightarrow> ('env, 'addr) contract_token_ops" where
  "TokenOps X =
     \<lparr>ops_register_contract_init = example_register_contract_init X,
      ops_reregister_contract = example_reregister_contract X,
      ops_new_admin_client = example_new_admin_client X\<rparr>"

definition fuzz_example_token ::
  "('env, 'addr, 'key) sdk \<Rightarrow> ('env, 'lk, 'le, 'r) snapshots \<Rightarrow> ('env, 'addr) example_sdk \<Rightarrow> input
    \<Rightarrow> panic + corpus" where
  "fuzz_example_token S N X inp =
     (let config = contract (TokenOps X) in fuzz_token S N config inp)"

definition fuzz_native_token ::
  "('env, 'addr, 'key) sdk \<Rightarrow> ('env, 'lk, 'le, 'r) snapshots \<Rightarrow> input \<Rightarrow> panic + corpus" where
  "fuzz_native_token S N inp = (let config = native in fuzz_token S N config inp)"

lemma TokenOps_simps [simp]:
  "ops_register_contract_init (TokenOps X) = example_register_contract_init X"
  "ops_reregister_contract (TokenOps X) = example_reregister_contract X"
  "ops_new_admin_client (TokenOps X) = example_new_admin_client X"
  by (simp_all add: TokenOps_def)

section \<open>Calling the example token\<close>

text \<open>
  How a client's call reaches the contract: the host opens a frame (\<open>fr_enter\<close>, which knows the
  invoked function and its arguments), runs the entry point, and on return closes it
  (\<open>fr_leave\<close>); a panic undoes the call (\<open>fr_rollback\<close>) and is reported as an error
  (\<open>fr_error\<close>). The frame functions are the host's, so they are parameters; a client of the
  example token is then the following dictionary.
\<close>

record ('env, 'addr) frames =
  fr_enter :: "'env \<Rightarrow> string \<Rightarrow> 'addr val list \<Rightarrow> 'env"
  fr_leave :: "'env \<Rightarrow> 'env \<Rightarrow> 'env"
  fr_rollback :: "'env \<Rightarrow> 'env"
  fr_error :: "panic \<Rightarrow> error"

definition try_invoke ::
  "('env, 'addr) frames \<Rightarrow> 'env \<Rightarrow> string \<Rightarrow> 'addr val list \<Rightarrow> ('env \<Rightarrow> panic + 'a \<times> 'env)
    \<Rightarrow> 'a call_result \<times> 'env" where
  "try_invoke F env fn vs body =
     (case body (fr_enter F env fn vs) of
        Inr (v, env') \<Rightarrow> (Ok (Ok v), fr_leave F env env')
      | Inl p \<Rightarrow> (Err (Ok (fr_error F p)), fr_rollback F env))"

text \<open>The client's methods without \<open>try_\<close> panic with the error.\<close>

definition invoke ::
  "('env, 'addr) frames \<Rightarrow> 'env \<Rightarrow> string \<Rightarrow> 'addr val list \<Rightarrow> ('env \<Rightarrow> panic + 'a \<times> 'env)
    \<Rightarrow> panic + 'a \<times> 'env" where
  "invoke F env fn vs body =
     (case body (fr_enter F env fn vs) of
        Inr (v, env') \<Rightarrow> Inr (v, fr_leave F env env')
      | Inl p \<Rightarrow> Inl (HostError (fr_error F p)))"

text \<open>Entry points that return nothing, and those that leave the \<open>Env\<close> alone.\<close>

definition no_value :: "('env \<Rightarrow> panic + 'env) \<Rightarrow> 'env \<Rightarrow> panic + unit \<times> 'env" where
  "no_value body env = bnd (body env) (\<lambda>env. Inr ((), env))"

definition no_effect :: "('env \<Rightarrow> panic + 'a) \<Rightarrow> 'env \<Rightarrow> panic + 'a \<times> 'env" where
  "no_effect body env = bnd (body env) (\<lambda>v. Inr (v, env))"

definition example_contract_client ::
  "('env, 'addr) frames \<Rightarrow> ('env, 'addr) token_host \<Rightarrow> ('env, 'addr) example_client" where
  "example_contract_client F H =
     \<lparr>ex_try_initialize = (\<lambda>env admin decimal nm sb.
        try_invoke F env ''initialize''
          [AddressVal admin, U32Val decimal, StringVal nm, StringVal sb]
          (no_value (\<lambda>env. token_initialize H env admin decimal nm sb))),
      ex_try_mint = (\<lambda>env to amount.
        try_invoke F env ''mint'' [AddressVal to, I128Val amount]
          (no_value (\<lambda>env. token_mint H env to amount)))\<rparr>"

definition example_token_client ::
  "('env, 'addr) frames \<Rightarrow> ('env, 'addr) token_host \<Rightarrow> ('env, 'addr) token_client" where
  "example_token_client F H =
     \<lparr>try_approve = (\<lambda>env from spender amount expiration.
        try_invoke F env ''approve''
          [AddressVal from, AddressVal spender, I128Val amount, U32Val expiration]
          (no_value (\<lambda>env. token_approve H env from spender amount expiration))),
      try_transfer_from = (\<lambda>env spender from to amount.
        try_invoke F env ''transfer_from''
          [AddressVal spender, AddressVal from, AddressVal to, I128Val amount]
          (no_value (\<lambda>env. token_transfer_from H env spender from to amount))),
      try_transfer = (\<lambda>env from to amount.
        try_invoke F env ''transfer'' [AddressVal from, AddressVal to, I128Val amount]
          (no_value (\<lambda>env. token_transfer H env from to amount))),
      try_burn_from = (\<lambda>env spender from amount.
        try_invoke F env ''burn_from'' [AddressVal spender, AddressVal from, I128Val amount]
          (no_value (\<lambda>env. token_burn_from H env spender from amount))),
      try_burn = (\<lambda>env from amount.
        try_invoke F env ''burn'' [AddressVal from, I128Val amount]
          (no_value (\<lambda>env. token_burn H env from amount))),
      try_allowance = (\<lambda>env from spender.
        try_invoke F env ''allowance'' [AddressVal from, AddressVal spender]
          (\<lambda>env. token_allowance H env from spender)),
      client_allowance = (\<lambda>env from spender.
        invoke F env ''allowance'' [AddressVal from, AddressVal spender]
          (\<lambda>env. token_allowance H env from spender)),
      client_balance = (\<lambda>env a.
        invoke F env ''balance'' [AddressVal a] (\<lambda>env. token_balance H env a)),
      client_name = (\<lambda>env. invoke F env ''name'' [] (no_effect (token_name H))),
      client_symbol = (\<lambda>env. invoke F env ''symbol'' [] (no_effect (token_symbol H))),
      client_decimals = (\<lambda>env. invoke F env ''decimals'' [] (no_effect (token_decimals H)))\<rparr>"

end
