(* ===== verification/Token_Spec.thy ===== *)
theory Token_Spec
  imports Sdk
begin

text \<open>
  The abstract token: balances and allowances as integers, and one function per operation of the
  token interface. It is the specification that both the fuzzer's book and the token contract
  implement. \<open>agree\<close> compares two abstract states on a set of accounts, which is what the fuzzer
  can observe; \<open>total_supply\<close> is the sum of the balances of those accounts.
\<close>

record 'addr token_state =
  bals :: "'addr \<Rightarrow> int"
  allws :: "'addr \<Rightarrow> 'addr \<Rightarrow> int"
  meta :: "sstring \<times> sstring \<times> u32"

definition spec_mint :: "'addr \<Rightarrow> int \<Rightarrow> 'addr token_state \<Rightarrow> 'addr token_state" where
  "spec_mint to n t = t\<lparr>bals := (bals t)(to := bals t to + n)\<rparr>"

definition spec_burn :: "'addr \<Rightarrow> int \<Rightarrow> 'addr token_state \<Rightarrow> 'addr token_state" where
  "spec_burn from n t = t\<lparr>bals := (bals t)(from := bals t from - n)\<rparr>"

definition spec_transfer :: "'addr \<Rightarrow> 'addr \<Rightarrow> int \<Rightarrow> 'addr token_state \<Rightarrow> 'addr token_state" where
  "spec_transfer from to n t = spec_mint to n (spec_burn from n t)"

definition spec_approve :: "'addr \<Rightarrow> 'addr \<Rightarrow> int \<Rightarrow> 'addr token_state \<Rightarrow> 'addr token_state" where
  "spec_approve from spender n t =
     t\<lparr>allws := (allws t)(from := (allws t from)(spender := n))\<rparr>"

definition spec_spend :: "'addr \<Rightarrow> 'addr \<Rightarrow> int \<Rightarrow> 'addr token_state \<Rightarrow> 'addr token_state" where
  "spec_spend from spender n t = spec_approve from spender (allws t from spender - n) t"

definition spec_transfer_from ::
  "'addr \<Rightarrow> 'addr \<Rightarrow> 'addr \<Rightarrow> int \<Rightarrow> 'addr token_state \<Rightarrow> 'addr token_state" where
  "spec_transfer_from spender from to n t = spec_transfer from to n (spec_spend from spender n t)"

definition spec_burn_from ::
  "'addr \<Rightarrow> 'addr \<Rightarrow> int \<Rightarrow> 'addr token_state \<Rightarrow> 'addr token_state" where
  "spec_burn_from spender from n t = spec_burn from n (spec_spend from spender n t)"

lemmas spec_defs = spec_mint_def spec_burn_def spec_transfer_def spec_approve_def spec_spend_def
  spec_transfer_from_def spec_burn_from_def

section \<open>Supply\<close>

definition total_supply :: "'addr list \<Rightarrow> 'addr token_state \<Rightarrow> int" where
  "total_supply as t = (\<Sum>a\<leftarrow>as. bals t a)"

lemma sum_list_upd:
  fixes f :: "'a \<Rightarrow> int"
  assumes "distinct as"
  shows "(\<Sum>a\<leftarrow>as. (f(x := v)) a) = (\<Sum>a\<leftarrow>as. f a) + (if x \<in> set as then v - f x else 0)"
  using assms by (induction as) auto

lemma supply_spec:
  assumes "distinct as"
  shows "to \<in> set as \<Longrightarrow> total_supply as (spec_mint to n t) = total_supply as t + n"
    and "from \<in> set as \<Longrightarrow> total_supply as (spec_burn from n t) = total_supply as t - n"
    and "total_supply as (spec_approve from spender n t) = total_supply as t"
    and "total_supply as (spec_spend from spender n t) = total_supply as t"
  using sum_list_upd [OF assms, of "bals t"]
  by (simp_all add: total_supply_def spec_mint_def spec_burn_def spec_spend_def spec_approve_def)

lemma supply_spec_transfer:
  assumes "distinct as" "from \<in> set as" "to \<in> set as"
  shows "total_supply as (spec_transfer from to n t) = total_supply as t"
    and "total_supply as (spec_transfer_from spender from to n t) = total_supply as t"
    and "total_supply as (spec_burn_from spender from n t) = total_supply as t - n"
  using assms
  by (simp_all add: spec_transfer_def spec_transfer_from_def spec_burn_from_def supply_spec)

section \<open>Agreement\<close>

definition agree :: "'addr set \<Rightarrow> 'addr token_state \<Rightarrow> 'addr token_state \<Rightarrow> bool" where
  "agree A t u \<longleftrightarrow>
     (\<forall>a\<in>A. bals t a = bals u a) \<and> (\<forall>a\<in>A. \<forall>b\<in>A. allws t a b = allws u a b) \<and> meta t = meta u"

lemma agree_refl [simp]: "agree A t t"
  by (simp add: agree_def)

lemma agree_bals: "agree A t u \<Longrightarrow> a \<in> A \<Longrightarrow> bals t a = bals u a"
  by (simp add: agree_def)

lemma agree_allws: "agree A t u \<Longrightarrow> a \<in> A \<Longrightarrow> b \<in> A \<Longrightarrow> allws t a b = allws u a b"
  by (simp add: agree_def)

lemma agree_meta: "agree A t u \<Longrightarrow> meta t = meta u"
  by (simp add: agree_def)

lemma agree_spec:
  assumes "agree A t u"
  shows "x \<in> A \<Longrightarrow> agree A (spec_mint x n t) (spec_mint x n u)"
    and "x \<in> A \<Longrightarrow> agree A (spec_burn x n t) (spec_burn x n u)"
    and "agree A (spec_approve x y n t) (spec_approve x y n u)"
    and "x \<in> A \<Longrightarrow> y \<in> A \<Longrightarrow> agree A (spec_spend x y n t) (spec_spend x y n u)"
  using assms by (auto simp: agree_def spec_defs)

lemma agree_spec_transfer:
  assumes "agree A t u" "x \<in> A" "y \<in> A"
  shows "agree A (spec_transfer x y n t) (spec_transfer x y n u)"
    and "z \<in> A \<Longrightarrow> agree A (spec_transfer_from z x y n t) (spec_transfer_from z x y n u)"
    and "agree A (spec_burn_from y x n t) (spec_burn_from y x n u)"
  using assms
  by (simp_all add: spec_transfer_def spec_transfer_from_def spec_burn_from_def agree_spec)

lemma supply_agree: "agree A t u \<Longrightarrow> set as \<subseteq> A \<Longrightarrow> total_supply as t = total_supply as u"
  by (auto simp: total_supply_def agree_def subset_iff intro!: arg_cong [where f = sum_list])

end
