(* ===== verification/Token_Correct.thy ===== *)
theory Token_Correct
  imports Token Token_Spec
begin

text \<open>
  The example token implements the abstract token of \<open>Token_Spec\<close>. The locale \<open>token_host_laws\<close>
  states what the contract relies on of the host: a ghost function \<open>view\<close> gives the contract's
  storage as maps with the remaining time to live of its entries, and each host function changes
  it as documented. \<open>token_ok\<close> is the invariant of the contract's storage, \<open>token_view\<close> its
  abstraction. The lemmas give, for every entry point that returns, who authorized it, the bounds
  its guards ensure, and the abstract step it performs; the read-only entry points always return.
\<close>

record 'addr host_view =
  hv_store :: "durability \<times> 'addr data_key \<rightharpoonup> 'addr stored"
  hv_ttl :: "'addr data_key \<Rightarrow> nat"
  hv_instance_ttl :: nat
  hv_meta :: "token_metadata option"
  hv_seq :: u32

abbreviation allowance_key :: "'addr \<Rightarrow> 'addr \<Rightarrow> durability \<times> 'addr data_key" where
  "allowance_key f s \<equiv> (Temporary, AllowanceKey \<lparr>key_from = f, key_spender = s\<rparr>)"

abbreviation balance_key :: "'addr \<Rightarrow> durability \<times> 'addr data_key" where
  "balance_key a \<equiv> (Persistent, BalanceKey a)"

definition stored_balance :: "'addr stored option \<Rightarrow> int" where
  "stored_balance v = (case v of Some (StoredI128 b) \<Rightarrow> sint b | _ \<Rightarrow> 0)"

definition stored_allowance :: "u32 \<Rightarrow> 'addr stored option \<Rightarrow> int" where
  "stored_allowance seq v =
     (case v of
        Some (StoredAllowance al) \<Rightarrow>
          (if av_expiration_ledger al < seq then 0 else sint (av_amount al))
      | _ \<Rightarrow> 0)"

definition token_view :: "'addr host_view \<Rightarrow> 'addr token_state" where
  "token_view v =
     \<lparr>bals = (\<lambda>a. stored_balance (hv_store v (balance_key a))),
      allws = (\<lambda>f s. stored_allowance (hv_seq v) (hv_store v (allowance_key f s))),
      meta = (case hv_meta v of
          Some md \<Rightarrow> (md_name md, md_symbol md, md_decimal md)
        | None \<Rightarrow> ([], [], 0))\<rparr>"

definition token_ok :: "'addr \<Rightarrow> 'addr host_view \<Rightarrow> bool" where
  "token_ok admin v \<longleftrightarrow>
     hv_store v (Instance, AdminKey) = Some (StoredAddress admin) \<and> hv_meta v \<noteq> None \<and>
     (\<forall>a x. hv_store v (balance_key a) = Some x \<longrightarrow> (\<exists>b. x = StoredI128 b \<and> 0 \<le> sint b)) \<and>
     (\<forall>f s x. hv_store v (allowance_key f s) = Some x \<longrightarrow>
        (\<exists>al. x = StoredAllowance al \<and> 0 \<le> sint (av_amount al)))"

text \<open>
  What no call of the contract changes, and that it never shortens a life: clock, metadata and
  administrator stay, entries stay, times to live do not shrink, and an entry it creates lives at
  least the balance threshold.
\<close>

definition token_keeps :: "'addr host_view \<Rightarrow> 'addr host_view \<Rightarrow> bool" where
  "token_keeps v v' \<longleftrightarrow>
     hv_seq v' = hv_seq v \<and> hv_meta v' = hv_meta v \<and>
     hv_store v' (Instance, AdminKey) = hv_store v (Instance, AdminKey) \<and>
     hv_instance_ttl v \<le> hv_instance_ttl v' \<and>
     (\<forall>k. hv_store v (Persistent, k) \<noteq> None \<longrightarrow>
        hv_store v' (Persistent, k) \<noteq> None \<and> hv_ttl v k \<le> hv_ttl v' k) \<and>
     (\<forall>k. hv_store v (Persistent, k) = None \<longrightarrow> hv_store v' (Persistent, k) \<noteq> None \<longrightarrow>
        unat BALANCE_LIFETIME_THRESHOLD \<le> hv_ttl v' k)"

text \<open>A run of contract code from \<open>e\<close> to \<open>e'\<close> that performs \<open>step\<close> on the abstract token.\<close>

definition token_step ::
  "('env \<Rightarrow> bool) \<Rightarrow> ('env \<Rightarrow> 'addr host_view) \<Rightarrow> 'addr \<Rightarrow> 'env \<Rightarrow> 'env
    \<Rightarrow> ('addr token_state \<Rightarrow> 'addr token_state) \<Rightarrow> bool" where
  "token_step good view admin e e' step \<longleftrightarrow>
     good e' \<and> token_ok admin (view e') \<and> token_keeps (view e) (view e') \<and>
     token_view (view e') = step (token_view (view e))"

text \<open>
  The same with what every entry point that moves tokens ensures: \<open>a\<close> authorized the call, the
  amount is not negative, and the contract's instance stays alive at least the threshold.
\<close>

definition token_called ::
  "('env \<Rightarrow> bool) \<Rightarrow> ('env \<Rightarrow> 'addr host_view) \<Rightarrow> ('env \<Rightarrow> 'addr \<Rightarrow> bool) \<Rightarrow> 'addr \<Rightarrow> 'env \<Rightarrow> 'env
    \<Rightarrow> 'addr \<Rightarrow> i128 \<Rightarrow> ('addr token_state \<Rightarrow> 'addr token_state) \<Rightarrow> bool" where
  "token_called good view auth admin e e' a n step \<longleftrightarrow>
     auth e a \<and> 0 \<le> sint n \<and> token_step good view admin e e' step \<and>
     unat INSTANCE_LIFETIME_THRESHOLD \<le> hv_instance_ttl (view e')"

lemma token_constants [simp]:
  "unat INSTANCE_LIFETIME_THRESHOLD = 103680" "unat INSTANCE_BUMP_AMOUNT = 120960"
  "unat BALANCE_LIFETIME_THRESHOLD = 501120" "unat BALANCE_BUMP_AMOUNT = 518400"
  by (simp_all add: INSTANCE_LIFETIME_THRESHOLD_def INSTANCE_BUMP_AMOUNT_def
      BALANCE_LIFETIME_THRESHOLD_def BALANCE_BUMP_AMOUNT_def token_DAY_IN_LEDGERS_def)

lemma bump_covers_threshold:
  "INSTANCE_LIFETIME_THRESHOLD \<le> INSTANCE_BUMP_AMOUNT" "BALANCE_LIFETIME_THRESHOLD \<le> BALANCE_BUMP_AMOUNT"
  by (simp_all add: word_le_nat_alt)

lemma token_keeps_refl [simp]: "token_keeps v v"
  by (simp add: token_keeps_def)

lemma token_keeps_trans: "token_keeps u v \<Longrightarrow> token_keeps v w \<Longrightarrow> token_keeps u w"
  unfolding token_keeps_def by (metis le_trans)

lemma token_step_trans:
  assumes "token_step good view admin e e1 f" "token_step good view admin e1 e2 g"
  shows "token_step good view admin e e2 (\<lambda>t. g (f t))"
  using assms by (auto simp: token_step_def intro: token_keeps_trans)

lemma token_view_simps [simp]:
  "bals (token_view v) a = stored_balance (hv_store v (balance_key a))"
  "allws (token_view v) f s = stored_allowance (hv_seq v) (hv_store v (allowance_key f s))"
  "token_view (v\<lparr>hv_ttl := t\<rparr>) = token_view v"
  "token_view (v\<lparr>hv_instance_ttl := i\<rparr>) = token_view v"
  by (simp_all add: token_view_def)

lemma token_ok_simps [simp]:
  "token_ok admin (v\<lparr>hv_ttl := t\<rparr>) = token_ok admin v"
  "token_ok admin (v\<lparr>hv_instance_ttl := i\<rparr>) = token_ok admin v"
  by (simp_all add: token_ok_def)

lemma token_ok_balance:
  assumes "token_ok admin v"
  obtains "hv_store v (balance_key a) = None" "bals (token_view v) a = 0"
  | b where "hv_store v (balance_key a) = Some (StoredI128 b)" "bals (token_view v) a = sint b"
      "0 \<le> sint b"
  using assms by (cases "hv_store v (balance_key a)") (auto simp: token_ok_def stored_balance_def)

lemma token_ok_allowance:
  assumes "token_ok admin v"
  obtains "hv_store v (allowance_key f s) = None" "allws (token_view v) f s = 0"
  | al where "hv_store v (allowance_key f s) = Some (StoredAllowance al)"
      "0 \<le> sint (av_amount al)"
      "allws (token_view v) f s =
        (if av_expiration_ledger al < hv_seq v then 0 else sint (av_amount al))"
proof (cases "hv_store v (allowance_key f s)")
  case None
  then show ?thesis using that(1) by (simp add: stored_allowance_def)
next
  case (Some x)
  with assms obtain al where "x = StoredAllowance al" "0 \<le> sint (av_amount al)"
    unfolding token_ok_def by blast
  with Some show ?thesis using that(2) by (simp add: stored_allowance_def)
qed

text \<open>
  Time passes for the contract: the ledger sequence does not go back, instance storage and
  balances stay as they are, and temporary entries stay or are gone.
\<close>

definition view_elapsed :: "'addr host_view \<Rightarrow> 'addr host_view \<Rightarrow> bool" where
  "view_elapsed v v' \<longleftrightarrow>
     hv_seq v \<le> hv_seq v' \<and> hv_meta v' = hv_meta v \<and>
     (\<forall>k. hv_store v' (Instance, k) = hv_store v (Instance, k)) \<and>
     (\<forall>a. hv_store v' (balance_key a) = hv_store v (balance_key a)) \<and>
     (\<forall>k. hv_store v' (Temporary, k) = hv_store v (Temporary, k) \<or> hv_store v' (Temporary, k) = None)"

lemma allowance_lapses:
  assumes "q \<le> q'" "x' = x \<or> x' = None"
  shows "stored_allowance q' x' = stored_allowance q x \<or> stored_allowance q' x' = 0"
  using assms by (auto simp: stored_allowance_def split: option.splits stored.splits)

lemma elapsed_view:
  assumes "view_elapsed v v'"
  shows "token_ok admin v \<Longrightarrow> token_ok admin v'"
    and "token_view v' = (token_view v)\<lparr>allws := allws (token_view v')\<rparr>"
    and "allws (token_view v') f s = allws (token_view v) f s \<or> allws (token_view v') f s = 0"
proof -
  show "token_ok admin v'" if "token_ok admin v"
    using assms that unfolding token_ok_def view_elapsed_def by (metis option.distinct(1))
  show "token_view v' = (token_view v)\<lparr>allws := allws (token_view v')\<rparr>"
    using assms by (simp add: token_view_def view_elapsed_def)
  show "allws (token_view v') f s = allws (token_view v) f s \<or> allws (token_view v') f s = 0"
    using assms by (simp add: view_elapsed_def allowance_lapses)
qed

lemma stored_balance_range: "- (2 ^ 127) \<le> stored_balance x" "stored_balance x < 2 ^ 127"
  using sint_bounds [where 'w = 128]
  by (auto simp: stored_balance_def split: option.splits stored.splits)

lemma stored_allowance_range: "- (2 ^ 127) \<le> stored_allowance q x" "stored_allowance q x < 2 ^ 127"
  using sint_bounds [where 'w = 128]
  by (auto simp: stored_allowance_def split: option.splits stored.splits)

lemma token_ok_range:
  assumes "token_ok admin v"
  shows "0 \<le> bals (token_view v) a" "bals (token_view v) a < 2 ^ 127"
    "0 \<le> allws (token_view v) f s" "allws (token_view v) f s < 2 ^ 127"
proof -
  show "0 \<le> bals (token_view v) a" by (rule token_ok_balance [OF assms, of a]) simp_all
  show "0 \<le> allws (token_view v) f s"
    by (rule token_ok_allowance [OF assms, of f s]) (simp_all only: if_split, auto)
qed (simp_all add: stored_balance_range [simplified] stored_allowance_range [simplified])

lemma token_view_put:
  "token_view (v\<lparr>hv_store := (hv_store v)(balance_key a \<mapsto> StoredI128 n)\<rparr>) =
     (token_view v)\<lparr>bals := (bals (token_view v))(a := sint n)\<rparr>"
  "hv_seq v \<le> x \<or> sint n = 0 \<Longrightarrow>
   token_view (v\<lparr>hv_store := (hv_store v)(allowance_key f s \<mapsto>
     StoredAllowance \<lparr>av_amount = n, av_expiration_ledger = x\<rparr>)\<rparr>) =
     spec_approve f s (sint n) (token_view v)"
  by (auto simp: token_view_def stored_balance_def stored_allowance_def spec_approve_def
      fun_eq_iff not_less [symmetric])

lemma token_ok_put:
  "token_ok admin v \<Longrightarrow> 0 \<le> sint n \<Longrightarrow>
   token_ok admin (v\<lparr>hv_store := (hv_store v)(balance_key a \<mapsto> StoredI128 n)\<rparr>)"
  "token_ok admin v \<Longrightarrow> 0 \<le> sint n \<Longrightarrow>
   token_ok admin (v\<lparr>hv_store := (hv_store v)(allowance_key f s \<mapsto>
     StoredAllowance \<lparr>av_amount = n, av_expiration_ledger = x\<rparr>)\<rparr>)"
  by (auto simp: token_ok_def)

locale token_host_laws =
  fixes H :: "('env, 'addr) token_host" and good :: "'env \<Rightarrow> bool"
    and view :: "'env \<Rightarrow> 'addr host_view" and auth :: "'env \<Rightarrow> 'addr \<Rightarrow> bool"
  assumes seq_law: "good e \<Longrightarrow> host_sequence H e = hv_seq (view e)"
    and has_law: "good e \<Longrightarrow> host_has H d e k = Inr (hv_store (view e) (d, k) \<noteq> None)"
    and get_law: "good e \<Longrightarrow> host_get H d e k = Inr (hv_store (view e) (d, k))"
    and set_law: "good e \<Longrightarrow> host_set H d e k v = Inr e' \<Longrightarrow>
      good e' \<and> (\<exists>t. view e' = (view e)\<lparr>hv_store := (hv_store (view e))((d, k) \<mapsto> v), hv_ttl := t\<rparr> \<and>
        (\<forall>k'. hv_store (view e) (Persistent, k') \<noteq> None \<longrightarrow> hv_ttl (view e) k' \<le> t k'))"
    and extend_law: "good e \<Longrightarrow> host_extend_ttl H d e k threshold to = Inr e' \<Longrightarrow>
      good e' \<and> (\<exists>t. view e' = (view e)\<lparr>hv_ttl := t\<rparr> \<and> (\<forall>k'. hv_ttl (view e) k' \<le> t k') \<and>
        (d = Persistent \<longrightarrow> threshold \<le> to \<longrightarrow> unat to \<le> 518400 \<longrightarrow> unat threshold \<le> t k))"
    and extend_total: "good e \<Longrightarrow> hv_store (view e) (Persistent, k) \<noteq> None \<Longrightarrow> threshold \<le> to \<Longrightarrow>
      \<exists>e'. host_extend_ttl H Persistent e k threshold to = Inr e'"
    and extend_instance_law: "good e \<Longrightarrow> threshold \<le> to \<Longrightarrow>
      \<exists>e' i. host_extend_instance_ttl H e threshold to = Inr e' \<and> good e' \<and>
        view e' = (view e)\<lparr>hv_instance_ttl := i\<rparr> \<and> hv_instance_ttl (view e) \<le> i \<and>
        (unat to \<le> 518400 \<longrightarrow> unat threshold \<le> i)"
    and auth_law: "good e \<Longrightarrow> host_require_auth H e a = Inr e' \<Longrightarrow>
      auth e a \<and> good e' \<and> view e' = view e"
    and get_metadata_law: "good e \<Longrightarrow> hv_meta (view e) = Some md \<Longrightarrow> host_get_metadata H e = Inr md"
    and set_metadata_law: "good e \<Longrightarrow> host_set_metadata H e md = Inr e' \<Longrightarrow>
      good e' \<and> view e' = (view e)\<lparr>hv_meta := Some md\<rparr>"
    and publish_law: "good e \<Longrightarrow> host_publish H e ev = Inr e' \<Longrightarrow> good e' \<and> view e' = view e"
begin

lemma require_auth_step:
  assumes "good e" "token_ok admin (view e)" "host_require_auth H e a = Inr e'"
  shows "auth e a" "token_step good view admin e e' (\<lambda>t. t)"
  using auth_law [OF assms(1,3)] assms(2) by (simp_all add: token_step_def)

lemma publish_step:
  assumes "good e" "token_ok admin (view e)" "host_publish H e ev = Inr e'"
  shows "token_step good view admin e e' (\<lambda>t. t)"
  using publish_law [OF assms(1,3)] assms(2) by (simp add: token_step_def)

lemma extend_instance_step:
  assumes "good e" "token_ok admin (view e)"
  obtains e' where "extend_instance H e = Inr e'" "token_step good view admin e e' (\<lambda>t. t)"
    "hv_store (view e') = hv_store (view e)" "hv_ttl (view e') = hv_ttl (view e)"
    "unat INSTANCE_LIFETIME_THRESHOLD \<le> hv_instance_ttl (view e')"
proof -
  obtain e' i where e': "extend_instance H e = Inr e'" "good e'"
      "view e' = (view e)\<lparr>hv_instance_ttl := i\<rparr>" "hv_instance_ttl (view e) \<le> i"
      "unat INSTANCE_LIFETIME_THRESHOLD \<le> i"
    using extend_instance_law [OF assms(1) bump_covers_threshold(1)]
    by (auto simp: extend_instance_def)
  show ?thesis
    by (rule that [OF e'(1)]) (use e' assms(2) in \<open>auto simp: token_step_def token_keeps_def\<close>)
qed

lemma read_balance_step:
  assumes "good e" "token_ok admin (view e)"
  obtains b e' where "read_balance H e a = Inr (b, e')" "sint b = bals (token_view (view e)) a"
    "token_step good view admin e e' (\<lambda>t. t)" "hv_store (view e') = hv_store (view e)"
    "hv_store (view e) (balance_key a) \<noteq> None \<longrightarrow>
      unat BALANCE_LIFETIME_THRESHOLD \<le> hv_ttl (view e') (BalanceKey a)"
proof (rule token_ok_balance [OF assms(2), of a])
  assume "hv_store (view e) (balance_key a) = None" "bals (token_view (view e)) a = 0"
  then show ?thesis
    using assms that [of 0 e]
    by (simp add: read_balance_def get_i128_def get_law token_step_def)
next
  fix b
  assume b: "hv_store (view e) (balance_key a) = Some (StoredI128 b)"
    "bals (token_view (view e)) a = sint b"
  obtain e' where e': "host_extend_ttl H Persistent e (BalanceKey a) BALANCE_LIFETIME_THRESHOLD
      BALANCE_BUMP_AMOUNT = Inr e'"
    using extend_total [OF assms(1) _ bump_covers_threshold(2), of "BalanceKey a"] b by auto
  moreover note bump_covers_threshold(2) extend_law [OF assms(1) e']
  ultimately show ?thesis
    using assms b that [of b e']
    by (auto simp: read_balance_def get_i128_def get_law token_step_def token_keeps_def)
qed

lemma write_balance_step:
  assumes "good e" "token_ok admin (view e)" "write_balance H e a n = Inr e'" "0 \<le> sint n"
  shows "token_step good view admin e e' (\<lambda>t. t\<lparr>bals := (bals t)(a := sint n)\<rparr>)"
proof -
  let ?store = "(hv_store (view e))(balance_key a \<mapsto> StoredI128 n)"
  from assms(3) obtain e1 where e1: "host_set H Persistent e (BalanceKey a) (StoredI128 n) = Inr e1"
      "host_extend_ttl H Persistent e1 (BalanceKey a) BALANCE_LIFETIME_THRESHOLD
        BALANCE_BUMP_AMOUNT = Inr e'"
    by (auto simp: write_balance_def bnd_Inr_iff Let_def)
  obtain t where t: "good e1" "view e1 = (view e)\<lparr>hv_store := ?store, hv_ttl := t\<rparr>"
      "\<forall>k. hv_store (view e) (Persistent, k) \<noteq> None \<longrightarrow> hv_ttl (view e) k \<le> t k"
    using set_law [OF assms(1) e1(1)] by blast
  obtain u where u: "good e'" "view e' = (view e1)\<lparr>hv_ttl := u\<rparr>" "\<forall>k. hv_ttl (view e1) k \<le> u k"
      "unat BALANCE_LIFETIME_THRESHOLD \<le> u (BalanceKey a)"
    using extend_law [OF t(1) e1(2)] by (auto simp: word_le_nat_alt)
  have v: "view e' = (view e)\<lparr>hv_store := ?store, hv_ttl := u\<rparr>" "\<forall>k. t k \<le> u k"
    using t u by simp_all
  have "token_keeps (view e) (view e')"
    using t(3) v u(4) by (auto simp: token_keeps_def intro: le_trans)
  moreover have "token_view (view e') =
      (token_view (view e))\<lparr>bals := (bals (token_view (view e)))(a := sint n)\<rparr>"
    unfolding v(1) using token_view_put(1) by simp
  moreover have "token_ok admin (view e')"
    unfolding v(1) using token_ok_put(1) [OF assms(2,4)] by simp
  ultimately show ?thesis using u(1) by (simp add: token_step_def)
qed

lemma receive_balance_step:
  assumes "good e" "token_ok admin (view e)" "receive_balance H e a n = Inr e'" "0 \<le> sint n"
  shows "token_step good view admin e e' (spec_mint a (sint n))"
proof -
  obtain b e1 where b: "read_balance H e a = Inr (b, e1)" "sint b = bals (token_view (view e)) a"
      "token_step good view admin e e1 (\<lambda>t. t)"
    by (rule read_balance_step [OF assms(1,2), of a])
  with assms(3) obtain m where m: "sint m = sint b + sint n" "write_balance H e1 a m = Inr e'"
    by (auto simp: receive_balance_def bnd_Inr_iff checked_sadd_Some)
  have "0 \<le> sint m"
    using m(1) b(2) assms(4) token_ok_range(1) [OF assms(2), of a] by simp
  then show ?thesis
    using token_step_trans [OF b(3) write_balance_step [OF _ _ m(2)]] b(2,3) m(1)
    by (simp add: token_step_def spec_mint_def)
qed

lemma spend_balance_step:
  assumes "good e" "token_ok admin (view e)" "spend_balance H e a n = Inr e'" "0 \<le> sint n"
  shows "token_step good view admin e e' (spec_burn a (sint n))"
    and "sint n \<le> bals (token_view (view e)) a"
proof -
  obtain b e1 where b: "read_balance H e a = Inr (b, e1)" "sint b = bals (token_view (view e)) a"
      "token_step good view admin e e1 (\<lambda>t. t)"
    by (rule read_balance_step [OF assms(1,2), of a])
  with assms(3) obtain m where m: "sint n \<le> sint b" "sint m = sint b - sint n"
      "write_balance H e1 a m = Inr e'"
    by (auto simp: spend_balance_def bnd_Inr_iff checked_ssub_Some split: if_splits)
  then show "token_step good view admin e e' (spec_burn a (sint n))"
    using token_step_trans [OF b(3) write_balance_step [OF _ _ m(3)]] b(2,3)
    by (simp add: token_step_def spec_burn_def)
  show "sint n \<le> bals (token_view (view e)) a" using m(1) b(2) by simp
qed

lemma read_allowance_ok:
  assumes "good e" "token_ok admin (view e)"
  obtains al where "read_allowance H e f s = Inr al"
    "sint (av_amount al) = allws (token_view (view e)) f s"
    "sint (av_amount al) = 0 \<or> hv_seq (view e) \<le> av_expiration_ledger al"
proof (rule token_ok_allowance [OF assms(2), of f s])
  assume "hv_store (view e) (allowance_key f s) = None" "allws (token_view (view e)) f s = 0"
  then show ?thesis
    using assms that by (simp add: read_allowance_def get_allowance_value_def get_law)
next
  fix al
  assume "hv_store (view e) (allowance_key f s) = Some (StoredAllowance al)"
    "allws (token_view (view e)) f s =
      (if av_expiration_ledger al < hv_seq (view e) then 0 else sint (av_amount al))"
  then show ?thesis
    using assms that
    by (simp add: read_allowance_def get_allowance_value_def get_law seq_law not_less
        split: if_splits)
qed

lemma write_allowance_step:
  assumes "good e" "token_ok admin (view e)" "write_allowance H e f s n x = Inr e'" "0 \<le> sint n"
  shows "token_step good view admin e e' (spec_approve f s (sint n))"
    and "hv_store (view e') (allowance_key f s) =
      Some (StoredAllowance \<lparr>av_amount = n, av_expiration_ledger = x\<rparr>)"
    and "hv_seq (view e) \<le> x \<or> sint n = 0"
proof -
  let ?val = "StoredAllowance \<lparr>av_amount = n, av_expiration_ledger = x\<rparr>"
  let ?store = "(hv_store (view e))(allowance_key f s \<mapsto> ?val)"
  from assms(3,4) obtain e1 where x: "hv_seq (view e) \<le> x \<or> sint n = 0" and
      e1: "host_set H Temporary e (snd (allowance_key f s)) ?val = Inr e1"
      "e' = e1 \<or>
       (\<exists>l. host_extend_ttl H Temporary e1 (snd (allowance_key f s)) l l = Inr e')"
    by (auto simp: write_allowance_def bnd_Inr_iff Let_def seq_law [OF assms(1)] not_less
        split: if_splits)
  obtain t where t: "good e1" "view e1 = (view e)\<lparr>hv_store := ?store, hv_ttl := t\<rparr>"
      "\<forall>k. hv_store (view e) (Persistent, k) \<noteq> None \<longrightarrow> hv_ttl (view e) k \<le> t k"
    using set_law [OF assms(1) e1(1)] by auto
  have "\<exists>u. good e' \<and> view e' = (view e1)\<lparr>hv_ttl := u\<rparr> \<and> (\<forall>k. hv_ttl (view e1) k \<le> u k)"
    using e1(2)
  proof
    assume "e' = e1"
    with t(1) show ?thesis by (auto intro: exI [of _ "hv_ttl (view e1)"])
  qed (use extend_law [OF t(1)] in blast)
  then obtain u where u: "good e'" "view e' = (view e)\<lparr>hv_store := ?store, hv_ttl := u\<rparr>"
      "\<forall>k. t k \<le> u k"
    using t(2) by auto
  have "token_keeps (view e) (view e')"
    using t(3) u by (auto simp: token_keeps_def intro: le_trans)
  moreover have "token_view (view e') = spec_approve f s (sint n) (token_view (view e))"
    unfolding u(2) using token_view_put(2) [OF x] by simp
  moreover have "token_ok admin (view e')"
    unfolding u(2) using token_ok_put(2) [OF assms(2,4)] by simp
  ultimately show "token_step good view admin e e' (spec_approve f s (sint n))"
    using u(1) by (simp add: token_step_def)
  show "hv_store (view e') (allowance_key f s) = Some ?val" unfolding u(2) by simp
  show "hv_seq (view e) \<le> x \<or> sint n = 0" by (rule x)
qed

lemma spend_allowance_step:
  assumes "good e" "token_ok admin (view e)" "spend_allowance H e f s n = Inr e'" "0 \<le> sint n"
  shows "token_step good view admin e e' (spec_spend f s (sint n))"
    and "sint n \<le> allws (token_view (view e)) f s"
proof -
  obtain al where al: "read_allowance H e f s = Inr al"
      "sint (av_amount al) = allws (token_view (view e)) f s"
    by (rule read_allowance_ok [OF assms(1,2), of f s])
  with assms(3) obtain m where m: "sint n \<le> sint (av_amount al)"
      "sint m = sint (av_amount al) - sint n"
      "write_allowance H e f s m (av_expiration_ledger al) = Inr e'"
    by (auto simp: spend_allowance_def bnd_Inr_iff checked_ssub_Some split: if_splits)
  then show "token_step good view admin e e' (spec_spend f s (sint n))"
    using write_allowance_step(1) [OF assms(1,2) m(3)] al(2) by (simp add: token_step_def spec_spend_def)
  show "sint n \<le> allws (token_view (view e)) f s" using m(1) al(2) by simp
qed

text \<open>
  An allowance that covers the amount and is not expired is spent without the panics of
  \<open>write_allowance\<close>: the expiry check and the subtraction of ledgers never fail there.
\<close>

lemma spend_allowance_reaches_host:
  assumes "good e" "token_ok admin (view e)" "0 \<le> sint n"
    and "sint n \<le> allws (token_view (view e)) f s"
    and "spend_allowance H e f s n = Inl p"
  shows "\<exists>v. host_set H Temporary e (snd (allowance_key f s)) (StoredAllowance v) = Inl p \<or>
    (\<exists>e1 l. host_set H Temporary e (snd (allowance_key f s)) (StoredAllowance v) = Inr e1 \<and>
      host_extend_ttl H Temporary e1 (snd (allowance_key f s)) l l = Inl p)"
proof -
  obtain al where al: "read_allowance H e f s = Inr al"
      "sint (av_amount al) = allws (token_view (view e)) f s"
      "sint (av_amount al) = 0 \<or> hv_seq (view e) \<le> av_expiration_ledger al"
    by (rule read_allowance_ok [OF assms(1,2), of f s])
  obtain m where m: "checked_ssub (av_amount al) n = Some m"
    using checked_ssub_nonneg [of "av_amount al" n] assms(3,4) al(2) by auto
  then have x: "\<not> (0 < sint m \<and> av_expiration_ledger al < hv_seq (view e))"
    using al assms(3) by (auto simp: checked_ssub_Some)
  let ?key = "AllowanceKey \<lparr>key_from = f, key_spender = s\<rparr>"
  let ?val = "StoredAllowance \<lparr>av_amount = m, av_expiration_ledger = av_expiration_ledger al\<rparr>"
  show ?thesis
  proof (cases "host_set H Temporary e ?key ?val")
    case (Inl q)
    then have "q = p"
      using assms(4,5) al m x by (simp add: spend_allowance_def write_allowance_def Let_def
          seq_law [OF assms(1)] not_less)
    with Inl show ?thesis by auto
  next
    case (Inr e1)
    have seq: "host_sequence H e1 = hv_seq (view e)"
      using set_law [OF assms(1) Inr] by (auto simp: seq_law)
    have "0 < sint m \<Longrightarrow> \<exists>l. checked_usub (av_expiration_ledger al) (hv_seq (view e)) = Some l"
      using x by (simp add: checked_usub_def word_le_nat_alt not_less)
    then have "\<exists>l. host_extend_ttl H Temporary e1 ?key l l = Inl p"
      using assms(4,5) al m x Inr seq
      by (auto simp: spend_allowance_def write_allowance_def Let_def seq_law [OF assms(1)] not_less
          split: if_splits)
    with Inr show ?thesis by auto
  qed
qed

section \<open>Entry points\<close>

lemma check_nonnegative_Inr: "check_nonnegative_amount n = Inr u \<longleftrightarrow> 0 \<le> sint n"
  by (auto simp: check_nonnegative_amount_def)

lemma read_administrator_ok:
  assumes "good e" "token_ok admin (view e)"
  shows "read_administrator H e = Inr admin"
  using assms by (simp add: read_administrator_def get_address_def get_law token_ok_def)

text \<open>
  The common frame of the entry points: authorization, amount check and instance bump change
  nothing of the abstract token, and whatever step follows is the step of the call.
\<close>

lemma guarded_call:
  assumes e: "good e" "token_ok admin (view e)"
    and call: "host_require_auth H e a = Inr e1" "0 \<le> sint n" "extend_instance H e1 = Inr e2"
  shows "good e2" "token_ok admin (view e2)" "token_view (view e2) = token_view (view e)"
    "token_step good view admin e2 e' step \<Longrightarrow> token_called good view auth admin e e' a n step"
proof -
  note auth = require_auth_step [OF e call(1)]
  then have e1: "good e1" "token_ok admin (view e1)" by (simp_all add: token_step_def)
  then have e2: "token_step good view admin e1 e2 (\<lambda>t. t)"
      "unat INSTANCE_LIFETIME_THRESHOLD \<le> hv_instance_ttl (view e2)"
    using extend_instance_step [OF e1] call(3) by auto
  then show "good e2" "token_ok admin (view e2)" "token_view (view e2) = token_view (view e)"
    using auth(2) by (simp_all add: token_step_def)
  assume step: "token_step good view admin e2 e' step"
  then have "token_step good view admin e e' step"
    using token_step_trans [OF token_step_trans [OF auth(2) e2(1)]] by auto
  moreover have "unat INSTANCE_LIFETIME_THRESHOLD \<le> hv_instance_ttl (view e')"
    using e2(2) step by (simp add: token_step_def token_keeps_def)
  ultimately show "token_called good view auth admin e e' a n step"
    using auth(1) call(2) by (simp add: token_called_def)
qed

lemma then_publish:
  assumes "token_step good view admin e e1 f" "host_publish H e1 ev = Inr e'"
  shows "token_step good view admin e e' f"
  using assms token_step_trans [OF assms(1) publish_step [OF _ _ assms(2)]]
  by (simp add: token_step_def)

lemma mint_step:
  assumes "good e" "token_ok admin (view e)" "token_mint H e to n = Inr e'"
  shows "token_called good view auth admin e e' admin n (spec_mint to (sint n))"
proof -
  from assms obtain e1 e2 e3 where call: "host_require_auth H e admin = Inr e1" "0 \<le> sint n"
      "extend_instance H e1 = Inr e2"
    and work: "receive_balance H e2 to n = Inr e3" "host_publish H e3 (MintEvent admin to n) = Inr e'"
    by (auto simp: token_mint_def bnd_Inr_iff check_nonnegative_Inr read_administrator_ok)
  note g = guarded_call [OF assms(1,2) call]
  show ?thesis
    by (rule g(4) [OF then_publish [OF receive_balance_step [OF g(1,2) work(1) call(2)] work(2)]])
qed

lemma approve_step:
  assumes "good e" "token_ok admin (view e)" "token_approve H e from spender n x = Inr e'"
  shows "token_called good view auth admin e e' from n (spec_approve from spender (sint n))"
    and "hv_store (view e') (allowance_key from spender) =
      Some (StoredAllowance \<lparr>av_amount = n, av_expiration_ledger = x\<rparr>)"
    and "hv_seq (view e) \<le> x \<or> sint n = 0"
proof -
  from assms(3) obtain e1 e2 e3 where call: "host_require_auth H e from = Inr e1" "0 \<le> sint n"
      "extend_instance H e1 = Inr e2"
    and work: "write_allowance H e2 from spender n x = Inr e3"
      "host_publish H e3 (ApproveEvent from spender n x) = Inr e'"
    by (auto simp: token_approve_def bnd_Inr_iff check_nonnegative_Inr)
  note g = guarded_call [OF assms(1,2) call]
  note w = write_allowance_step [OF g(1,2) work(1) call(2)]
  show called: "token_called good view auth admin e e' from n (spec_approve from spender (sint n))"
    by (rule g(4) [OF then_publish [OF w(1) work(2)]])
  have "view e' = view e3"
    using publish_law [OF _ work(2)] w(1) by (simp add: token_step_def)
  with w(2) show "hv_store (view e') (allowance_key from spender) =
      Some (StoredAllowance \<lparr>av_amount = n, av_expiration_ledger = x\<rparr>)"
    by simp
  have "hv_seq (view e3) = hv_seq (view e2)" using w(1) by (simp add: token_step_def token_keeps_def)
  moreover have "hv_seq (view e') = hv_seq (view e)"
    using called by (simp add: token_called_def token_step_def token_keeps_def)
  ultimately show "hv_seq (view e) \<le> x \<or> sint n = 0"
    using w(3) \<open>view e' = view e3\<close> by simp
qed

lemma burn_step:
  assumes "good e" "token_ok admin (view e)" "token_burn H e from n = Inr e'"
  shows "token_called good view auth admin e e' from n (spec_burn from (sint n))"
    and "sint n \<le> bals (token_view (view e)) from"
proof -
  from assms(3) obtain e1 e2 e3 where call: "host_require_auth H e from = Inr e1" "0 \<le> sint n"
      "extend_instance H e1 = Inr e2"
    and work: "spend_balance H e2 from n = Inr e3" "host_publish H e3 (BurnEvent from n) = Inr e'"
    by (auto simp: token_burn_def bnd_Inr_iff check_nonnegative_Inr)
  note g = guarded_call [OF assms(1,2) call]
  note spend = spend_balance_step [OF g(1,2) work(1) call(2)]
  show "token_called good view auth admin e e' from n (spec_burn from (sint n))"
    by (rule g(4) [OF then_publish [OF spend(1) work(2)]])
  show "sint n \<le> bals (token_view (view e)) from" using spend(2) g(3) by simp
qed

text \<open>Moving tokens: a spent balance followed by a received one.\<close>

lemma move_step:
  assumes "good e" "token_ok admin (view e)" "0 \<le> sint n"
    and "spend_balance H e from n = Inr e1" "receive_balance H e1 to n = Inr e2"
  shows "token_step good view admin e e2 (spec_transfer from to (sint n))"
    and "sint n \<le> bals (token_view (view e)) from"
proof -
  note spend = spend_balance_step [OF assms(1,2,4,3)]
  then show "token_step good view admin e e2 (spec_transfer from to (sint n))"
    using token_step_trans [OF spend(1) receive_balance_step [OF _ _ assms(5,3)]]
    by (simp add: token_step_def spec_transfer_def)
  show "sint n \<le> bals (token_view (view e)) from" by (rule spend(2))
qed

lemma transfer_step:
  assumes "good e" "token_ok admin (view e)" "token_transfer H e from to n = Inr e'"
  shows "token_called good view auth admin e e' from n (spec_transfer from to (sint n))"
    and "sint n \<le> bals (token_view (view e)) from"
proof -
  from assms(3) obtain e1 e2 e3 e4 where call: "host_require_auth H e from = Inr e1" "0 \<le> sint n"
      "extend_instance H e1 = Inr e2"
    and work: "spend_balance H e2 from n = Inr e3" "receive_balance H e3 to n = Inr e4"
      "host_publish H e4 (TransferEvent from to n) = Inr e'"
    by (auto simp: token_transfer_def bnd_Inr_iff check_nonnegative_Inr)
  note g = guarded_call [OF assms(1,2) call]
  note move = move_step [OF g(1,2) call(2) work(1,2)]
  show "token_called good view auth admin e e' from n (spec_transfer from to (sint n))"
    by (rule g(4) [OF then_publish [OF move(1) work(3)]])
  show "sint n \<le> bals (token_view (view e)) from" using move(2) g(3) by simp
qed

lemma bals_spec_spend [simp]: "bals (spec_spend f s n t) = bals t"
  by (simp add: spec_spend_def spec_approve_def)

lemma transfer_from_step:
  assumes "good e" "token_ok admin (view e)" "token_transfer_from H e spender from to n = Inr e'"
  shows "token_called good view auth admin e e' spender n
      (spec_transfer_from spender from to (sint n))"
    and "sint n \<le> bals (token_view (view e)) from" "sint n \<le> allws (token_view (view e)) from spender"
proof -
  from assms(3) obtain e1 e2 e3 e4 e5 where
    call: "host_require_auth H e spender = Inr e1" "0 \<le> sint n" "extend_instance H e1 = Inr e2"
    and work: "spend_allowance H e2 from spender n = Inr e3" "spend_balance H e3 from n = Inr e4"
      "receive_balance H e4 to n = Inr e5" "host_publish H e5 (TransferEvent from to n) = Inr e'"
    by (auto simp: token_transfer_from_def bnd_Inr_iff check_nonnegative_Inr)
  note g = guarded_call [OF assms(1,2) call]
  note spend = spend_allowance_step [OF g(1,2) work(1) call(2)]
  then have e3: "good e3" "token_ok admin (view e3)"
    "token_view (view e3) = spec_spend from spender (sint n) (token_view (view e2))"
    by (simp_all add: token_step_def)
  note move = move_step [OF e3(1,2) call(2) work(2,3)]
  show "token_called good view auth admin e e' spender n
      (spec_transfer_from spender from to (sint n))"
    using g(4) [OF then_publish [OF token_step_trans [OF spend(1) move(1)] work(4)]]
    by (simp add: spec_transfer_from_def [abs_def])
  show "sint n \<le> bals (token_view (view e)) from"
    using move(2) unfolding e3(3) g(3) bals_spec_spend .
  show "sint n \<le> allws (token_view (view e)) from spender" using spend(2) unfolding g(3) .
qed

lemma burn_from_step:
  assumes "good e" "token_ok admin (view e)" "token_burn_from H e spender from n = Inr e'"
  shows "token_called good view auth admin e e' spender n (spec_burn_from spender from (sint n))"
    and "sint n \<le> bals (token_view (view e)) from" "sint n \<le> allws (token_view (view e)) from spender"
proof -
  from assms(3) obtain e1 e2 e3 e4 where
    call: "host_require_auth H e spender = Inr e1" "0 \<le> sint n" "extend_instance H e1 = Inr e2"
    and work: "spend_allowance H e2 from spender n = Inr e3" "spend_balance H e3 from n = Inr e4"
      "host_publish H e4 (BurnEvent from n) = Inr e'"
    by (auto simp: token_burn_from_def bnd_Inr_iff check_nonnegative_Inr)
  note g = guarded_call [OF assms(1,2) call]
  note spend = spend_allowance_step [OF g(1,2) work(1) call(2)]
  then have e3: "good e3" "token_ok admin (view e3)"
    "token_view (view e3) = spec_spend from spender (sint n) (token_view (view e2))"
    by (simp_all add: token_step_def)
  note burn = spend_balance_step [OF e3(1,2) work(2) call(2)]
  show "token_called good view auth admin e e' spender n (spec_burn_from spender from (sint n))"
    using g(4) [OF then_publish [OF token_step_trans [OF spend(1) burn(1)] work(3)]]
    by (simp add: spec_burn_from_def [abs_def])
  show "sint n \<le> bals (token_view (view e)) from"
    using burn(2) unfolding e3(3) g(3) bals_spec_spend .
  show "sint n \<le> allws (token_view (view e)) from spender" using spend(2) unfolding g(3) .
qed

text \<open>Handing over the administration: the new administrator is the old one's choice.\<close>

lemma set_admin_step:
  assumes "good e" "token_ok admin (view e)" "token_set_admin H e new_admin = Inr e'"
  shows "auth e admin" "good e'" "token_ok new_admin (view e')"
    "token_view (view e') = token_view (view e)"
proof -
  from assms obtain e1 e2 e3 where call: "host_require_auth H e admin = Inr e1"
      "extend_instance H e1 = Inr e2" "host_set H Instance e2 AdminKey (StoredAddress new_admin) = Inr e3"
      "host_publish H e3 (SetAdminEvent admin new_admin) = Inr e'"
    by (auto simp: token_set_admin_def bnd_Inr_iff read_administrator_ok write_administrator_def)
  note g = guarded_call [OF assms(1,2) call(1) _ call(2), of 0, simplified]
  obtain t where t: "good e3" "view e3 = (view e2)\<lparr>hv_store := (hv_store (view e2))
      ((Instance, AdminKey) \<mapsto> StoredAddress new_admin), hv_ttl := t\<rparr>"
    using set_law [OF g(1) call(3)] by blast
  show "auth e admin" using require_auth_step(1) [OF assms(1,2) call(1)] .
  show "good e'" using publish_law [OF t(1) call(4)] by simp
  have v: "view e' = view e3" using publish_law [OF t(1) call(4)] by simp
  show "token_ok new_admin (view e')"
    using g(2) unfolding v t(2) by (simp add: token_ok_def)
  have "token_view (view e') = token_view (view e2)"
    unfolding v t(2) by (simp add: token_view_def)
  then show "token_view (view e') = token_view (view e)" using g(3) by simp
qed

text \<open>Initialization establishes the invariant, and is not repeated.\<close>

lemma initialize_step:
  assumes "good e" "\<And>d k. hv_store (view e) (d, k) = None"
    and "token_initialize H e admin dec nm sb = Inr e'"
  shows "good e'" "token_ok admin (view e')" "dec \<le> 255"
    "token_view (view e') = \<lparr>bals = (\<lambda>_. 0), allws = (\<lambda>_ _. 0), meta = (nm, sb, dec)\<rparr>"
    "hv_seq (view e') = hv_seq (view e)" "hv_instance_ttl (view e') = hv_instance_ttl (view e)"
    "hv_store (view e') (Persistent, k) = None"
proof -
  from assms obtain e1 where call: "host_set H Instance e AdminKey (StoredAddress admin) = Inr e1"
      "\<not> 255 < dec"
      "host_set_metadata H e1 \<lparr>md_decimal = dec, md_name = nm, md_symbol = sb\<rparr> = Inr e'"
    by (auto simp: token_initialize_def bnd_Inr_iff has_administrator_def write_administrator_def
        write_metadata_def split: if_splits)
  obtain t where t: "good e1" "view e1 = (view e)\<lparr>hv_store := (hv_store (view e))
      ((Instance, AdminKey) \<mapsto> StoredAddress admin), hv_ttl := t\<rparr>"
    using set_law [OF assms(1) call(1)] by blast
  note m = set_metadata_law [OF t(1) call(3)]
  then have v: "view e' = (view e)\<lparr>hv_store := (hv_store (view e))
      ((Instance, AdminKey) \<mapsto> StoredAddress admin), hv_ttl := t,
      hv_meta := Some \<lparr>md_decimal = dec, md_name = nm, md_symbol = sb\<rparr>\<rparr>"
    using t by simp
  show "good e'" using m by simp
  show "dec \<le> 255" using call(2) by simp
  show "token_ok admin (view e')" "hv_store (view e') (Persistent, k) = None"
    "hv_seq (view e') = hv_seq (view e)" "hv_instance_ttl (view e') = hv_instance_ttl (view e)"
    unfolding v by (simp_all add: token_ok_def assms(2))
  show "token_view (view e') = \<lparr>bals = (\<lambda>_. 0), allws = (\<lambda>_ _. 0), meta = (nm, sb, dec)\<rparr>"
    unfolding v by (simp add: token_view_def stored_balance_def stored_allowance_def assms(2))
qed

lemma initialize_once:
  assumes "good e" "token_ok admin (view e)"
  shows "token_initialize H e a dec nm sb = Inl (Panic ''already initialized'')"
  using assms by (simp add: token_initialize_def has_administrator_def has_law token_ok_def)

section \<open>Views and errors\<close>

lemma balance_view:
  assumes "good e" "token_ok admin (view e)"
  obtains b e' where "token_balance H e a = Inr (b, e')" "sint b = bals (token_view (view e)) a"
    "token_step good view admin e e' (\<lambda>t. t)"
    "unat INSTANCE_LIFETIME_THRESHOLD \<le> hv_instance_ttl (view e')"
    "hv_store (view e) (balance_key a) \<noteq> None \<longrightarrow>
      unat BALANCE_LIFETIME_THRESHOLD \<le> hv_ttl (view e') (BalanceKey a)"
proof -
  obtain e1 where e1: "extend_instance H e = Inr e1" "token_step good view admin e e1 (\<lambda>t. t)"
      "hv_store (view e1) = hv_store (view e)"
      "unat INSTANCE_LIFETIME_THRESHOLD \<le> hv_instance_ttl (view e1)"
    by (rule extend_instance_step [OF assms])
  then have "good e1" "token_ok admin (view e1)" by (simp_all add: token_step_def)
  then obtain b e' where b: "read_balance H e1 a = Inr (b, e')"
      "sint b = bals (token_view (view e1)) a" "token_step good view admin e1 e' (\<lambda>t. t)"
      "hv_store (view e1) (balance_key a) \<noteq> None \<longrightarrow>
        unat BALANCE_LIFETIME_THRESHOLD \<le> hv_ttl (view e') (BalanceKey a)"
    by (rule read_balance_step [of _ _ a])
  show ?thesis
  proof (rule that)
    show "token_balance H e a = Inr (b, e')" using e1(1) b(1) by (simp add: token_balance_def)
    show "sint b = bals (token_view (view e)) a" using b(2) e1(3) by simp
    show "token_step good view admin e e' (\<lambda>t. t)"
      using token_step_trans [OF e1(2) b(3)] by simp
    show "unat INSTANCE_LIFETIME_THRESHOLD \<le> hv_instance_ttl (view e')"
      using e1(4) b(3) by (simp add: token_step_def token_keeps_def)
  qed (use b(4) e1(3) in simp)
qed

lemma allowance_view:
  assumes "good e" "token_ok admin (view e)"
  obtains n e' where "token_allowance H e f s = Inr (n, e')"
    "sint n = allws (token_view (view e)) f s" "token_step good view admin e e' (\<lambda>t. t)"
    "unat INSTANCE_LIFETIME_THRESHOLD \<le> hv_instance_ttl (view e')"
proof -
  obtain e1 where e1: "extend_instance H e = Inr e1" "token_step good view admin e e1 (\<lambda>t. t)"
      "unat INSTANCE_LIFETIME_THRESHOLD \<le> hv_instance_ttl (view e1)"
    by (rule extend_instance_step [OF assms])
  then have "good e1" "token_ok admin (view e1)" by (simp_all add: token_step_def)
  then obtain al where "read_allowance H e1 f s = Inr al"
      "sint (av_amount al) = allws (token_view (view e1)) f s"
    by (rule read_allowance_ok [of _ _ f s])
  with e1 show ?thesis
    by (intro that [of "av_amount al" e1]) (simp_all add: token_allowance_def token_step_def)
qed

lemma metadata_view:
  assumes "good e" "token_ok admin (view e)"
  shows "\<exists>nm sb dec. token_name H e = Inr nm \<and> token_symbol H e = Inr sb \<and>
    token_decimals H e = Inr dec \<and> meta (token_view (view e)) = (nm, sb, dec)"
proof -
  obtain md where "hv_meta (view e) = Some md" using assms(2) by (auto simp: token_ok_def)
  then show ?thesis
    using get_metadata_law [OF assms(1)]
    by (simp add: token_name_def token_symbol_def token_decimals_def read_name_def read_symbol_def
        read_decimal_def token_view_def)
qed

end

end
