(* ===== verification/Book.thy ===== *)
theory Book
  imports Fuzz Token_Spec
begin

text \<open>
  The fuzzer's book implements the abstract token: \<open>book_view\<close> is its abstraction, and each
  mirror of a successful call either panics or commutes with the operation of \<open>Token_Spec\<close>. The
  book also stays balanced: the tracked balances of the accounts sum up to mints minus burns.
\<close>

definition book_view :: "('env, 'addr, 'key) sdk \<Rightarrow> contract_state \<Rightarrow> 'addr token_state" where
  "book_view S cs =
     \<lparr>bals = tracked_balance S cs, allws = tracked_allowance S cs, meta = book_meta cs\<rparr>"

lemma book_view_sums [simp]:
  "book_view S (cs\<lparr>sum_of_mints := m\<rparr>) = book_view S cs"
  "book_view S (cs\<lparr>sum_of_burns := m\<rparr>) = book_view S cs"
  by (simp_all add: book_view_def)

definition minted_minus_burned :: "contract_state \<Rightarrow> int" where
  "minted_minus_burned cs = sum_of_mints cs - sum_of_burns cs"

lemma minted_minus_burned_simps [simp]:
  "minted_minus_burned (cs\<lparr>balances := B\<rparr>) = minted_minus_burned cs"
  "minted_minus_burned (cs\<lparr>allowances := A\<rparr>) = minted_minus_burned cs"
  "minted_minus_burned (cs\<lparr>sum_of_mints := sum_of_mints cs + n\<rparr>) = minted_minus_burned cs + n"
  "minted_minus_burned (cs\<lparr>sum_of_burns := sum_of_burns cs + n\<rparr>) = minted_minus_burned cs - n"
  by (simp_all add: minted_minus_burned_def)

text \<open>How far the balances of the accounts are from mints minus burns.\<close>

definition imbalance :: "('env, 'addr, 'key) sdk \<Rightarrow> 'addr list \<Rightarrow> contract_state \<Rightarrow> int" where
  "imbalance S as cs = total_supply as (book_view S cs) - minted_minus_burned cs"

context sdk_strings
begin

lemma book_put_balance:
  "book_view S (cs\<lparr>balances := (balances cs)(address_to_string S a \<mapsto> v)\<rparr>) =
     (book_view S cs)\<lparr>bals := (bals (book_view S cs))(a := sint v)\<rparr>"
  by (simp add: book_view_def tracked_balance_put)

lemma book_put_allowance:
  "book_view S
     (cs\<lparr>allowances := (allowances cs)((address_to_string S f, address_to_string S s) \<mapsto> v)\<rparr>) =
   spec_approve f s (sint v) (book_view S cs)"
  by (simp add: book_view_def tracked_allowance_put spec_approve_def)

lemma add_balance_refines:
  assumes "add_balance S cs a n = Inr cs'"
  shows "book_view S cs' = spec_mint a (sint n) (book_view S cs)"
    and "minted_minus_burned cs' = minted_minus_burned cs"
    and "0 \<le> bals (book_view S cs) a + sint n"
  using assms
  by (auto simp: add_balance_Inr book_put_balance spec_mint_def) (auto simp: book_view_def)

lemma sub_balance_refines:
  assumes "sub_balance S cs a n = Inr cs'"
  shows "book_view S cs' = spec_burn a (sint n) (book_view S cs)"
    and "minted_minus_burned cs' = minted_minus_burned cs"
    and "0 \<le> bals (book_view S cs) a - sint n"
  using assms
  by (auto simp: sub_balance_Inr book_put_balance spec_burn_def) (auto simp: book_view_def)

lemma set_allowance_refines:
  assumes "set_allowance S cs f s n = Inr cs'"
  shows "book_view S cs' = spec_approve f s (sint n) (book_view S cs)"
    and "minted_minus_burned cs' = minted_minus_burned cs"
    and "0 \<le> sint n"
  using assms by (auto simp: set_allowance_Inr book_put_allowance)

lemma sub_allowance_refines:
  assumes "sub_allowance S cs f s n = Inr cs'"
  shows "book_view S cs' = spec_spend f s (sint n) (book_view S cs)"
    and "minted_minus_burned cs' = minted_minus_burned cs"
    and "0 \<le> allws (book_view S cs) f s - sint n"
  using assms
  by (auto simp: sub_allowance_Inr book_put_allowance spec_spend_def) (auto simp: book_view_def)

lemmas book_refines = add_balance_refines sub_balance_refines set_allowance_refines
  sub_allowance_refines

text \<open>Totality: where the new value is representable and not negative, the operation returns.\<close>

lemma add_balance_total:
  assumes "0 \<le> bals (book_view S cs) a + sint n" "bals (book_view S cs) a + sint n < 2 ^ 127"
  obtains cs' where "add_balance S cs a n = Inr cs'"
  using assms sint_of_int_id [where 'w = 128, of "tracked_balance S cs a + sint n"]
  by (fastforce simp: add_balance_Inr book_view_def)

lemma sub_balance_total:
  assumes "0 \<le> bals (book_view S cs) a - sint n" "bals (book_view S cs) a - sint n < 2 ^ 127"
  obtains cs' where "sub_balance S cs a n = Inr cs'"
  using assms sint_of_int_id [where 'w = 128, of "tracked_balance S cs a - sint n"]
  by (fastforce simp: sub_balance_Inr book_view_def)

lemma sub_allowance_total:
  assumes "0 \<le> allws (book_view S cs) f s - sint n" "allws (book_view S cs) f s - sint n < 2 ^ 127"
  obtains cs' where "sub_allowance S cs f s n = Inr cs'"
  using assms sint_of_int_id [where 'w = 128, of "tracked_allowance S cs f s - sint n"]
  by (fastforce simp: sub_allowance_Inr book_view_def)

section \<open>Mirrors\<close>

text \<open>A mirror refines a step of the abstract token and moves mints minus burns by \<open>d\<close>.\<close>

lemma mirror_refines:
  "mirror_mint S to n cs = Inr cs' \<Longrightarrow>
     book_view S cs' = spec_mint to (sint n) (book_view S cs) \<and>
     minted_minus_burned cs' = minted_minus_burned cs + sint n"
  "mirror_approve S from spender n cs = Inr cs' \<Longrightarrow>
     book_view S cs' = spec_approve from spender (sint n) (book_view S cs) \<and>
     minted_minus_burned cs' = minted_minus_burned cs"
  "mirror_transfer S from to n cs = Inr cs' \<Longrightarrow>
     book_view S cs' = spec_transfer from to (sint n) (book_view S cs) \<and>
     minted_minus_burned cs' = minted_minus_burned cs"
  "mirror_burn S from n cs = Inr cs' \<Longrightarrow>
     book_view S cs' = spec_burn from (sint n) (book_view S cs) \<and>
     minted_minus_burned cs' = minted_minus_burned cs - sint n"
  "mirror_transfer_from S spender from to n cs = Inr cs' \<Longrightarrow>
     book_view S cs' = spec_transfer_from spender from to (sint n) (book_view S cs) \<and>
     minted_minus_burned cs' = minted_minus_burned cs"
  "mirror_burn_from S spender from n cs = Inr cs' \<Longrightarrow>
     book_view S cs' = spec_burn_from spender from (sint n) (book_view S cs) \<and>
     minted_minus_burned cs' = minted_minus_burned cs - sint n"
  by (auto simp: mirror_defs bnd_Inr_iff book_refines spec_transfer_def spec_transfer_from_def
      spec_burn_from_def spec_spend_def spec_approve_def spec_mint_def spec_burn_def)

section \<open>Commands keep the book balanced and non-negative\<close>

lemma book_ok_ops:
  assumes "book_ok cs"
  shows "add_balance S cs a n = Inr cs' \<Longrightarrow> book_ok cs'"
    and "sub_balance S cs a n = Inr cs' \<Longrightarrow> book_ok cs'"
    and "set_allowance S cs f s n = Inr cs' \<Longrightarrow> book_ok cs'"
    and "sub_allowance S cs f s n = Inr cs' \<Longrightarrow> book_ok cs'"
  using assms
  by (auto simp: add_balance_Inr sub_balance_Inr set_allowance_Inr sub_allowance_Inr book_ok_def
      split: if_splits)

lemma book_ok_mirror:
  assumes "book_ok cs"
  shows "mirror_mint S to n cs = Inr cs' \<Longrightarrow> book_ok cs'"
    and "mirror_approve S from spender n cs = Inr cs' \<Longrightarrow> book_ok cs'"
    and "mirror_transfer S from to n cs = Inr cs' \<Longrightarrow> book_ok cs'"
    and "mirror_burn S from n cs = Inr cs' \<Longrightarrow> book_ok cs'"
    and "mirror_transfer_from S spender from to n cs = Inr cs' \<Longrightarrow> book_ok cs'"
    and "mirror_burn_from S spender from n cs = Inr cs' \<Longrightarrow> book_ok cs'"
  using assms by (auto simp: mirror_defs bnd_Inr_iff) (blast intro: book_ok_ops)+

lemma run_call_keeps:
  assumes "run_call S tb cur fn auths vs call amount i mirror (env, cs, nonce) = Inr (env', cs', nonce')"
    and "\<And>cs'. mirror cs = Inr cs' \<Longrightarrow> Q cs'" and "Q cs"
  shows "Q cs'"
  using assms by (auto simp: on_ok_Inr elim!: run_call_Inr)

lemma imbalance_mirror:
  assumes "distinct as"
  shows "mirror_mint S to n cs = Inr cs' \<Longrightarrow> to \<in> set as \<Longrightarrow> imbalance S as cs' = imbalance S as cs"
    and "mirror_approve S from spender n cs = Inr cs' \<Longrightarrow> imbalance S as cs' = imbalance S as cs"
    and "mirror_transfer S from to n cs = Inr cs' \<Longrightarrow> from \<in> set as \<Longrightarrow> to \<in> set as \<Longrightarrow>
      imbalance S as cs' = imbalance S as cs"
    and "mirror_burn S from n cs = Inr cs' \<Longrightarrow> from \<in> set as \<Longrightarrow>
      imbalance S as cs' = imbalance S as cs"
    and "mirror_transfer_from S spender from to n cs = Inr cs' \<Longrightarrow> from \<in> set as \<Longrightarrow>
      to \<in> set as \<Longrightarrow> imbalance S as cs' = imbalance S as cs"
    and "mirror_burn_from S spender from n cs = Inr cs' \<Longrightarrow> from \<in> set as \<Longrightarrow>
      imbalance S as cs' = imbalance S as cs"
  using assms
  by (auto simp: imbalance_def supply_spec supply_spec_transfer dest!: mirror_refines)

text \<open>
  A property of the book that every mirror of a call between accounts of \<open>cur\<close> keeps is kept by
  every command.
\<close>

lemma exec_command_keeps:
  assumes "exec_command S tb cur c (env, cs, nonce) = Inr (env', cs', nonce')" and "Q cs"
    and Q: "\<And>a n cs cs'. Q cs \<Longrightarrow> a \<in> ts_address ` set (accounts cur) \<Longrightarrow>
        mirror_mint S a n cs = Inr cs' \<Longrightarrow> Q cs'"
      "\<And>a b n cs cs'. Q cs \<Longrightarrow> mirror_approve S a b n cs = Inr cs' \<Longrightarrow> Q cs'"
      "\<And>a b n cs cs'. Q cs \<Longrightarrow> a \<in> ts_address ` set (accounts cur) \<Longrightarrow>
        b \<in> ts_address ` set (accounts cur) \<Longrightarrow> mirror_transfer S a b n cs = Inr cs' \<Longrightarrow> Q cs'"
      "\<And>a n cs cs'. Q cs \<Longrightarrow> a \<in> ts_address ` set (accounts cur) \<Longrightarrow>
        mirror_burn S a n cs = Inr cs' \<Longrightarrow> Q cs'"
      "\<And>s a b n cs cs'. Q cs \<Longrightarrow> a \<in> ts_address ` set (accounts cur) \<Longrightarrow>
        b \<in> ts_address ` set (accounts cur) \<Longrightarrow> mirror_transfer_from S s a b n cs = Inr cs' \<Longrightarrow> Q cs'"
      "\<And>s a n cs cs'. Q cs \<Longrightarrow> a \<in> ts_address ` set (accounts cur) \<Longrightarrow>
        mirror_burn_from S s a n cs = Inr cs' \<Longrightarrow> Q cs'"
  shows "Q cs'"
proof -
  have approve: "Q cs'" if "exec_approve S tb cur i (env, cs, nonce) = Inr (env', cs', nonce')" "Q cs"
    for i env cs nonce env' cs' nonce'
    using that by (auto simp: exec_defs bnd_Inr_iff elim!: run_call_keeps [where Q = Q] intro: Q(2))
  have transfer_from: "Q cs'"
    if "exec_transfer_from S tb cur i (env, cs, nonce) = Inr (env', cs', nonce')" "Q cs"
    for i env cs nonce env' cs' nonce'
    using that by (auto simp: exec_defs bnd_Inr_iff elim!: run_call_keeps [where Q = Q])
      (erule (2) Q(5) [OF _ imageI imageI, OF _ nth_mem nth_mem])
  have burn_from: "Q cs'"
    if "exec_burn_from S tb cur i (env, cs, nonce) = Inr (env', cs', nonce')" "Q cs"
    for i env cs nonce env' cs' nonce'
    using that by (auto simp: exec_defs bnd_Inr_iff elim!: run_call_keeps [where Q = Q])
      (erule (1) Q(6) [OF _ imageI, OF _ nth_mem])
  show ?thesis
  proof (cases c)
    case (Mint i)
    with assms(1,2) show ?thesis
      by (auto simp: exec_defs bnd_Inr_iff elim!: run_call_keeps [where Q = Q])
        (erule (1) Q(1) [OF _ imageI, OF _ nth_mem])
  next
    case (Transfer i)
    with assms(1,2) show ?thesis
      by (auto simp: exec_defs bnd_Inr_iff elim!: run_call_keeps [where Q = Q])
        (erule (2) Q(3) [OF _ imageI imageI, OF _ nth_mem nth_mem])
  next
    case (Burn i)
    with assms(1,2) show ?thesis
      by (auto simp: exec_defs bnd_Inr_iff elim!: run_call_keeps [where Q = Q])
        (erule (1) Q(4) [OF _ imageI, OF _ nth_mem])
  qed (use assms(1,2) in \<open>auto simp: bnd_Inr_iff dest: approve transfer_from burn_from\<close>)
qed

lemma exec_command_balanced:
  assumes "exec_command S tb cur c (env, cs, nonce) = Inr (env', cs', nonce')"
    and "distinct (map ts_address (accounts cur))"
  shows "imbalance S (map ts_address (accounts cur)) cs' =
    imbalance S (map ts_address (accounts cur)) cs"
    (is "?imb cs' = ?imb cs")
proof (rule exec_command_keeps [OF assms(1), where Q = "\<lambda>x. ?imb x = ?imb cs"])
  show "?imb cs = ?imb cs" ..
qed (simp_all add: imbalance_mirror [OF assms(2)])

lemma exec_command_book_ok:
  assumes "exec_command S tb cur c (env, cs, nonce) = Inr (env', cs', nonce')" and "book_ok cs"
  shows "book_ok cs'"
  by (rule exec_command_keeps [OF assms(1), where Q = book_ok])
    (fact assms(2), (erule book_ok_mirror, assumption)+)

end

end
