(* ===== verification/Token_Contract.thy ===== *)
theory Token_Contract
  imports Book
begin

text \<open>
  No false alarms: what the fuzzer does with a token that keeps the contract of the token
  interface. The locale \<open>token_contract\<close> states that contract, call by call, over a ghost function
  \<open>obs\<close> that gives the abstract token of an \<open>Env\<close>: a call either fails and changes nothing, or was
  authorized, had a valid amount and performed its step. The lemmas show that no assertion of
  the fuzzer fails on such a token; the only panic left is the report of an unexpected panic of
  the contract (\<open>unexpected_panic\<close>), which a token that never fails that way (\<open>quiet\<close>) rules out.
\<close>

definition unexpected_panic :: panic where
  "unexpected_panic = Panic ''contract failed with InvalidAction - unexpected panic?''"

text \<open>The run returns a value with \<open>P\<close>, or, unless \<open>quiet\<close>, reports an unexpected panic.\<close>

definition sound :: "bool \<Rightarrow> panic + 'a \<Rightarrow> ('a \<Rightarrow> bool) \<Rightarrow> bool" where
  "sound quiet m P \<longleftrightarrow> (case m of Inr a \<Rightarrow> P a | Inl p \<Rightarrow> \<not> quiet \<and> p = unexpected_panic)"

lemma sound_simps [simp]:
  "sound quiet (Inr a) P = P a"
  "sound quiet (Inl p) P = (\<not> quiet \<and> p = unexpected_panic)"
  by (simp_all add: sound_def)

lemma sound_bnd:
  assumes "sound quiet m P" "\<And>a. P a \<Longrightarrow> sound quiet (f a) Q"
  shows "sound quiet (bnd m f) Q"
  using assms by (cases m) auto

lemma sound_mono: "sound quiet m P \<Longrightarrow> (\<And>a. P a \<Longrightarrow> Q a) \<Longrightarrow> sound quiet m Q"
  by (cases m) auto

lemma sound_fold:
  assumes "P 0 s" "\<And>k s. k < length xs \<Longrightarrow> P k s \<Longrightarrow> sound quiet (f (xs ! k) s) (P (Suc k))"
  shows "sound quiet (fold_may f xs s) (P (length xs))"
  using assms
proof (induction xs arbitrary: P s)
  case Nil
  then show ?case by simp
next
  case (Cons x xs)
  have "sound quiet (bnd (f x s) (fold_may f xs)) (P (Suc (length xs)))"
  proof (rule sound_bnd)
    show "sound quiet (f x s) (P 1)" using Cons.prems(2) [of 0 s] Cons.prems(1) by simp
  next
    fix s'
    assume "P 1 s'"
    then show "sound quiet (fold_may f xs s') (P (Suc (length xs)))"
      using Cons.prems(2) [of "Suc _"] by (intro Cons.IH [where P = "\<lambda>k. P (Suc k)"]) auto
  qed
  then show ?case by simp
qed

lemma verify_sound:
  assumes "quiet \<Longrightarrow> r \<noteq> Err (Ok (Error WasmVm InvalidAction))"
  shows "sound quiet (verify_token_contract_result r)
    (\<lambda>_. r \<noteq> Err (Ok (Error WasmVm InvalidAction)))"
  using assms verify_ok [of r]
  by (auto simp: sound_def verify_token_contract_result_def unexpected_panic_def
      split: result.splits error.splits)

section \<open>Mirrors of valid steps\<close>

definition spec_range :: "'addr set \<Rightarrow> 'addr token_state \<Rightarrow> bool" where
  "spec_range A t \<longleftrightarrow>
     (\<forall>a\<in>A. 0 \<le> bals t a \<and> bals t a < 2 ^ 127) \<and>
     (\<forall>a\<in>A. \<forall>b\<in>A. 0 \<le> allws t a b \<and> allws t a b < 2 ^ 127)"

lemma spec_range_agree: "agree A t u \<Longrightarrow> spec_range A t \<longleftrightarrow> spec_range A u"
  by (simp add: spec_range_def agree_def)

lemma spec_rangeD:
  assumes "spec_range A t"
  shows "a \<in> A \<Longrightarrow> 0 \<le> bals t a" "a \<in> A \<Longrightarrow> bals t a < 2 ^ 127"
    "a \<in> A \<Longrightarrow> b \<in> A \<Longrightarrow> 0 \<le> allws t a b" "a \<in> A \<Longrightarrow> b \<in> A \<Longrightarrow> allws t a b < 2 ^ 127"
  using assms by (auto simp: spec_range_def)

context sdk_strings
begin

lemma mirror_mint_total:
  assumes "spec_range A (spec_mint a (sint n) (book_view S cs))" "a \<in> A"
  obtains cs' where "mirror_mint S a n cs = Inr cs'"
proof -
  have "0 \<le> bals (book_view S cs) a + sint n" "bals (book_view S cs) a + sint n < 2 ^ 127"
    using spec_rangeD(1,2) [OF assms(1,2)] by (simp_all add: spec_mint_def)
  then obtain cs' where "add_balance S cs a n = Inr cs'" by (rule add_balance_total)
  then show ?thesis using that by (simp add: mirror_mint_def)
qed

lemma mirror_burn_total:
  assumes "spec_range A (spec_burn a (sint n) (book_view S cs))" "a \<in> A"
  obtains cs1 cs' where "sub_balance S cs a n = Inr cs1" "mirror_burn S a n cs = Inr cs'"
proof -
  have "0 \<le> bals (book_view S cs) a - sint n" "bals (book_view S cs) a - sint n < 2 ^ 127"
    using spec_rangeD(1,2) [OF assms(1,2)] by (simp_all add: spec_burn_def)
  then obtain cs' where "sub_balance S cs a n = Inr cs'" by (rule sub_balance_total)
  then show ?thesis using that by (simp add: mirror_burn_def)
qed

lemma mirror_approve_total:
  assumes "0 \<le> sint n"
  obtains cs' where "mirror_approve S f s n cs = Inr cs'"
  using assms that by (auto simp: mirror_approve_def set_allowance_Inr)

lemma spec_range_burn:
  assumes "spec_range A t" "a \<in> A" "0 \<le> n" "n \<le> bals t a"
  shows "spec_range A (spec_burn a n t)"
  using assms by (auto simp: spec_range_def spec_burn_def)

lemma mirror_transfer_total:
  assumes "spec_range A (book_view S cs)" "a \<in> A" "b \<in> A" "0 \<le> sint n"
    and "sint n \<le> bals (book_view S cs) a"
    and "spec_range A (spec_transfer a b (sint n) (book_view S cs))"
  obtains cs1 cs' where "sub_balance S cs a n = Inr cs1" "add_balance S cs1 b n = Inr cs'"
    "mirror_transfer S a b n cs = Inr cs'"
proof -
  obtain cs1 where cs1: "sub_balance S cs a n = Inr cs1"
    using mirror_burn_total [OF spec_range_burn [OF assms(1,2,4,5)] assms(2)] by blast
  then have "book_view S cs1 = spec_burn a (sint n) (book_view S cs)"
    by (rule sub_balance_refines)
  then have "0 \<le> bals (book_view S cs1) b + sint n" "bals (book_view S cs1) b + sint n < 2 ^ 127"
    using spec_rangeD(1,2) [OF assms(6,3)] by (simp_all add: spec_transfer_def spec_mint_def)
  then obtain cs' where "add_balance S cs1 b n = Inr cs'" by (rule add_balance_total)
  with cs1 show ?thesis using that by (simp add: mirror_transfer_def)
qed

lemma sub_allowance_after:
  assumes "allws (book_view S cs1) = allws (book_view S cs)" "spec_range A (book_view S cs)"
    and "f \<in> A" "s \<in> A" "0 \<le> sint n" "sint n \<le> allws (book_view S cs) f s"
  obtains cs' where "sub_allowance S cs1 f s n = Inr cs'"
proof (rule sub_allowance_total)
  show "0 \<le> allws (book_view S cs1) f s - sint n" using assms by simp
  show "allws (book_view S cs1) f s - sint n < 2 ^ 127"
    unfolding assms(1) using assms(5) spec_rangeD(4) [OF assms(2-4)] by linarith
qed

lemma mirror_transfer_from_total:
  assumes "spec_range A (book_view S cs)" "a \<in> A" "b \<in> A" "s \<in> A" "0 \<le> sint n"
    and "sint n \<le> bals (book_view S cs) a" "sint n \<le> allws (book_view S cs) a s"
    and "spec_range A (spec_transfer_from s a b (sint n) (book_view S cs))"
  obtains cs' where "mirror_transfer_from S s a b n cs = Inr cs'"
proof -
  have "spec_range A (spec_transfer a b (sint n) (book_view S cs))"
    using assms(1,8) by (simp add: spec_range_def spec_defs)
  with assms obtain cs1 cs2 where cs: "sub_balance S cs a n = Inr cs1"
      "add_balance S cs1 b n = Inr cs2"
    by (metis mirror_transfer_total)
  then have "allws (book_view S cs2) = allws (book_view S cs)"
    by (simp add: add_balance_refines(1) [OF cs(2)] sub_balance_refines(1) [OF cs(1)] spec_mint_def
        spec_burn_def)
  then obtain cs' where "sub_allowance S cs2 a s n = Inr cs'"
    using sub_allowance_after assms by metis
  with cs show ?thesis using that by (simp add: mirror_transfer_from_def)
qed

lemma mirror_burn_from_total:
  assumes "spec_range A (book_view S cs)" "a \<in> A" "s \<in> A" "0 \<le> sint n"
    and "sint n \<le> bals (book_view S cs) a" "sint n \<le> allws (book_view S cs) a s"
  obtains cs' where "mirror_burn_from S s a n cs = Inr cs'"
proof -
  obtain cs1 where cs: "sub_balance S cs a n = Inr cs1"
    using mirror_burn_total [OF spec_range_burn [OF assms(1,2,4,5)] assms(2)] by blast
  then have "allws (book_view S cs1) = allws (book_view S cs)"
    by (simp add: sub_balance_refines(1) [OF cs(1)] spec_burn_def)
  then obtain cs' where "sub_allowance S cs1 a s n = Inr cs'"
    using sub_allowance_after assms by metis
  with cs show ?thesis using that by (simp add: mirror_burn_from_def)
qed

end

section \<open>The contract of a token\<close>

definition account_addr ::
  "('env, 'addr, 'key) sdk \<Rightarrow> (sc_address \<Rightarrow> 'addr) \<Rightarrow> address_generator \<Rightarrow> nat \<Rightarrow> 'addr" where
  "account_addr S addr_of gen i = addr_of (account_sc S gen i)"

definition account_set ::
  "('env, 'addr, 'key) sdk \<Rightarrow> (sc_address \<Rightarrow> 'addr) \<Rightarrow> address_generator \<Rightarrow> 'addr set" where
  "account_set S addr_of gen = account_addr S addr_of gen ` {..<NUMBER_OF_ADDRESSES}"

text \<open>An entry of \<open>es\<close> in which \<open>sc\<close> authorizes the invocation \<open>ri\<close>.\<close>

definition authorized ::
  "'addr authorization_entry list \<Rightarrow> sc_address \<Rightarrow> 'addr authorized_invocation \<Rightarrow> bool" where
  "authorized es sc ri \<longleftrightarrow>
     (\<exists>e\<in>set es. cred_address (credentials e) = sc \<and> root_invocation e = ri)"

text \<open>
  From \<open>e\<close> to \<open>e'\<close> the token performs \<open>step\<close>: the clock stands, and no remaining life (of the
  contract instance, \<open>None\<close>, or of the balance of an account) falls below a day because of it.
\<close>

definition moves ::
  "('env \<Rightarrow> bool) \<Rightarrow> ('env \<Rightarrow> 'addr token_state) \<Rightarrow> ('env \<Rightarrow> 'c) \<Rightarrow> ('env \<Rightarrow> 'addr option \<Rightarrow> nat)
    \<Rightarrow> 'env \<Rightarrow> 'env \<Rightarrow> ('addr token_state \<Rightarrow> 'addr token_state) \<Rightarrow> bool" where
  "moves good obs clk life e e' step \<longleftrightarrow>
     good e' \<and> obs e' = step (obs e) \<and> clk e' = clk e \<and>
     (\<forall>x. life e x \<le> life e' x \<or> unat DAY_IN_LEDGERS \<le> life e' x)"

text \<open>
  The outcome of a call that \<open>sc\<close> has to authorize: an error that changes nothing, or a success
  that was authorized, with a non-negative amount, the precondition \<open>pre\<close> and the step \<open>step\<close>.
\<close>

definition call_sound ::
  "bool \<Rightarrow> ('env \<Rightarrow> 'env \<Rightarrow> ('addr token_state \<Rightarrow> 'addr token_state) \<Rightarrow> bool)
    \<Rightarrow> 'addr authorization_entry list \<Rightarrow> 'env \<Rightarrow> sc_address \<Rightarrow> 'addr authorized_invocation \<Rightarrow> i128
    \<Rightarrow> bool \<Rightarrow> ('addr token_state \<Rightarrow> 'addr token_state) \<Rightarrow> token_contract_result \<times> 'env \<Rightarrow> bool" where
  "call_sound quiet mv es e sc ri n pre step outcome \<longleftrightarrow>
     (let (r, e') = outcome in
      (quiet \<longrightarrow> r \<noteq> Err (Ok (Error WasmVm InvalidAction))) \<and>
      (case r of
         Err _ \<Rightarrow> mv e e' (\<lambda>t. t)
       | Ok x \<Rightarrow> x = Ok () \<and> authorized es sc ri \<and> 0 \<le> sint n \<and> pre \<and> mv e e' step))"

text \<open>What the passing of time may do to a token: allowances among accounts may lapse.\<close>

definition aged :: "'addr set \<Rightarrow> 'addr token_state \<Rightarrow> 'addr token_state \<Rightarrow> bool" where
  "aged A t u \<longleftrightarrow>
     meta u = meta t \<and> (\<forall>a\<in>A. bals u a = bals t a) \<and>
     (\<forall>a\<in>A. \<forall>b\<in>A. allws u a b = allws t a b \<or> allws u a b = 0)"

lemma aged_trans: "aged A t u \<Longrightarrow> aged A u v \<Longrightarrow> aged A t v"
  unfolding aged_def by metis

lemma aged_refl [simp]: "aged A t t"
  by (simp add: aged_def)

lemma moves_trans:
  assumes "moves good obs clk life e e1 f" "moves good obs clk life e1 e2 g"
  shows "moves good obs clk life e e2 (\<lambda>t. g (f t))"
  using assms unfolding moves_def by (auto) (meson le_trans)

lemma moves_id:
  assumes "moves good obs clk life e e1 (\<lambda>t. t)" "moves good obs clk life e1 e2 g"
  shows "moves good obs clk life e e2 g"
  using moves_trans [OF assms] by simp

text \<open>
  The contract of a token, for the accounts of a generator. \<open>register_mock_law\<close> says that registering
  the mock contract at a contract account leaves the token alone. It cannot hold for a generator
  one of whose contract accounts is the token's own address, since the registration would then
  replace the token; such generators (the seeds 0 and 1 that a fixme in addrgen.rs warns of may be
  among them) are outside this contract.
\<close>

locale token_contract = sdk_auth S addr_of xdr + ledger_clock S N
  for S :: "('env, 'addr, 'key) sdk" and addr_of :: "sc_address \<Rightarrow> 'addr"
    and xdr :: "'addr authorization_preimage \<Rightarrow> u8 list"
    and N :: "('env, 'lk, 'le, 'r) snapshots" +
  fixes config :: "('env, 'addr) config" and gen :: address_generator
    and tok :: 'addr and token_sc :: sc_address
    and tc :: "('env, 'addr) token_client" and ad :: "('env, 'addr) token_admin_client"
    and obs :: "'env \<Rightarrow> 'addr token_state" and good :: "'env \<Rightarrow> bool" and ready :: "'env \<Rightarrow> bool"
    and life :: "'env \<Rightarrow> 'addr option \<Rightarrow> nat"
    and auths_of :: "'env \<Rightarrow> 'addr authorization_entry list"
    and max_ttl :: u32 and quiet :: bool
  assumes gen_ok: "generator_ok gen"
    and token_address: "sc_address_try_from S tok = Some token_sc"
    and client_law: "client_new S e tok = tc"
    and admin_client_law: "new_admin_client S config e tok = ad"
    and range_law: "good e \<Longrightarrow> spec_range (account_set S addr_of gen) (obs e)"
    and meta_law: "good e \<Longrightarrow> meta (obs e) = (nm, sb, dec) \<Longrightarrow> length nm < 2 ^ 32 \<and> length sb < 2 ^ 32"
    and ttl_law: "good e \<Longrightarrow> max_entry_ttl S e = max_ttl" "0 < unat max_ttl"
    and reset_law: "good e \<Longrightarrow>
      moves good obs (clock S N) life e (budget_reset_unlimited S e) (\<lambda>t. t)"
    and set_auths_law: "good e \<Longrightarrow> moves good obs (clock S N) life e (set_auths S e es) (\<lambda>t. t)"
      "good e \<Longrightarrow> auths_of (set_auths S e es) = es"
    and register_mock_law: "good e \<Longrightarrow> i < NUMBER_OF_ADDRESSES \<Longrightarrow>
      address_types gen ! i = Contract \<Longrightarrow>
      moves good obs (clock S N) life e
        (register_mock_auth_contract S e (account_addr S addr_of gen i)) (\<lambda>t. t)"
    and generate_law: "good e \<Longrightarrow>
      moves good obs (clock S N) life e (snd (address_generate S e)) (\<lambda>t. t)"
    and mint_law: "good e \<Longrightarrow> a \<in> account_set S addr_of gen \<Longrightarrow>
      call_sound quiet (moves good obs (clock S N) life) (auths_of e) e (account_sc S gen 0)
        (command_invocation token_sc ''mint'' [AddressVal a, I128Val n]) n True
        (spec_mint a (sint n)) (try_mint ad e a n)"
    and approve_law: "good e \<Longrightarrow> a = account_addr S addr_of gen i \<Longrightarrow>
      i < NUMBER_OF_ADDRESSES \<Longrightarrow> b \<in> account_set S addr_of gen \<Longrightarrow>
      call_sound quiet (moves good obs (clock S N) life) (auths_of e) e (account_sc S gen i)
        (command_invocation token_sc ''approve''
          [AddressVal a, AddressVal b, I128Val n, U32Val x]) n True
        (spec_approve a b (sint n)) (try_approve tc e a b n x)"
    and transfer_from_law: "good e \<Longrightarrow> s = account_addr S addr_of gen i \<Longrightarrow>
      i < NUMBER_OF_ADDRESSES \<Longrightarrow> a \<in> account_set S addr_of gen \<Longrightarrow> b \<in> account_set S addr_of gen \<Longrightarrow>
      call_sound quiet (moves good obs (clock S N) life) (auths_of e) e (account_sc S gen i)
        (command_invocation token_sc ''transfer_from''
          [AddressVal s, AddressVal a, AddressVal b, I128Val n]) n
        (sint n \<le> bals (obs e) a \<and> sint n \<le> allws (obs e) a s)
        (spec_transfer_from s a b (sint n)) (try_transfer_from tc e s a b n)"
    and transfer_law: "good e \<Longrightarrow> a = account_addr S addr_of gen i \<Longrightarrow>
      i < NUMBER_OF_ADDRESSES \<Longrightarrow> b \<in> account_set S addr_of gen \<Longrightarrow>
      call_sound quiet (moves good obs (clock S N) life) (auths_of e) e (account_sc S gen i)
        (command_invocation token_sc ''transfer'' [AddressVal a, AddressVal b, I128Val n]) n
        (sint n \<le> bals (obs e) a) (spec_transfer a b (sint n)) (try_transfer tc e a b n)"
    and burn_from_law: "good e \<Longrightarrow> s = account_addr S addr_of gen i \<Longrightarrow>
      i < NUMBER_OF_ADDRESSES \<Longrightarrow> a \<in> account_set S addr_of gen \<Longrightarrow>
      call_sound quiet (moves good obs (clock S N) life) (auths_of e) e (account_sc S gen i)
        (command_invocation token_sc ''burn_from'' [AddressVal s, AddressVal a, I128Val n]) n
        (sint n \<le> bals (obs e) a \<and> sint n \<le> allws (obs e) a s)
        (spec_burn_from s a (sint n)) (try_burn_from tc e s a n)"
    and burn_law: "good e \<Longrightarrow> a = account_addr S addr_of gen i \<Longrightarrow> i < NUMBER_OF_ADDRESSES \<Longrightarrow>
      call_sound quiet (moves good obs (clock S N) life) (auths_of e) e (account_sc S gen i)
        (command_invocation token_sc ''burn'' [AddressVal a, I128Val n]) n
        (sint n \<le> bals (obs e) a) (spec_burn a (sint n)) (try_burn tc e a n)"
    and balance_law: "good e \<Longrightarrow> a \<in> account_set S addr_of gen \<Longrightarrow>
      \<exists>b e'. client_balance tc e a = Inr (b, e') \<and> sint b = bals (obs e) a \<and>
        moves good obs (clock S N) life e e' (\<lambda>t. t) \<and>
        unat DAY_IN_LEDGERS \<le> life e' (Some a) \<and> unat MAX_LEDGERS_TO_ADVANCE \<le> life e' None"
    and allowance_law: "good e \<Longrightarrow>
      a \<in> account_set S addr_of gen \<Longrightarrow> b \<in> account_set S addr_of gen \<Longrightarrow>
      \<exists>n e'. client_allowance tc e a b = Inr (n, e') \<and> sint n = allws (obs e) a b \<and>
        moves good obs (clock S N) life e e' (\<lambda>t. t)"
    and metadata_law: "good e \<Longrightarrow> meta (obs e) = (nm, sb, dec) \<Longrightarrow>
      (\<exists>e'. client_name tc e = Inr (nm, e') \<and> moves good obs (clock S N) life e e' (\<lambda>t. t)) \<and>
      (\<exists>e'. client_symbol tc e = Inr (sb, e') \<and> moves good obs (clock S N) life e e' (\<lambda>t. t)) \<and>
      (\<exists>e'. client_decimals tc e = Inr (dec, e') \<and> moves good obs (clock S N) life e e' (\<lambda>t. t))"
    and ping_law: "good e \<Longrightarrow> \<exists>r e'. try_allowance tc e a b = (Ok r, e') \<and>
      moves good obs (clock S N) life e e' (\<lambda>t. t) \<and> unat MAX_LEDGERS_TO_ADVANCE \<le> life e' None"
    and advance_law: "good e \<Longrightarrow> advance_env N e l = Inr e1 \<Longrightarrow> unat l \<le> life e None \<Longrightarrow>
      (\<And>a. a \<in> account_set S addr_of gen \<Longrightarrow> unat l \<le> life e (Some a)) \<Longrightarrow>
      \<exists>e2. reregister_contract config e1 tok = Inr e2 \<and> good e2 \<and> clock S N e2 = clock S N e1 \<and>
        aged (account_set S addr_of gen) (obs e) (obs e2) \<and>
        (\<forall>a\<in>account_set S addr_of gen. life e (Some a) \<le> life e2 (Some a) + unat l)"
    and ready_law: "ready (env_default S)"
      "ready e \<Longrightarrow> \<exists>e'. storage_put S e k v None = Ok e' \<and> ready e' \<and> clock S N e' = clock S N e"
    and register_law: "ready e \<Longrightarrow>
      \<exists>e' m. register_contract_init S config e (account_addr S addr_of gen 0) = Inr (tok, e') \<and>
        good e' \<and> obs e' = \<lparr>bals = (\<lambda>_. 0), allws = (\<lambda>_ _. 0), meta = m\<rparr> \<and>
        clock S N e' = clock S N e \<and> unat MAX_LEDGERS_TO_ADVANCE \<le> life e' None \<and>
        (\<forall>a\<in>account_set S addr_of gen. unat DAY_IN_LEDGERS \<le> life e' (Some a))"

end
