(* ===== verification/Fuzz_Sound.thy ===== *)
theory Fuzz_Sound
  imports Token_Contract
begin

text \<open>
  The fuzzer on a token that keeps the contract \<open>token_contract\<close>: no assertion of \<open>exec_command\<close>,
  \<open>advance_time\<close>, \<open>assert_state\<close> or of the setup fails, and every loop ends. The invariant of a run
  (\<open>exec_inv\<close>) says that the book and the token agree on the accounts, that the book is balanced,
  and that the token's entries live at least another day.
\<close>

context token_contract
begin

abbreviation (input) mv where
  "mv \<equiv> moves good obs (clock S N) life"

abbreviation (input) acc_set where
  "acc_set \<equiv> account_set S addr_of gen"

abbreviation (input) signers where
  "signers \<equiv> map (account_signer S addr_of gen) [0..<NUMBER_OF_ADDRESSES]"

definition cur where
  "cur = \<lparr>accounts = signers, admin_client = ad, token_client = tc\<rparr>"

definition token_bytes where
  "token_bytes = address_to_string S tok"

lemma cur_simps [simp]:
  "accounts cur = signers" "admin_client cur = ad" "token_client cur = tc"
  by (simp_all add: cur_def)

lemma signer_address: "i < NUMBER_OF_ADDRESSES \<Longrightarrow> ts_address (signers ! i) = account_addr S addr_of gen i"
  by (simp add: account_signer_def account_addr_def)

lemma signer_in: "x \<in> set signers \<Longrightarrow> ts_address x \<in> acc_set"
  by (auto simp: account_set_def account_addr_def account_signer_def)

lemma account_in [simp]: "i < NUMBER_OF_ADDRESSES \<Longrightarrow> account_addr S addr_of gen i \<in> acc_set"
  by (simp add: account_set_def)

lemma signer_addresses:
  "map ts_address signers = map (account_addr S addr_of gen) [0..<NUMBER_OF_ADDRESSES]"
  by (simp add: account_signer_def account_addr_def)

lemma signers_distinct: "distinct (map ts_address signers)"
  using account_addresses_distinct [OF gen_ok] unfolding signer_addresses
  by (simp add: account_addr_def [abs_def])

lemma current_state_new_ok: "current_state_new S config e token_bytes gen = Inr cur"
  by (simp add: current_state_new_def token_bytes_def address_parse generate_signers_ok gen_ok
      client_law admin_client_law cur_def)

lemma good_moves: "mv e e' f \<Longrightarrow> good e'"
  by (simp add: moves_def)

section \<open>Authorization\<close>

lemma authorized_flag:
  assumes "entries_for S xdr env ri ex (authorized_accounts S addr_of gen auths NUMBER_OF_ADDRESSES)
      nonce es"
    and "authorized es (account_sc S gen i) ri'" "i < NUMBER_OF_ADDRESSES"
  shows "auths ! i"
proof -
  let ?accs = "authorized_accounts S addr_of gen auths NUMBER_OF_ADDRESSES"
  from assms(2) obtain k where k: "k < length es" "cred_address (credentials (es ! k)) = account_sc S gen i"
    by (auto simp: authorized_def in_set_conv_nth)
  with assms(1) have "fst (?accs ! k) = account_sc S gen i" "k < length ?accs"
    by (auto simp: entries_for_def entry_for_def)
  then have "account_sc S gen i \<in> fst ` set ?accs"
    by (metis image_eqI nth_mem)
  then obtain j where "j < NUMBER_OF_ADDRESSES" "auths ! j" "account_sc S gen i = account_sc S gen j"
    by (auto simp: authorized_accounts_def)
  then show ?thesis using account_sc_inj [OF gen_ok assms(3)] by auto
qed

lemma mock_auths_sound:
  assumes "good e" "length auths = NUMBER_OF_ADDRESSES" "length fn \<le> 32" "length vs < 2 ^ 32"
    and "0 \<le> sint nonce" "sint nonce + int NUMBER_OF_ADDRESSES < 2 ^ 63"
    and "unat (ledger_sequence S e) + unat max_ttl < 2 ^ 32"
  obtains e' es k where
    "mock_auths_for_command S e fn auths signers token_bytes nonce vs = Inr (e', nonce + of_nat k)"
    "k \<le> NUMBER_OF_ADDRESSES" "mv e e' (\<lambda>t. t)" "auths_of e' = es"
    "\<forall>i<NUMBER_OF_ADDRESSES. \<forall>ri. authorized es (account_sc S gen i) ri \<longrightarrow> auths ! i"
proof -
  let ?e' = "registered S addr_of gen auths NUMBER_OF_ADDRESSES e"
  have reg: "mv e ?e' (\<lambda>t. t)"
  proof (rule registered_keeps)
    show "mv e e (\<lambda>t. t)" using assms(1) by (simp add: moves_def)
    show "mv e (register_mock_auth_contract S e1 (addr_of (account_sc S gen i))) (\<lambda>t. t)"
      if "mv e e1 (\<lambda>t. t)" "i < NUMBER_OF_ADDRESSES" "address_types gen ! i = Contract" for e1 i
      using moves_id [OF that(1) register_mock_law [OF good_moves [OF that(1)] that(2,3)]]
      by (simp add: account_addr_def)
  qed
  have ttl: "0 < unat (max_entry_ttl S e)"
    "unat (ledger_sequence S e) + unat (max_entry_ttl S e) < 2 ^ 32"
    using assms(7) ttl_law(1) [OF assms(1)] ttl_law(2) by simp_all
  obtain es where e': "mock_auths_for_command S e fn auths signers token_bytes nonce vs =
      Inr (set_auths S ?e' es, nonce + of_nat (length es))"
    "length es \<le> NUMBER_OF_ADDRESSES"
    "entries_for S xdr e (command_invocation token_sc fn vs)
      (ledger_sequence S e + max_entry_ttl S e - 1)
      (authorized_accounts S addr_of gen auths NUMBER_OF_ADDRESSES) nonce es"
    using mock_auths_for_command_ok [OF gen_ok assms(2-6) ttl token_address] unfolding token_bytes_def by blast
  show ?thesis
    by (rule that [OF e'(1,2) moves_id [OF reg set_auths_law(1)] set_auths_law(2)])
      (use reg authorized_flag [OF e'(3)] in \<open>simp_all add: good_moves\<close>)
qed

section \<open>Commands\<close>

definition long_lived :: "nat \<Rightarrow> 'env \<Rightarrow> bool" where
  "long_lived n e \<longleftrightarrow> (\<forall>a\<in>acc_set. n \<le> life e (Some a))"

definition exec_inv :: "u32 \<times> u64 \<Rightarrow> int \<Rightarrow> 'env exec_state \<Rightarrow> bool" where
  "exec_inv c m st \<longleftrightarrow>
     (case st of (e, cs, nonce) \<Rightarrow>
        good e \<and> agree acc_set (book_view S cs) (obs e) \<and>
        imbalance S (map ts_address signers) cs = 0 \<and> clock S N e = c \<and>
        long_lived (unat DAY_IN_LEDGERS) e \<and> unat MAX_LEDGERS_TO_ADVANCE \<le> life e None \<and>
        0 \<le> sint nonce \<and> sint nonce \<le> m)"

lemma day_unat [simp]: "unat DAY_IN_LEDGERS = 17280" "unat MAX_LEDGERS_TO_ADVANCE = 4095"
  by (simp_all add: DAY_IN_LEDGERS_def MAX_LEDGERS_TO_ADVANCE_def)

lemma long_lived_moves:
  assumes "mv e e' f"
  shows "long_lived 17280 e \<Longrightarrow> long_lived 17280 e'" "4095 \<le> life e None \<Longrightarrow> 4095 \<le> life e' None"
proof -
  have *: "life e x \<le> life e' x \<or> 17280 \<le> life e' x" for x
    using assms by (simp add: moves_def)
  show "long_lived 17280 e'" if "long_lived 17280 e"
    using that * le_trans unfolding long_lived_def by blast
  show "4095 \<le> life e' None" if "4095 \<le> life e None"
    using that * [of None] by linarith
qed

lemma exec_inv_moves:
  assumes "exec_inv c m (e, cs, nonce)" "mv e e' f" "agree acc_set (book_view S cs') (f (obs e))"
    and "imbalance S (map ts_address signers) cs' = 0" "0 \<le> sint nonce'" "sint nonce' \<le> m'"
  shows "exec_inv c m' (e', cs', nonce')"
  using assms long_lived_moves [OF assms(2)] by (simp add: exec_inv_def moves_def)

text \<open>
  One call: authorizing it always works, its checks do not fail, and its mirror brings the book
  to the token's new state.
\<close>

lemma run_call_sound:
  assumes inv: "exec_inv c m (e, cs, nonce)"
    and auths: "length auths = NUMBER_OF_ADDRESSES" and i: "i < NUMBER_OF_ADDRESSES"
    and fn: "length fn \<le> 32" and vs: "length vs < 2 ^ 32"
    and m: "m + int NUMBER_OF_ADDRESSES < 2 ^ 63" and c: "unat (fst c) + unat max_ttl < 2 ^ 32"
    and call: "\<And>e. good e \<Longrightarrow> call_sound quiet mv (auths_of e) e (account_sc S gen i) ri n
      (pre (obs e)) step (call e)"
    and pre: "\<And>t u. agree acc_set t u \<Longrightarrow> pre u \<Longrightarrow> pre t"
    and step: "\<And>t u. agree acc_set t u \<Longrightarrow> agree acc_set (step t) (step u)"
    and mirror: "spec_range acc_set (book_view S cs) \<Longrightarrow> spec_range acc_set (step (book_view S cs)) \<Longrightarrow>
      0 \<le> sint n \<Longrightarrow> pre (book_view S cs) \<Longrightarrow>
      \<exists>cs'. mirror cs = Inr cs' \<and> book_view S cs' = step (book_view S cs) \<and>
        imbalance S (map ts_address signers) cs' = imbalance S (map ts_address signers) cs"
  shows "sound quiet (run_call S token_bytes cur fn auths vs call n i mirror (e, cs, nonce))
    (exec_inv c (m + int NUMBER_OF_ADDRESSES))"
proof -
  have e: "good e" "agree acc_set (book_view S cs) (obs e)" "ledger_sequence S e = fst c"
      "0 \<le> sint nonce" "sint nonce \<le> m" "imbalance S (map ts_address signers) cs = 0"
    using inv by (auto simp: exec_inv_def clock_def)
  obtain e1 es k where mock:
    "mock_auths_for_command S e fn auths signers token_bytes nonce vs = Inr (e1, nonce + of_nat k)"
    "k \<le> NUMBER_OF_ADDRESSES" "mv e e1 (\<lambda>t. t)" "auths_of e1 = es"
    "\<forall>i<NUMBER_OF_ADDRESSES. \<forall>ri. authorized es (account_sc S gen i) ri \<longrightarrow> auths ! i"
  proof (rule mock_auths_sound [OF e(1) auths fn vs e(4)])
    show "sint nonce + int NUMBER_OF_ADDRESSES < 2 ^ 63" using e(5) m by linarith
    show "unat (ledger_sequence S e) + unat max_ttl < 2 ^ 32" using e(3) c by simp
  qed
  have nonce: "sint (nonce + of_nat k) = sint nonce + int k"
    using e(4,5) mock(2) m by (intro nonce_add) auto
  then have nn: "0 \<le> sint (nonce + of_nat k)"
      "sint (nonce + of_nat k) \<le> m + int NUMBER_OF_ADDRESSES"
    using e(4,5) mock(2) by linarith+
  obtain r e2 where r: "call e1 = (r, e2)" by (cases "call e1")
  have cs: "call_sound quiet mv es e1 (account_sc S gen i) ri n (pre (obs e)) step (r, e2)"
    using call [OF good_moves [OF mock(3)]] r mock(3,4) by (simp add: moves_def)
  then have "sound quiet (verify_token_contract_result r)
      (\<lambda>_. r \<noteq> Err (Ok (Error WasmVm InvalidAction)))"
    by (intro verify_sound) (simp add: call_sound_def)
  moreover have "check_call r n auths i = Inr ()" if "r \<noteq> Err (Ok (Error WasmVm InvalidAction))"
    using that cs i auths mock(5)
    by (auto simp: check_call_ok call_sound_def is_err_iff split: result.splits)
  moreover have "\<exists>cs'. on_ok r cs mirror = Inr cs' \<and>
      exec_inv c (m + int NUMBER_OF_ADDRESSES) (e2, cs', nonce + of_nat k)"
  proof (cases r)
    case (Err er)
    with cs have "mv e e2 (\<lambda>t. t)" using moves_id [OF mock(3)] by (simp add: call_sound_def)
    from exec_inv_moves [OF inv this e(2,6) nn] Err show ?thesis by (simp add: on_ok_def)
  next
    case (Ok x)
    with cs have ok: "x = Ok ()" "0 \<le> sint n" "pre (obs e)" "mv e e2 step"
      using moves_id [OF mock(3)] by (simp_all add: call_sound_def)
    have "spec_range acc_set (step (book_view S cs))"
      using range_law [OF good_moves [OF ok(4)]] ok(4) spec_range_agree [OF step [OF e(2)]]
      by (simp add: moves_def)
    with ok pre e obtain cs' where cs': "mirror cs = Inr cs'" "book_view S cs' = step (book_view S cs)"
        "imbalance S (map ts_address signers) cs' = imbalance S (map ts_address signers) cs"
      using mirror range_law [OF e(1)] spec_range_agree [OF e(2)] by blast
    from exec_inv_moves [OF inv ok(4) _ _ nn, of cs'] e(6) step [OF e(2)] cs' Ok ok(1)
    show ?thesis by (simp add: on_ok_def)
  qed
  ultimately show ?thesis
    using mock(1) r
    by (auto simp: run_call_def Let_def check_call_def sound_def split: sum.splits)
qed

lemma account_address_ok:
  "i < NUMBER_OF_ADDRESSES \<Longrightarrow> account_address cur i = Inr (account_addr S addr_of gen i)"
  using signer_address [of i] by (simp add: account_address_def)

lemma account_in_signers:
  "a \<in> acc_set \<Longrightarrow> a \<in> set (map ts_address signers)"
  unfolding signer_addresses by (auto simp: account_set_def)

lemmas arm_simps = account_address_ok account_index_ok_def auths_ok_def

lemma exec_mint_sound:
  assumes "exec_inv c m (e, cs, nonce)" "command_ok (Mint i)"
    and "m + int NUMBER_OF_ADDRESSES < 2 ^ 63" "unat (fst c) + unat max_ttl < 2 ^ 32"
  shows "sound quiet (exec_mint S token_bytes cur i (e, cs, nonce))
    (exec_inv c (m + int NUMBER_OF_ADDRESSES))"
proof -
  let ?to = "account_addr S addr_of gen (mint_to_account_index i)"
  let ?n = "mint_amount i"
  have ok: "length (mint_auths i) = NUMBER_OF_ADDRESSES"
    "mint_to_account_index i < NUMBER_OF_ADDRESSES"
    using assms(2) by (simp_all add: arm_simps)
  note acc = account_in [OF ok(2)]
  note mem = acc [THEN account_in_signers]
  show ?thesis
    unfolding exec_mint_def account_address_ok [OF ok(2)]
      bnd_simps cur_simps
  proof (rule run_call_sound [OF assms(1) ok(1) _ _ _ assms(3,4), where pre = "\<lambda>_. True",
        OF _ _ _ mint_law [OF _ acc(1)]])
    show "agree acc_set t u \<Longrightarrow> agree acc_set (spec_mint ?to (sint ?n) t) (spec_mint ?to (sint ?n) u)" for t u
      by (rule agree_spec(1) [OF _ acc(1)])
    show "agree acc_set t u \<Longrightarrow> (\<lambda>_. True) u \<Longrightarrow> (\<lambda>_. True) t" for t u
      using acc by (simp add: agree_def)
  next
    assume r: "spec_range acc_set (book_view S cs)" "spec_range acc_set (spec_mint ?to (sint ?n) (book_view S cs))"
      "0 \<le> sint ?n" "(\<lambda>_. True) (book_view S cs)"
    obtain cs' where cs': "mirror_mint S ?to ?n cs = Inr cs'" by (rule mirror_mint_total [OF r(2) acc(1)])
    from cs' show "\<exists>cs'. mirror_mint S ?to ?n cs = Inr cs' \<and> book_view S cs' = spec_mint ?to (sint ?n) (book_view S cs) \<and>
        imbalance S (map ts_address signers) cs' = imbalance S (map ts_address signers) cs"
      using mirror_refines(1) [OF cs'] imbalance_mirror(1) [OF signers_distinct cs' mem(1)]
      by blast
  qed (use ok in \<open>simp_all add: NUMBER_OF_ADDRESSES_def\<close>)
qed

lemma exec_approve_sound:
  assumes "exec_inv c m (e, cs, nonce)" "command_ok (Approve i)"
    and "m + int NUMBER_OF_ADDRESSES < 2 ^ 63" "unat (fst c) + unat max_ttl < 2 ^ 32"
  shows "sound quiet (exec_approve S token_bytes cur i (e, cs, nonce))
    (exec_inv c (m + int NUMBER_OF_ADDRESSES))"
proof -
  let ?from = "account_addr S addr_of gen (approve_from_account_index i)"
  let ?spender = "account_addr S addr_of gen (approve_spender_account_index i)"
  let ?n = "approve_amount i"
  have ok: "length (approve_auths i) = NUMBER_OF_ADDRESSES"
    "approve_from_account_index i < NUMBER_OF_ADDRESSES" "approve_spender_account_index i < NUMBER_OF_ADDRESSES"
    using assms(2) by (simp_all add: arm_simps)
  note acc = account_in [OF ok(2)] account_in [OF ok(3)]
  note mem = acc [THEN account_in_signers]
  show ?thesis
    unfolding exec_approve_def account_address_ok [OF ok(2)] account_address_ok [OF ok(3)]
      bnd_simps cur_simps
  proof (rule run_call_sound [OF assms(1) ok(1) _ _ _ assms(3,4), where pre = "\<lambda>_. True",
        OF _ _ _ approve_law [OF _ refl ok(2) acc(2)]])
    show "agree acc_set t u \<Longrightarrow> agree acc_set (spec_approve ?from ?spender (sint ?n) t) (spec_approve ?from ?spender (sint ?n) u)" for t u
      by (rule agree_spec(3))
    show "agree acc_set t u \<Longrightarrow> (\<lambda>_. True) u \<Longrightarrow> (\<lambda>_. True) t" for t u
      using acc by (simp add: agree_def)
  next
    assume r: "spec_range acc_set (book_view S cs)" "spec_range acc_set (spec_approve ?from ?spender (sint ?n) (book_view S cs))"
      "0 \<le> sint ?n" "(\<lambda>_. True) (book_view S cs)"
    obtain cs' where cs': "mirror_approve S ?from ?spender ?n cs = Inr cs'" by (rule mirror_approve_total [OF r(3)])
    from cs' show "\<exists>cs'. mirror_approve S ?from ?spender ?n cs = Inr cs' \<and> book_view S cs' = spec_approve ?from ?spender (sint ?n) (book_view S cs) \<and>
        imbalance S (map ts_address signers) cs' = imbalance S (map ts_address signers) cs"
      using mirror_refines(2) [OF cs'] imbalance_mirror(2) [OF signers_distinct cs']
      by blast
  qed (use ok in \<open>simp_all add: NUMBER_OF_ADDRESSES_def\<close>)
qed

lemma exec_transfer_sound:
  assumes "exec_inv c m (e, cs, nonce)" "command_ok (Transfer i)"
    and "m + int NUMBER_OF_ADDRESSES < 2 ^ 63" "unat (fst c) + unat max_ttl < 2 ^ 32"
  shows "sound quiet (exec_transfer S token_bytes cur i (e, cs, nonce))
    (exec_inv c (m + int NUMBER_OF_ADDRESSES))"
proof -
  let ?from = "account_addr S addr_of gen (tr_from_account_index i)"
  let ?to = "account_addr S addr_of gen (tr_to_account_index i)"
  let ?n = "tr_amount i"
  have ok: "length (tr_auths i) = NUMBER_OF_ADDRESSES"
    "tr_from_account_index i < NUMBER_OF_ADDRESSES" "tr_to_account_index i < NUMBER_OF_ADDRESSES"
    using assms(2) by (simp_all add: arm_simps)
  note acc = account_in [OF ok(2)] account_in [OF ok(3)]
  note mem = acc [THEN account_in_signers]
  show ?thesis
    unfolding exec_transfer_def account_address_ok [OF ok(2)] account_address_ok [OF ok(3)]
      bnd_simps cur_simps
  proof (rule run_call_sound [OF assms(1) ok(1) _ _ _ assms(3,4), where pre = "\<lambda>t. sint ?n \<le> bals t ?from",
        OF _ _ _ transfer_law [OF _ refl ok(2) acc(2)]])
    show "agree acc_set t u \<Longrightarrow> agree acc_set (spec_transfer ?from ?to (sint ?n) t) (spec_transfer ?from ?to (sint ?n) u)" for t u
      by (rule agree_spec_transfer(1) [OF _ acc])
    show "agree acc_set t u \<Longrightarrow> (\<lambda>t. sint ?n \<le> bals t ?from) u \<Longrightarrow> (\<lambda>t. sint ?n \<le> bals t ?from) t" for t u
      using acc by (simp add: agree_def)
  next
    assume r: "spec_range acc_set (book_view S cs)" "spec_range acc_set (spec_transfer ?from ?to (sint ?n) (book_view S cs))"
      "0 \<le> sint ?n" "(\<lambda>t. sint ?n \<le> bals t ?from) (book_view S cs)"
    obtain cs' where cs': "mirror_transfer S ?from ?to ?n cs = Inr cs'" by (rule mirror_transfer_total [OF r(1) acc r(3,4,2)])
    from cs' show "\<exists>cs'. mirror_transfer S ?from ?to ?n cs = Inr cs' \<and> book_view S cs' = spec_transfer ?from ?to (sint ?n) (book_view S cs) \<and>
        imbalance S (map ts_address signers) cs' = imbalance S (map ts_address signers) cs"
      using mirror_refines(3) [OF cs'] imbalance_mirror(3) [OF signers_distinct cs' mem]
      by blast
  qed (use ok in \<open>simp_all add: NUMBER_OF_ADDRESSES_def\<close>)
qed

lemma exec_burn_sound:
  assumes "exec_inv c m (e, cs, nonce)" "command_ok (Burn i)"
    and "m + int NUMBER_OF_ADDRESSES < 2 ^ 63" "unat (fst c) + unat max_ttl < 2 ^ 32"
  shows "sound quiet (exec_burn S token_bytes cur i (e, cs, nonce))
    (exec_inv c (m + int NUMBER_OF_ADDRESSES))"
proof -
  let ?from = "account_addr S addr_of gen (burn_from_account_index i)"
  let ?n = "burn_amount i"
  have ok: "length (burn_auths i) = NUMBER_OF_ADDRESSES"
    "burn_from_account_index i < NUMBER_OF_ADDRESSES"
    using assms(2) by (simp_all add: arm_simps)
  note acc = account_in [OF ok(2)]
  note mem = acc [THEN account_in_signers]
  show ?thesis
    unfolding exec_burn_def account_address_ok [OF ok(2)]
      bnd_simps cur_simps
  proof (rule run_call_sound [OF assms(1) ok(1) _ _ _ assms(3,4), where pre = "\<lambda>t. sint ?n \<le> bals t ?from",
        OF _ _ _ burn_law [OF _ refl ok(2)]])
    show "agree acc_set t u \<Longrightarrow> agree acc_set (spec_burn ?from (sint ?n) t) (spec_burn ?from (sint ?n) u)" for t u
      by (rule agree_spec(2) [OF _ acc(1)])
    show "agree acc_set t u \<Longrightarrow> (\<lambda>t. sint ?n \<le> bals t ?from) u \<Longrightarrow> (\<lambda>t. sint ?n \<le> bals t ?from) t" for t u
      using acc by (simp add: agree_def)
  next
    assume r: "spec_range acc_set (book_view S cs)" "spec_range acc_set (spec_burn ?from (sint ?n) (book_view S cs))"
      "0 \<le> sint ?n" "(\<lambda>t. sint ?n \<le> bals t ?from) (book_view S cs)"
    obtain cs' where cs': "mirror_burn S ?from ?n cs = Inr cs'" by (rule mirror_burn_total [OF r(2) acc(1)])
    from cs' show "\<exists>cs'. mirror_burn S ?from ?n cs = Inr cs' \<and> book_view S cs' = spec_burn ?from (sint ?n) (book_view S cs) \<and>
        imbalance S (map ts_address signers) cs' = imbalance S (map ts_address signers) cs"
      using mirror_refines(4) [OF cs'] imbalance_mirror(4) [OF signers_distinct cs' mem(1)]
      by blast
  qed (use ok in \<open>simp_all add: NUMBER_OF_ADDRESSES_def\<close>)
qed

lemma exec_transfer_from_sound:
  assumes "exec_inv c m (e, cs, nonce)" "command_ok (TransferFrom i)"
    and "m + int NUMBER_OF_ADDRESSES < 2 ^ 63" "unat (fst c) + unat max_ttl < 2 ^ 32"
  shows "sound quiet (exec_transfer_from S token_bytes cur i (e, cs, nonce))
    (exec_inv c (m + int NUMBER_OF_ADDRESSES))"
proof -
  let ?spender = "account_addr S addr_of gen (tf_spender_account_index i)"
  let ?from = "account_addr S addr_of gen (tf_from_account_index i)"
  let ?to = "account_addr S addr_of gen (tf_to_account_index i)"
  let ?n = "tf_amount i"
  have ok: "length (tf_auths i) = NUMBER_OF_ADDRESSES"
    "tf_spender_account_index i < NUMBER_OF_ADDRESSES" "tf_from_account_index i < NUMBER_OF_ADDRESSES" "tf_to_account_index i < NUMBER_OF_ADDRESSES"
    using assms(2) by (simp_all add: arm_simps)
  note acc = account_in [OF ok(2)] account_in [OF ok(3)] account_in [OF ok(4)]
  note mem = acc [THEN account_in_signers]
  show ?thesis
    unfolding exec_transfer_from_def account_address_ok [OF ok(2)] account_address_ok [OF ok(3)] account_address_ok [OF ok(4)]
      bnd_simps cur_simps
  proof (rule run_call_sound [OF assms(1) ok(1) _ _ _ assms(3,4), where pre = "\<lambda>t. sint ?n \<le> bals t ?from \<and> sint ?n \<le> allws t ?from ?spender",
        OF _ _ _ transfer_from_law [OF _ refl ok(2) acc(2,3)]])
    show "agree acc_set t u \<Longrightarrow> agree acc_set (spec_transfer_from ?spender ?from ?to (sint ?n) t) (spec_transfer_from ?spender ?from ?to (sint ?n) u)" for t u
      by (rule agree_spec_transfer(2) [OF _ acc(2,3,1)])
    show "agree acc_set t u \<Longrightarrow> (\<lambda>t. sint ?n \<le> bals t ?from \<and> sint ?n \<le> allws t ?from ?spender) u \<Longrightarrow> (\<lambda>t. sint ?n \<le> bals t ?from \<and> sint ?n \<le> allws t ?from ?spender) t" for t u
      using acc by (simp add: agree_def)
  next
    assume r: "spec_range acc_set (book_view S cs)" "spec_range acc_set (spec_transfer_from ?spender ?from ?to (sint ?n) (book_view S cs))"
      "0 \<le> sint ?n" "(\<lambda>t. sint ?n \<le> bals t ?from \<and> sint ?n \<le> allws t ?from ?spender) (book_view S cs)"
    obtain cs' where cs': "mirror_transfer_from S ?spender ?from ?to ?n cs = Inr cs'" by (rule mirror_transfer_from_total [OF r(1) acc(2,3,1) r(3) conjunct1 [OF r(4)] conjunct2 [OF r(4)] r(2)])
    from cs' show "\<exists>cs'. mirror_transfer_from S ?spender ?from ?to ?n cs = Inr cs' \<and> book_view S cs' = spec_transfer_from ?spender ?from ?to (sint ?n) (book_view S cs) \<and>
        imbalance S (map ts_address signers) cs' = imbalance S (map ts_address signers) cs"
      using mirror_refines(5) [OF cs'] imbalance_mirror(5) [OF signers_distinct cs' mem(2,3)]
      by blast
  qed (use ok in \<open>simp_all add: NUMBER_OF_ADDRESSES_def\<close>)
qed

lemma exec_burn_from_sound:
  assumes "exec_inv c m (e, cs, nonce)" "command_ok (BurnFrom i)"
    and "m + int NUMBER_OF_ADDRESSES < 2 ^ 63" "unat (fst c) + unat max_ttl < 2 ^ 32"
  shows "sound quiet (exec_burn_from S token_bytes cur i (e, cs, nonce))
    (exec_inv c (m + int NUMBER_OF_ADDRESSES))"
proof -
  let ?spender = "account_addr S addr_of gen (bf_spender_account_index i)"
  let ?from = "account_addr S addr_of gen (bf_from_account_index i)"
  let ?n = "bf_amount i"
  have ok: "length (bf_auths i) = NUMBER_OF_ADDRESSES"
    "bf_spender_account_index i < NUMBER_OF_ADDRESSES" "bf_from_account_index i < NUMBER_OF_ADDRESSES"
    using assms(2) by (simp_all add: arm_simps)
  note acc = account_in [OF ok(2)] account_in [OF ok(3)]
  note mem = acc [THEN account_in_signers]
  show ?thesis
    unfolding exec_burn_from_def account_address_ok [OF ok(2)] account_address_ok [OF ok(3)]
      bnd_simps cur_simps
  proof (rule run_call_sound [OF assms(1) ok(1) _ _ _ assms(3,4), where pre = "\<lambda>t. sint ?n \<le> bals t ?from \<and> sint ?n \<le> allws t ?from ?spender",
        OF _ _ _ burn_from_law [OF _ refl ok(2) acc(2)]])
    show "agree acc_set t u \<Longrightarrow> agree acc_set (spec_burn_from ?spender ?from (sint ?n) t) (spec_burn_from ?spender ?from (sint ?n) u)" for t u
      by (rule agree_spec_transfer(3) [OF _ acc(2,1)])
    show "agree acc_set t u \<Longrightarrow> (\<lambda>t. sint ?n \<le> bals t ?from \<and> sint ?n \<le> allws t ?from ?spender) u \<Longrightarrow> (\<lambda>t. sint ?n \<le> bals t ?from \<and> sint ?n \<le> allws t ?from ?spender) t" for t u
      using acc by (simp add: agree_def)
  next
    assume r: "spec_range acc_set (book_view S cs)" "spec_range acc_set (spec_burn_from ?spender ?from (sint ?n) (book_view S cs))"
      "0 \<le> sint ?n" "(\<lambda>t. sint ?n \<le> bals t ?from \<and> sint ?n \<le> allws t ?from ?spender) (book_view S cs)"
    obtain cs' where cs': "mirror_burn_from S ?spender ?from ?n cs = Inr cs'" by (rule mirror_burn_from_total [OF r(1) acc(2,1) r(3) conjunct1 [OF r(4)] conjunct2 [OF r(4)]])
    from cs' show "\<exists>cs'. mirror_burn_from S ?spender ?from ?n cs = Inr cs' \<and> book_view S cs' = spec_burn_from ?spender ?from (sint ?n) (book_view S cs) \<and>
        imbalance S (map ts_address signers) cs' = imbalance S (map ts_address signers) cs"
      using mirror_refines(6) [OF cs'] imbalance_mirror(6) [OF signers_distinct cs' mem(2)]
      by blast
  qed (use ok in \<open>simp_all add: NUMBER_OF_ADDRESSES_def\<close>)
qed

lemma exec_inv_mono: "exec_inv c m st \<Longrightarrow> m \<le> m' \<Longrightarrow> exec_inv c m' st"
  by (auto simp: exec_inv_def)

lemma sound_exec_mono:
  "sound quiet r (exec_inv c m) \<Longrightarrow> m \<le> m' \<Longrightarrow> sound quiet r (exec_inv c m')"
  by (erule sound_mono) (rule exec_inv_mono)

text \<open>A compound command is two calls, so a command uses at most twice as many nonces as accounts.\<close>

definition nonces_per_command :: int where
  "nonces_per_command = 2 * int NUMBER_OF_ADDRESSES"

lemmas call_sounds = exec_mint_sound exec_approve_sound exec_transfer_from_sound
  exec_transfer_sound exec_burn_from_sound exec_burn_sound

lemma exec_command_sound:
  assumes inv: "exec_inv c m st" and ok: "command_ok cmd"
    and m: "m + nonces_per_command < 2 ^ 63" and c: "unat (fst c) + unat max_ttl < 2 ^ 32"
  shows "sound quiet (exec_command S token_bytes cur cmd st) (exec_inv c (m + nonces_per_command))"
proof -
  obtain e cs nonce where st: "st = (e, cs, nonce)" by (cases st)
  have m1: "m + int NUMBER_OF_ADDRESSES < 2 ^ 63"
    "m + int NUMBER_OF_ADDRESSES + int NUMBER_OF_ADDRESSES < 2 ^ 63"
    using m by (simp_all add: nonces_per_command_def)
  have le: "m + int NUMBER_OF_ADDRESSES \<le> m + nonces_per_command"
    "m + int NUMBER_OF_ADDRESSES + int NUMBER_OF_ADDRESSES \<le> m + nonces_per_command"
    by (simp_all add: nonces_per_command_def)
  note one = sound_exec_mono [OF _ le(1)]
  note two = sound_exec_mono [OF _ le(2)]
  show ?thesis
  proof (cases cmd)
    case (ApproveAndTransferFrom i)
    then have parts: "command_ok (Approve (atf_to_approve_input i))"
      "command_ok (TransferFrom (to_transfer_from_input i))"
      using ok by (blast intro: compound_parts_ok)+
    show ?thesis
      unfolding ApproveAndTransferFrom exec_command.simps st
    proof (rule sound_bnd [OF exec_approve_sound [OF _ parts(1) m1(1) c]])
      show "exec_inv c m (e, cs, nonce)" using inv st by simp
      show "sound quiet (exec_transfer_from S token_bytes cur (to_transfer_from_input i) a)
          (exec_inv c (m + nonces_per_command))" if "exec_inv c (m + int NUMBER_OF_ADDRESSES) a" for a
        using two [OF exec_transfer_from_sound [OF _ parts(2) m1(2) c]] that by (cases a) blast
    qed
  next
    case (ApproveAndBurnFrom i)
    then have parts: "command_ok (Approve (abf_to_approve_input i))"
      "command_ok (BurnFrom (to_burn_from_input i))"
      using ok by (blast intro: compound_parts_ok)+
    show ?thesis
      unfolding ApproveAndBurnFrom exec_command.simps st
    proof (rule sound_bnd [OF exec_approve_sound [OF _ parts(1) m1(1) c]])
      show "exec_inv c m (e, cs, nonce)" using inv st by simp
      show "sound quiet (exec_burn_from S token_bytes cur (to_burn_from_input i) a)
          (exec_inv c (m + nonces_per_command))" if "exec_inv c (m + int NUMBER_OF_ADDRESSES) a" for a
        using two [OF exec_burn_from_sound [OF _ parts(2) m1(2) c]] that by (cases a) blast
    qed
  qed (use inv ok m1(1) c in \<open>simp_all only: st exec_command.simps one [OF call_sounds(1)]
      one [OF call_sounds(2)] one [OF call_sounds(3)] one [OF call_sounds(4)]
      one [OF call_sounds(5)] one [OF call_sounds(6)]\<close>)
qed

section \<open>Reading the token\<close>

lemma metadata_sound:
  assumes "good e" "meta (obs e) = book_meta cs"
  obtains e' where "assert_metadata S cs cur e = Inr e'" "mv e e' (\<lambda>t. t)"
proof -
  let ?m = "(name cs, symbol cs, decimals cs)"
  have m: "meta (obs e) = ?m" using assms(2) by (simp add: book_meta_def)
  have short: "length (name cs) < 2 ^ 32" "length (symbol cs) < 2 ^ 32"
    using meta_law [OF assms(1) m] by simp_all
  obtain e1 where e1: "client_name tc e = Inr (name cs, e1)" "mv e e1 (\<lambda>t. t)"
    using metadata_law [OF assms(1) m] by blast
  obtain e2 where e2: "client_symbol tc e1 = Inr (symbol cs, e2)" "mv e1 e2 (\<lambda>t. t)"
    using metadata_law [of e1 "name cs" "symbol cs" "decimals cs"] e1(2) m by (auto simp: moves_def)
  obtain e3 where e3: "client_decimals tc e2 = Inr (decimals cs, e3)" "mv e2 e3 (\<lambda>t. t)"
    using metadata_law [of e2 "name cs" "symbol cs" "decimals cs"] e1(2) e2(2) m
    by (auto simp: moves_def)
  have "assert_metadata S cs cur e = Inr e3"
    using e1(1) e2(1) e3(1) string_to_bytes_ok [OF short(1)] string_to_bytes_ok [OF short(2)]
    by (simp add: assert_metadata_def)
  then show ?thesis by (rule that [OF _ moves_id [OF moves_id [OF e1(2) e2(2)] e3(2)]])
qed

lemma sound_total: "sound True m P \<longleftrightarrow> (\<exists>a. m = Inr a \<and> P a)"
  by (cases m) auto

lemma moves_obs: "mv e e' (\<lambda>t. t) \<Longrightarrow> obs e' = obs e"
  by (simp add: moves_def)

lemma assert_balance_sound:
  assumes "good e" "agree acc_set (book_view S cs) (obs e)" "x \<in> set signers"
  obtains e' where "assert_balance S cs cur x e = Inr e'" "mv e e' (\<lambda>t. t)"
    "17280 \<le> life e' (Some (ts_address x))" "4095 \<le> life e' None"
proof -
  let ?a = "ts_address x"
  have a: "?a \<in> acc_set" using assms(3) by (rule signer_in)
  obtain w where w: "get_balance S cs ?a = Inr w" "sint w = tracked_balance S cs ?a"
    by (rule get_balance_ok)
  obtain b e1 where b: "client_balance tc e ?a = Inr (b, e1)" "sint b = bals (obs e) ?a"
      "mv e e1 (\<lambda>t. t)"
    using balance_law [OF assms(1) a] by blast
  obtain b' e2 where b': "client_balance tc e1 ?a = Inr (b', e2)" "sint b' = bals (obs e) ?a"
      "mv e1 e2 (\<lambda>t. t)" "17280 \<le> life e2 (Some ?a)" "4095 \<le> life e2 None"
    using balance_law [OF good_moves [OF b(3)] a] moves_obs [OF b(3)] by auto
  have "sint w = sint b"
    using w(2) b(2) agree_bals [OF assms(2) a] by (simp add: book_view_def)
  then have "w = b" by simp
  moreover have "0 \<le> sint b'" using b'(2) spec_rangeD(1) [OF range_law [OF assms(1)] a] by simp
  ultimately have "assert_balance S cs cur x e = Inr e2"
    using w(1) b(1) b'(1) by (simp add: assert_balance_def)
  then show ?thesis using that moves_id [OF b(3) b'(3)] b'(4,5) by blast
qed

lemma pair_in:
  assumes "xy \<in> set (account_pairs cur)"
  obtains x y where "xy = (x, y)" "ts_address x \<in> acc_set" "ts_address y \<in> acc_set"
proof -
  have "fst xy \<in> set signers" "snd xy \<in> set signers"
    using assms by (auto simp: account_pairs_def)
  then show ?thesis using that [of "fst xy" "snd xy"] signer_in by simp
qed

lemma assert_allowance_sound:
  assumes "good e" "agree acc_set (book_view S cs) (obs e)" "xy \<in> set (account_pairs cur)"
  obtains e' where "assert_allowance S cs cur xy e = Inr e'" "mv e e' (\<lambda>t. t)"
proof -
  obtain x y where xy: "xy = (x, y)" "ts_address x \<in> acc_set" "ts_address y \<in> acc_set"
    by (rule pair_in [OF assms(3)])
  obtain w where w: "get_allowance S cs (ts_address x) (ts_address y) = Inr w"
      "sint w = tracked_allowance S cs (ts_address x) (ts_address y)"
    by (rule get_allowance_ok)
  obtain n e1 where n: "client_allowance tc e (ts_address x) (ts_address y) = Inr (n, e1)"
      "sint n = allws (obs e) (ts_address x) (ts_address y)" "mv e e1 (\<lambda>t. t)"
    using allowance_law [OF assms(1) xy(2,3)] by blast
  have "sint w = sint n"
    using w(2) n(2) agree_allws [OF assms(2) xy(2,3)] by (simp add: book_view_def)
  then have "w = n" by simp
  with w(1) n(1) xy(1) have "assert_allowance S cs cur xy e = Inr e1"
    by (simp add: assert_allowance_def)
  with n(3) show ?thesis using that by blast
qed

lemma moves_keep_life:
  assumes "mv e e' f" "x \<in> X \<Longrightarrow> 17280 \<le> life e (Some x)"
  shows "x \<in> X \<Longrightarrow> 17280 \<le> life e' (Some x)"
  using assms unfolding moves_def by (metis day_unat(1) le_trans)

lemma balances_loop:
  assumes "good e" "agree acc_set (book_view S cs) (obs e)"
  obtains e' where "fold_may (assert_balance S cs cur) signers e = Inr e'" "mv e e' (\<lambda>t. t)"
    "long_lived 17280 e'" "4095 \<le> life e' None"
proof -
  define P where "P k e' \<longleftrightarrow> mv e e' (\<lambda>t. t) \<and> (0 < k \<longrightarrow> 4095 \<le> life e' None) \<and>
      (\<forall>j<k. 17280 \<le> life e' (Some (ts_address (signers ! j))))" for k e'
  have "sound True (fold_may (assert_balance S cs cur) signers e) (P (length signers))"
  proof (rule sound_fold)
    show "P 0 e" using assms(1) by (simp add: P_def moves_def)
  next
    fix k e1
    assume k: "k < length signers" and P: "P k e1"
    then have e1: "mv e e1 (\<lambda>t. t)" by (simp add: P_def)
    obtain e2 where e2: "assert_balance S cs cur (signers ! k) e1 = Inr e2" "mv e1 e2 (\<lambda>t. t)"
      "17280 \<le> life e2 (Some (ts_address (signers ! k)))" "4095 \<le> life e2 None"
      using assms(2) moves_obs [OF e1] by (elim assert_balance_sound [OF good_moves [OF e1] _ nth_mem [OF k], rotated]) simp
    have "17280 \<le> life e2 (Some (ts_address (signers ! j)))" if "j < Suc k" for j
    proof (cases "j = k")
      case False
      then show ?thesis
        using moves_keep_life [OF e2(2), of _ "{ts_address (signers ! j)}"] P that by (auto simp: P_def)
    qed (use e2(3) in simp)
    then show "sound True (assert_balance S cs cur (signers ! k) e1) (P (Suc k))"
      using e2 moves_id [OF e1 e2(2)] by (simp add: P_def)
  qed
  then obtain e' where e': "fold_may (assert_balance S cs cur) signers e = Inr e'"
      "P NUMBER_OF_ADDRESSES e'"
    by (auto simp: sound_total)
  moreover have "long_lived 17280 e'"
    using e'(2) signer_address by (auto simp: P_def long_lived_def account_set_def)
  ultimately show ?thesis using that by (auto simp: P_def NUMBER_OF_ADDRESSES_def)
qed

lemma allowances_loop:
  assumes "good e" "agree acc_set (book_view S cs) (obs e)"
  obtains e' where "fold_may (assert_allowance S cs cur) (account_pairs cur) e = Inr e'"
    "mv e e' (\<lambda>t. t)"
proof -
  have "\<exists>e'. fold_may (assert_allowance S cs cur) (account_pairs cur) e = Inr e' \<and> mv e e' (\<lambda>t. t)"
  proof (rule fold_may_total)
    show "mv e e (\<lambda>t. t)" using assms(1) by (simp add: moves_def)
  next
    fix xy e1
    assume xy: "xy \<in> set (account_pairs cur)" and e1: "mv e e1 (\<lambda>t. t)"
    have "agree acc_set (book_view S cs) (obs e1)" using assms(2) moves_obs [OF e1] by simp
    then obtain e2 where "assert_allowance S cs cur xy e1 = Inr e2" "mv e1 e2 (\<lambda>t. t)"
      by (rule assert_allowance_sound [OF good_moves [OF e1] _ xy])
    then show "\<exists>e2. assert_allowance S cs cur xy e1 = Inr e2 \<and> mv e e2 (\<lambda>t. t)"
      using moves_id [OF e1] by blast
  qed
  then show ?thesis using that by blast
qed

lemma sum_loop:
  assumes "good e"
  obtains e' where "fold_may (add_actual_balance cur) signers (0, e) =
      Inr (total_supply (map ts_address signers) (obs e), e')" "mv e e' (\<lambda>t. t)"
proof -
  define P where "P k st \<longleftrightarrow> mv e (snd st) (\<lambda>t. t) \<and>
      fst st = total_supply (map ts_address (take k signers)) (obs e)" for k and st :: "int \<times> 'env"
  have "sound True (fold_may (add_actual_balance cur) signers (0, e)) (P (length signers))"
  proof (rule sound_fold)
    show "P 0 (0, e)" using assms by (simp add: P_def moves_def total_supply_def)
  next
    fix k st
    assume k: "k < length signers" and P: "P k st"
    then have e1: "mv e (snd st) (\<lambda>t. t)" by (simp add: P_def)
    obtain b e2 where b: "client_balance tc (snd st) (ts_address (signers ! k)) = Inr (b, e2)"
        "sint b = bals (obs e) (ts_address (signers ! k))" "mv (snd st) e2 (\<lambda>t. t)"
      using balance_law [OF good_moves [OF e1] signer_in [OF nth_mem [OF k]]] moves_obs [OF e1]
      by auto
    have "total_supply (map ts_address (take (Suc k) signers)) (obs e) = fst st + sint b"
      using P b(2) unfolding take_Suc_conv_app_nth [OF k] by (simp add: P_def total_supply_def)
    then show "sound True (add_actual_balance cur (signers ! k) st) (P (Suc k))"
      using b(1) moves_id [OF e1 b(3)] by (simp add: add_actual_balance_def P_def)
  qed
  then obtain st where "fold_may (add_actual_balance cur) signers (0, e) = Inr st"
      "P (length signers) st"
    unfolding sound_total by blast
  then show ?thesis using that [of "snd st"] by (simp add: P_def) (metis prod.collapse)
qed

text \<open>
  \<open>assert_state\<close> passes when the book agrees with the token and is balanced, and leaves every
  account's balance alive for at least a day.
\<close>

lemma assert_state_sound:
  assumes "good e" "agree acc_set (book_view S cs) (obs e)"
    and "imbalance S (map ts_address signers) cs = 0"
  obtains e' where "assert_state S cs cur e = Inr e'" "mv e e' (\<lambda>t. t)"
    "long_lived 17280 e'" "4095 \<le> life e' None"
proof -
  have "meta (obs e) = book_meta cs"
    using agree_meta [OF assms(2)] by (simp add: book_view_def)
  then obtain e1 where e1: "assert_metadata S cs cur e = Inr e1" "mv e e1 (\<lambda>t. t)"
    by (rule metadata_sound [OF assms(1)])
  obtain e2 where e2: "fold_may (assert_balance S cs cur) signers e1 = Inr e2" "mv e1 e2 (\<lambda>t. t)"
      "long_lived 17280 e2" "4095 \<le> life e2 None"
    using assms(2) balances_loop [OF good_moves [OF e1(2)]] moves_obs [OF e1(2)] by metis
  obtain e3 where e3: "fold_may (assert_allowance S cs cur) (account_pairs cur) e2 = Inr e3"
      "mv e2 e3 (\<lambda>t. t)"
    using assms(2) allowances_loop [OF good_moves [OF e2(2)]] moves_obs [OF e1(2)] moves_obs [OF e2(2)]
    by metis
  have o3: "obs e3 = obs e" using moves_obs e1(2) e2(2) e3(2) by metis
  obtain e4 where e4: "fold_may (add_actual_balance cur) signers (0, e3) =
      Inr (total_supply (map ts_address signers) (obs e), e4)" "mv e3 e4 (\<lambda>t. t)"
    using sum_loop [OF good_moves [OF e3(2)]] o3 by metis
  have "set (map ts_address signers) \<subseteq> acc_set" using signer_in by auto
  then have "total_supply (map ts_address signers) (obs e) = sum_of_mints cs - sum_of_burns cs"
    using supply_agree [OF assms(2)] assms(3) by (simp add: imbalance_def minted_minus_burned_def)
  then have "assert_state S cs cur e = Inr e4"
    using e1(1) e2(1) e3(1) e4(1) by (simp add: assert_state_def Let_def)
  moreover have "mv e e4 (\<lambda>t. t)"
    using e1(2) e2(2) e3(2) e4(2) moves_id by metis
  moreover have "long_lived 17280 e4" "4095 \<le> life e4 None"
    using e2(3,4) long_lived_moves [OF e3(2)] long_lived_moves [OF e4(2)] by auto
  ultimately show ?thesis by (rule that)
qed

end

end
