(* ===== verification/Run_Sound.thy ===== *)
theory Run_Sound
  imports Fuzz_Sound
begin

text \<open>
  Whole runs: a token that keeps \<open>token_contract\<close> also keeps \<open>token_clock\<close> (the interface
  \<open>advance_time\<close> relies on), lapsed allowances leave the book in step with the token, and so every
  transaction and every run returns.
\<close>

text \<open>The ledgers a list of transactions advances, and the number of its commands.\<close>

definition run_ledgers :: "transaction list \<Rightarrow> nat" where
  "run_ledgers txs = (\<Sum>tx\<leftarrow>txs. unat (advance_ledgers tx))"

definition run_commands :: "transaction list \<Rightarrow> nat" where
  "run_commands txs = (\<Sum>tx\<leftarrow>txs. length (commands tx))"

text \<open>
  The run fits the machine integers: the ledger sequence with the longest signature life and
  with the look-ahead of \<open>advance_time\<close> in \<open>u32\<close>, the timestamp in \<open>u64\<close>, the nonces in \<open>i64\<close>.
\<close>

definition run_fits :: "u32 \<Rightarrow> u32 \<times> u64 \<Rightarrow> int \<Rightarrow> transaction list \<Rightarrow> bool" where
  "run_fits ttl c m txs \<longleftrightarrow>
     unat (fst c) + run_ledgers txs + unat ttl < 2 ^ 32 \<and>
     unat (fst c) + run_ledgers txs + 4094 < 2 ^ 32 \<and>
     unat (snd c) + 5 * run_ledgers txs < 2 ^ 64 \<and>
     m + 2 * int NUMBER_OF_ADDRESSES * int (run_commands txs) < 2 ^ 63"

lemma run_fits_Nil [simp]:
  "run_ledgers [] = 0" "run_commands [] = 0"
  "run_ledgers (tx # txs) = unat (advance_ledgers tx) + run_ledgers txs"
  "run_commands (tx # txs) = length (commands tx) + run_commands txs"
  by (simp_all add: run_ledgers_def run_commands_def)

sublocale token_contract \<subseteq> run_clock: token_clock S N config "address_to_string S tok"
  "\<lambda>n e. n \<le> 17280 \<and> good e \<and> long_lived n e"
  "\<lambda>n e. n \<le> 17280 \<and> good e \<and> long_lived n e \<and> 4095 \<le> life e None"
  "\<lambda>e e'. aged (account_set S addr_of gen) (obs e) (obs e')"
proof unfold_locales
  fix n e l e1
  assume e: "n \<le> 17280 \<and> good e \<and> long_lived n e \<and> 4095 \<le> life e None"
    and l: "unat l \<le> n" "l \<le> MAX_LEDGERS_TO_ADVANCE" "advance_env N e l = Inr e1"
  have "unat l \<le> life e None" using e l(2) by (simp add: word_le_nat_alt)
  moreover have "unat l \<le> life e (Some a)" if "a \<in> account_set S addr_of gen" for a
    using e l(1) that le_trans unfolding long_lived_def by blast
  ultimately obtain e2 where e2: "reregister_contract config e1 tok = Inr e2" "good e2"
      "clock S N e2 = clock S N e1" "aged (account_set S addr_of gen) (obs e) (obs e2)"
      "\<forall>a\<in>account_set S addr_of gen. life e (Some a) \<le> life e2 (Some a) + unat l"
    using advance_law l(3) e by blast
  have "long_lived (n - unat l) e2"
    unfolding long_lived_def
  proof
    fix a
    assume a: "a \<in> account_set S addr_of gen"
    then have "n \<le> life e (Some a)" using e by (simp add: long_lived_def)
    with e2(5) a show "n - unat l \<le> life e2 (Some a)" by fastforce
  qed
  with e2 e show "\<exists>a e2. address_from_string_bytes S e1 (address_to_string S tok) = Inr a \<and>
      reregister_contract config e1 a = Inr e2 \<and> clock S N e2 = clock S N e1 \<and>
      (n - unat l \<le> 17280 \<and> good e2 \<and> long_lived (n - unat l) e2) \<and>
      aged (account_set S addr_of gen) (obs e) (obs e2)"
    by (auto simp: address_parse)
next
  fix n e
  assume e: "n \<le> 17280 \<and> good e \<and> long_lived n e"
  let ?e1 = "snd (address_generate S e)"
  let ?e2 = "snd (address_generate S ?e1)"
  have m1: "moves good obs (clock S N) life e ?e1 (\<lambda>t. t)" using generate_law e by blast
  have m2: "moves good obs (clock S N) life ?e1 ?e2 (\<lambda>t. t)"
    using generate_law good_moves [OF m1] by blast
  obtain r e3 where r: "try_allowance tc ?e2 (fst (address_generate S e))
      (fst (address_generate S ?e1)) = (Ok r, e3)"
    "moves good obs (clock S N) life ?e2 e3 (\<lambda>t. t)" "unat MAX_LEDGERS_TO_ADVANCE \<le> life e3 None"
    using ping_law [OF good_moves [OF m2]] by blast
  have m: "moves good obs (clock S N) life e e3 (\<lambda>t. t)"
    by (rule moves_id [OF moves_id [OF m1 m2] r(2)])
  have "long_lived n e3"
    unfolding long_lived_def
  proof
    fix a
    assume "a \<in> account_set S addr_of gen"
    then have "n \<le> life e (Some a)" using e by (simp add: long_lived_def)
    moreover have "life e (Some a) \<le> life e3 (Some a) \<or> 17280 \<le> life e3 (Some a)"
      using m by (simp add: moves_def)
    ultimately show "n \<le> life e3 (Some a)" using e by linarith
  qed
  moreover have "ping S e (address_to_string S tok) = Inr e3"
    using r(1) by (simp add: ping_def address_parse client_law case_prod_unfold Let_def)
  ultimately show "\<exists>e'. ping S e (address_to_string S tok) = Inr e' \<and> clock S N e' = clock S N e \<and>
      (n \<le> 17280 \<and> good e' \<and> long_lived n e' \<and> 4095 \<le> life e' None) \<and>
      aged (account_set S addr_of gen) (obs e) (obs e')"
    using m e r(3) by (auto simp: moves_def)
qed (rule aged_trans)

context token_contract
begin

section \<open>Lapsed allowances\<close>

definition refresh_inv where
  "refresh_inv t c ps k st \<longleftrightarrow>
     (case st of (cs, e) \<Rightarrow>
        good e \<and> obs e = t \<and> clock S N e = c \<and> aged acc_set (book_view S cs) t \<and>
        imbalance S (map ts_address signers) cs = 0 \<and>
        (\<forall>j<k. allws (book_view S cs) (ts_address (fst (ps ! j))) (ts_address (snd (ps ! j))) =
           allws t (ts_address (fst (ps ! j))) (ts_address (snd (ps ! j)))))"

lemma refresh_step:
  assumes inv: "refresh_inv t c ps k (cs, e)" and ps: "ps = account_pairs cur" and k: "k < length ps"
  shows "sound True (refresh_allowance S cur (ps ! k) (cs, e)) (refresh_inv t c ps (Suc k))"
proof -
  have pk: "ps ! k \<in> set (account_pairs cur)" using k unfolding ps by (rule nth_mem)
  obtain x y where xy: "ps ! k = (x, y)" "ts_address x \<in> acc_set" "ts_address y \<in> acc_set"
    by (rule pair_in [OF pk])
  let ?a = "ts_address x"
  let ?b = "ts_address y"
  have e: "good e" "obs e = t" "clock S N e = c" "aged acc_set (book_view S cs) t"
      "imbalance S (map ts_address signers) cs = 0"
    using inv by (simp_all add: refresh_inv_def)
  obtain w where w: "get_allowance S cs ?a ?b = Inr w" "sint w = tracked_allowance S cs ?a ?b"
    by (rule get_allowance_ok)
  obtain n e1 where n: "client_allowance tc e ?a ?b = Inr (n, e1)" "sint n = allws t ?a ?b"
      "mv e e1 (\<lambda>t. t)"
    using allowance_law [OF e(1) xy(2,3)] e(2) by blast
  have wn: "n = 0 \<or> w = n"
  proof -
    have "allws t ?a ?b = sint w \<or> allws t ?a ?b = 0"
      using e(4) xy(2,3) w(2) by (simp add: aged_def book_view_def)
    then have "sint n = sint w \<or> sint n = sint (0::i128)" using n(2) by auto
    then show ?thesis unfolding sint_eq_sint_iff by auto
  qed
  show ?thesis
  proof (cases "n = 0 \<and> w \<noteq> 0")
    case True
    obtain cs' where cs': "set_allowance S cs ?a ?b n = Inr cs'"
      using True by (auto simp: set_allowance_Inr)
    then have bv: "book_view S cs' = spec_approve ?a ?b (sint n) (book_view S cs)"
        "minted_minus_burned cs' = minted_minus_burned cs"
      by (rule set_allowance_refines)+
    have "refresh_inv t c ps (Suc k) (cs', e1)"
      using inv n(2,3) e(4,5) bv xy(1) supply_spec(3) [OF signers_distinct]
      by (auto simp: refresh_inv_def moves_def aged_def less_Suc_eq spec_approve_def imbalance_def)
    with True w(1) n(1) cs' xy(1) show ?thesis by (simp add: refresh_allowance_def)
  next
    case False
    then have "w = n" using wn by auto
    then have "refresh_inv t c ps (Suc k) (cs, e1)"
      using inv n(2,3) w(2) xy(1)
      by (auto simp: refresh_inv_def moves_def less_Suc_eq book_view_def)
    with False w(1) n(1) xy(1) show ?thesis by (auto simp: refresh_allowance_def)
  qed
qed

lemma refresh_sound:
  assumes "good e" "aged acc_set (book_view S cs) (obs e)"
    and "imbalance S (map ts_address signers) cs = 0"
  obtains cs' e' where
    "fold_may (refresh_allowance S cur) (account_pairs cur) (cs, e) = Inr (cs', e')"
    "good e'" "clock S N e' = clock S N e" "agree acc_set (book_view S cs') (obs e')"
    "imbalance S (map ts_address signers) cs' = 0"
proof -
  let ?ps = "account_pairs cur"
  let ?inv = "refresh_inv (obs e) (clock S N e) ?ps"
  have "sound True (fold_may (refresh_allowance S cur) ?ps (cs, e)) (?inv (length ?ps))"
  proof (rule sound_fold)
    show "?inv 0 (cs, e)" using assms by (simp add: refresh_inv_def)
    show "sound True (refresh_allowance S cur (?ps ! k) st) (?inv (Suc k))"
      if "k < length ?ps" "?inv k st" for k st
      using refresh_step [OF _ refl that(1)] that(2) by (cases st) blast
  qed
  then obtain cs' e' where r: "fold_may (refresh_allowance S cur) ?ps (cs, e) = Inr (cs', e')"
      "?inv (length ?ps) (cs', e')"
    unfolding sound_total by (metis surj_pair)
  have "allws (book_view S cs') a b = allws (obs e) a b" if ab: "a \<in> acc_set" "b \<in> acc_set" for a b
  proof -
    obtain x y where xy: "x \<in> set signers" "y \<in> set signers" "ts_address x = a" "ts_address y = b"
      using account_in_signers [OF ab(1)] account_in_signers [OF ab(2)] by auto
    then have "(x, y) \<in> set ?ps" by (simp add: account_pairs_def)
    then obtain j where "j < length ?ps" "?ps ! j = (x, y)" by (metis in_set_conv_nth)
    with r(2) xy(3,4) show ?thesis by (auto simp: refresh_inv_def)
  qed
  then have "agree acc_set (book_view S cs') (obs e')"
    using r(2) by (auto simp: refresh_inv_def agree_def aged_def)
  with r show ?thesis by (intro that [of cs' e']) (simp_all add: refresh_inv_def)
qed

section \<open>Transactions and runs\<close>

definition run_inv where
  "run_inv c m st \<longleftrightarrow>
     (case st of (e, cs, nonce, cur') \<Rightarrow> cur' = cur \<and> exec_inv c m (e, cs, nonce))"

lemma commands_sound:
  assumes "exec_inv c m st" "list_all command_ok cmds"
    and "m + nonces_per_command * int (length cmds) < 2 ^ 63" "unat (fst c) + unat max_ttl < 2 ^ 32"
  shows "sound quiet (fold_may (exec_command S token_bytes cur) cmds st)
    (exec_inv c (m + nonces_per_command * int (length cmds)))"
proof (rule sound_fold [where P = "\<lambda>k. exec_inv c (m + nonces_per_command * int k)"])
  show "exec_inv c (m + nonces_per_command * int 0) st" using assms(1) by simp
next
  fix k st
  assume k: "k < length cmds" and inv: "exec_inv c (m + nonces_per_command * int k) st"
  have "nonces_per_command * int (Suc k) \<le> nonces_per_command * int (length cmds)"
    using k by (intro mult_left_mono) (simp_all add: nonces_per_command_def)
  then have "m + nonces_per_command * int k + nonces_per_command < 2 ^ 63"
    using assms(3) by (simp add: algebra_simps)
  moreover have "command_ok (cmds ! k)" using assms(2) k by (simp add: list_all_length)
  ultimately show "sound quiet (exec_command S token_bytes cur (cmds ! k) st)
      (exec_inv c (m + nonces_per_command * int (Suc k)))"
    using exec_command_sound [OF inv _ _ assms(4)] by (simp add: algebra_simps)
qed

lemma advance_sound:
  assumes "exec_inv c m (e, cs, nonce)" "1 \<le> l" "l \<le> DAY_IN_LEDGERS"
    and "unat (fst c) + unat l + 4094 < 2 ^ 32" "unat (snd c) + 5 * unat l < 2 ^ 64"
  obtains e' where "advance_time S N config e token_bytes l = Inr e'"
    "unat (fst (clock S N e')) = unat (fst c) + unat l"
    "unat (snd (clock S N e')) = unat (snd c) + 5 * unat l"
    "good e'" "aged acc_set (obs e) (obs e')"
proof -
  have e: "good e" "long_lived 17280 e" "4095 \<le> life e None"
      "ledger_sequence S e = fst c" "timestamp (to_snapshot N e) = snd c"
    using assms(1) by (auto simp: exec_inv_def clock_def)
  have l: "0 < unat l" "unat l \<le> 17280"
    using assms(2,3) by (simp_all add: word_le_nat_alt)
  show ?thesis
    using run_clock.advance_time_ok [of 17280 e l] e l assms(4,5) that
    by (auto simp: clock_def token_bytes_def)
qed

lemma run_transaction_sound:
  assumes inv: "exec_inv c m (e, cs, nonce)" and ok: "transaction_ok tx"
    and fits: "run_fits max_ttl c m (tx # txs)"
  shows "sound quiet (run_transaction S N config gen token_bytes tx (e, cs, nonce, cur))
    (\<lambda>st. \<exists>c' m'. run_inv c' m' st \<and> run_fits max_ttl c' m' txs)"
proof -
  let ?e0 = "budget_reset_unlimited S e"
  let ?m = "m + nonces_per_command * int (length (commands tx))"
  have "good e" "agree acc_set (book_view S cs) (obs e)"
      "imbalance S (map ts_address signers) cs = 0" "0 \<le> sint nonce" "sint nonce \<le> m"
    using inv by (simp_all add: exec_inv_def)
  then have inv0: "exec_inv c m (?e0, cs, nonce)"
    using exec_inv_moves [OF inv reset_law] by blast
  have b: "unat (fst c) + unat max_ttl < 2 ^ 32" "?m < 2 ^ 63"
      "unat (fst c) + unat (advance_ledgers tx) + 4094 < 2 ^ 32"
      "unat (snd c) + 5 * unat (advance_ledgers tx) < 2 ^ 64"
    using fits by (simp_all add: run_fits_def nonces_per_command_def NUMBER_OF_ADDRESSES_def)
  have txs: "list_all command_ok (commands tx)" "1 \<le> advance_ledgers tx"
      "advance_ledgers tx \<le> DAY_IN_LEDGERS"
    using ok by (simp_all add: transaction_ok_def)
  show ?thesis
    unfolding run_transaction_def Let_def prod.case
  proof (rule sound_bnd [OF commands_sound [OF inv0 txs(1) b(2,1)]])
    fix st
    assume st: "exec_inv c ?m st"
    obtain e1 cs1 nonce1 where st_eq: "st = (e1, cs1, nonce1)" by (cases st)
    note inv1 = st [unfolded st_eq]
    obtain e2 where e2: "advance_time S N config e1 token_bytes (advance_ledgers tx) = Inr e2"
        "unat (fst (clock S N e2)) = unat (fst c) + unat (advance_ledgers tx)"
        "unat (snd (clock S N e2)) = unat (snd c) + 5 * unat (advance_ledgers tx)"
        "good e2" "aged acc_set (obs e1) (obs e2)"
      by (rule advance_sound [OF inv1 txs(2,3) b(3,4)])
    have "aged acc_set (book_view S cs1) (obs e2)"
      using inv1 e2(5) by (simp add: exec_inv_def aged_def agree_def)
    moreover have "imbalance S (map ts_address signers) cs1 = 0"
      using inv1 by (simp add: exec_inv_def)
    ultimately obtain cs2 e3 where e3:
        "fold_may (refresh_allowance S cur) (account_pairs cur) (cs1, e2) = Inr (cs2, e3)"
        "good e3" "clock S N e3 = clock S N e2" "agree acc_set (book_view S cs2) (obs e3)"
        "imbalance S (map ts_address signers) cs2 = 0"
      by (rule refresh_sound [OF e2(4)])
    obtain e4 where e4: "assert_state S cs2 cur e3 = Inr e4" "mv e3 e4 (\<lambda>t. t)"
        "long_lived 17280 e4" "4095 \<le> life e4 None"
      by (rule assert_state_sound [OF e3(2,4,5)])
    have inv4: "run_inv (clock S N e2) ?m (e4, cs2, nonce1, cur)"
      using e4 e3(3-5) inv1 by (simp add: run_inv_def exec_inv_def moves_def)
    have fits4: "run_fits max_ttl (clock S N e2) ?m txs"
      using fits e2(2,3) by (simp add: run_fits_def nonces_per_command_def algebra_simps)
    from inv4 fits4 e2(1) e3(1) e4(1) show "sound quiet
        (case st of (e, cs, nonce) \<Rightarrow>
          bnd (advance_time S N config e token_bytes (advance_ledgers tx)) (\<lambda>e.
          bnd (current_state_new S config e token_bytes gen) (\<lambda>cur.
          bnd (fold_may (refresh_allowance S cur) (account_pairs cur) (cs, e)) (\<lambda>(cs, e).
          bnd (assert_state S cs cur e) (\<lambda>e. Inr (e, cs, nonce, cur))))))
        (\<lambda>st. \<exists>c' m'. run_inv c' m' st \<and> run_fits max_ttl c' m' txs)"
      by (simp add: st_eq current_state_new_ok del: split_paired_Ex) blast
  qed
qed

lemma transactions_sound:
  assumes "run_inv c m st" "list_all transaction_ok txs" "run_fits max_ttl c m txs"
  shows "sound quiet (fold_may (run_transaction S N config gen token_bytes) txs st)
    (\<lambda>st. \<exists>c m. run_inv c m st)"
  using assms
proof (induction txs arbitrary: c m st)
  case Nil
  then show ?case by (simp only: fold_may.simps sound_simps) blast
next
  case (Cons tx txs)
  obtain e cs nonce where st: "st = (e, cs, nonce, cur)" "exec_inv c m (e, cs, nonce)"
    using Cons.prems(1) by (cases st) (auto simp: run_inv_def)
  have "sound quiet (run_transaction S N config gen token_bytes tx st)
      (\<lambda>st. \<exists>c' m'. run_inv c' m' st \<and> run_fits max_ttl c' m' txs)"
    unfolding st(1) using Cons.prems(2,3) by (intro run_transaction_sound [OF st(2)]) simp_all
  then have "sound quiet (bnd (run_transaction S N config gen token_bytes tx st)
      (fold_may (run_transaction S N config gen token_bytes) txs)) (\<lambda>st. \<exists>c m. run_inv c m st)"
    by (rule sound_bnd) (use Cons.IH Cons.prems(2) in auto)
  then show ?case by simp
qed

lemma setup_storage_ready:
  assumes "ready e"
  obtains e' where "setup_account_storage S gen e = Inr e'" "ready e'" "clock S N e' = clock S N e"
proof -
  have "\<exists>e'. fold_may (\<lambda>ke env. put_entry S env ke)
      (concat (map (account_puts S gen) [0..<NUMBER_OF_ADDRESSES])) e = Inr e' \<and>
      (ready e' \<and> clock S N e' = clock S N e)"
  proof (rule fold_may_total)
    show "\<exists>e2. put_entry S e1 ke = Inr e2 \<and> ready e2 \<and> clock S N e2 = clock S N e"
      if "ready e1 \<and> clock S N e1 = clock S N e" for ke e1
      using ready_law(2) [of e1 "fst ke" "snd ke"] that by (auto simp: put_entry_def)
  qed (simp add: assms)
  then show ?thesis using that by (auto simp: setup_account_storage_ok [OF gen_ok])
qed

lemma metadata_reads:
  assumes "good e" "meta (obs e) = (nm, sb, dec)"
  obtains e1 e2 e3 where "client_name tc e = Inr (nm, e1)" "client_symbol tc e1 = Inr (sb, e2)"
    "client_decimals tc e2 = Inr (dec, e3)" "mv e e3 (\<lambda>t. t)"
proof -
  obtain e1 where e1: "client_name tc e = Inr (nm, e1)" "mv e e1 (\<lambda>t. t)"
    using metadata_law [OF assms] by blast
  obtain e2 where e2: "client_symbol tc e1 = Inr (sb, e2)" "mv e1 e2 (\<lambda>t. t)"
    using metadata_law [of e1 nm sb dec] e1(2) assms(2) by (auto simp: moves_def)
  obtain e3 where "client_decimals tc e2 = Inr (dec, e3)" "mv e2 e3 (\<lambda>t. t)"
    using metadata_law [of e2 nm sb dec] e1(2) e2(2) assms(2) by (auto simp: moves_def)
  with e1 e2 that show ?thesis using moves_id by metis
qed

lemma setup_run_sound:
  obtains st where "setup_run S config gen = Inr (token_bytes, st)"
    "run_inv (clock S N (env_default S)) 0 st"
proof -
  obtain e1 where e1: "setup_account_storage S gen (env_default S) = Inr e1" "ready e1"
      "clock S N e1 = clock S N (env_default S)"
    by (rule setup_storage_ready [OF ready_law(1)])
  obtain e2 nm sb dec where e2:
      "register_contract_init S config e1 (account_addr S addr_of gen 0) = Inr (tok, e2)"
      "good e2" "obs e2 = \<lparr>bals = (\<lambda>_. 0), allws = (\<lambda>_ _. 0), meta = (nm, sb, dec)\<rparr>"
      "clock S N e2 = clock S N e1" "4095 \<le> life e2 None" "long_lived 17280 e2"
    using register_law [OF e1(2)] by (auto simp: long_lived_def)
  obtain e3 e4 e5 where m: "client_name tc e2 = Inr (nm, e3)" "client_symbol tc e3 = Inr (sb, e4)"
      "client_decimals tc e4 = Inr (dec, e5)" "mv e2 e5 (\<lambda>t. t)"
    by (rule metadata_reads [OF e2(2)]) (simp_all add: e2(3))
  have short: "length nm < 2 ^ 32" "length sb < 2 ^ 32"
    using meta_law [OF e2(2), of nm sb dec] e2(3) by simp_all
  let ?cs = "init\<lparr>name := nm, symbol := sb, decimals := dec\<rparr>"
  have s0: "ts_address (signers ! 0) = account_addr S addr_of gen 0"
    by (rule signer_address) (simp add: NUMBER_OF_ADDRESSES_def)
  have "setup_run S config gen = Inr (token_bytes, e5, ?cs, 0, cur)"
    using e1(1) e2(1) m(1-3) s0 string_to_bytes_ok [OF short(1)] string_to_bytes_ok [OF short(2)]
    by (simp add: setup_run_def generate_signers_ok [OF gen_ok] address_to_bytes_ok
        token_bytes_def [symmetric] current_state_new_ok Let_def NUMBER_OF_ADDRESSES_def)
  moreover have "book_view S ?cs = obs e2"
    by (simp add: e2(3) book_view_def tracked_balance_def tracked_allowance_def book_meta_def
        init_def fun_eq_iff)
  then have "run_inv (clock S N (env_default S)) 0 (e5, ?cs, 0, cur)"
    using e2 e1(3) m(4) long_lived_moves [OF m(4)]
    by (simp add: run_inv_def exec_inv_def moves_def imbalance_def total_supply_def
        minted_minus_burned_def init_def comp_def sum_list_triv)
  ultimately show ?thesis by (rule that)
qed

lemma first_transaction_sound:
  assumes "transaction_ok tx" "run_fits max_ttl (clock S N (env_default S)) 0 (tx # txs)"
  shows "\<exists>tb st. setup_run S config gen = Inr (tb, st) \<and>
    sound quiet (run_transaction S N config gen tb tx st) (\<lambda>_. True)"
proof -
  obtain st where st: "setup_run S config gen = Inr (token_bytes, st)"
      "run_inv (clock S N (env_default S)) 0 st"
    by (rule setup_run_sound)
  obtain e cs nonce where e: "st = (e, cs, nonce, cur)" "exec_inv (clock S N (env_default S)) 0 (e, cs, nonce)"
    using st(2) by (cases st) (auto simp: run_inv_def)
  have "sound quiet (run_transaction S N config gen token_bytes tx st) (\<lambda>_. True)"
    unfolding e(1) by (rule sound_mono [OF run_transaction_sound [OF e(2) assms]]) simp
  with st(1) show ?thesis by blast
qed

text \<open>A run on a token that keeps its contract: no assertion fails.\<close>

lemma fuzz_token_sound:
  assumes "input_ok inp" "address_generator inp = gen"
    and "run_fits max_ttl (clock S N (env_default S)) 0 (transactions inp)"
  shows "sound quiet (fuzz_token S N config inp) (\<lambda>_. True)"
proof (cases "list_all (\<lambda>tx. commands tx = []) (transactions inp)")
  case False
  obtain st where st: "setup_run S config gen = Inr (token_bytes, st)"
      "run_inv (clock S N (env_default S)) 0 st"
    by (rule setup_run_sound)
  have "sound quiet (bnd (fold_may (run_transaction S N config gen token_bytes) (transactions inp) st)
      (\<lambda>_. Inr Keep)) (\<lambda>_. True)"
    by (rule sound_bnd [OF transactions_sound [OF st(2) _ assms(3)]])
      (use assms(1) in \<open>simp_all add: input_ok_def\<close>)
  with False st(1) assms(2) show ?thesis by (simp add: fuzz_token_def)
qed (simp add: fuzz_token_def)

end

end
