(* ===== verification/Example_World.thy ===== *)
theory Example_World
  imports Example_Target Token_Correct Run_Sound
begin

text \<open>
  The example token keeps the contract the fuzzer expects. The locale \<open>example_world\<close> states what
  is relied on of the SDK around the contract: clients run the entry points in frames of the
  host, authorizations are those of \<open>set_auths\<close>, registration yields an empty instance, and
  advancing the ledger drops at most what expired. The sublocale at the end shows that these
  laws and the entry points of the example token give \<open>token_contract\<close>.
\<close>

text \<open>The host's view is carried over from \<open>e\<close> to \<open>e'\<close>, and so is the clock.\<close>

definition carries ::
  "('env \<Rightarrow> bool) \<Rightarrow> ('env \<Rightarrow> 'addr host_view) \<Rightarrow> ('env \<Rightarrow> 'c) \<Rightarrow> 'env \<Rightarrow> 'env \<Rightarrow> bool" where
  "carries good view clk e e' \<longleftrightarrow> good e' \<and> view e' = view e \<and> clk e' = clk e"

text \<open>
  The view after \<open>l\<close> ledgers: metadata and instance storage stay, other entries stay or are gone,
  and a persistent entry with enough life stays.
\<close>

definition view_aged :: "nat \<Rightarrow> 'addr host_view \<Rightarrow> 'addr host_view \<Rightarrow> bool" where
  "view_aged l v v' \<longleftrightarrow>
     hv_meta v' = hv_meta v \<and> (\<forall>k. hv_store v' (Instance, k) = hv_store v (Instance, k)) \<and>
     (\<forall>d k. hv_store v' (d, k) = hv_store v (d, k) \<or> hv_store v' (d, k) = None) \<and>
     (\<forall>k. l \<le> hv_ttl v k \<longrightarrow> hv_store v' (Persistent, k) = hv_store v (Persistent, k) \<and>
        hv_ttl v k \<le> hv_ttl v' k + l)"

definition example_metadata :: token_metadata where
  "example_metadata =
     \<lparr>md_decimal = 10, md_name = from_str ''token'', md_symbol = from_str ''TKN''\<rparr>"

text \<open>The \<open>Env\<close>s of a run on the example token, and the remaining life of its entries.\<close>

definition example_good ::
  "('env \<Rightarrow> bool) \<Rightarrow> ('env \<Rightarrow> 'addr host_view) \<Rightarrow> 'addr \<Rightarrow> 'env \<Rightarrow> bool" where
  "example_good good view admin e \<longleftrightarrow>
     good e \<and> token_ok admin (view e) \<and> hv_meta (view e) = Some example_metadata"

definition example_life :: "('env \<Rightarrow> 'addr host_view) \<Rightarrow> 'env \<Rightarrow> 'addr option \<Rightarrow> nat" where
  "example_life view e x =
     (case x of
        None \<Rightarrow> hv_instance_ttl (view e)
      | Some a \<Rightarrow> (if hv_store (view e) (balance_key a) = None then 17280
          else hv_ttl (view e) (BalanceKey a)))"

locale example_world = sdk_auth S addr_of xdr + ledger_clock S N + token_host_laws H good view auth
  for S :: "('env, 'addr, 'key) sdk" and addr_of :: "sc_address \<Rightarrow> 'addr"
    and xdr :: "'addr authorization_preimage \<Rightarrow> u8 list"
    and N :: "('env, 'lk, 'le, 'r) snapshots"
    and H :: "('env, 'addr) token_host" and good :: "'env \<Rightarrow> bool"
    and view :: "'env \<Rightarrow> 'addr host_view" and auth :: "'env \<Rightarrow> 'addr \<Rightarrow> bool" +
  fixes X :: "('env, 'addr) example_sdk" and F :: "('env, 'addr) frames"
    and gen :: address_generator and tok :: 'addr and token_sc :: sc_address
    and ready :: "'env \<Rightarrow> bool" and auths_of :: "'env \<Rightarrow> 'addr authorization_entry list"
    and max_ttl :: u32
  assumes gen_ok: "generator_ok gen"
    and token_address: "sc_address_try_from S tok = Some token_sc"
    and client_law: "client_new S e tok = example_token_client F H"
    and contract_client_law: "ex_client_new X e tok = example_contract_client F H"
    and seq_view: "good e \<Longrightarrow> ledger_sequence S e = hv_seq (view e)"
    and ttl_law: "good e \<Longrightarrow> max_entry_ttl S e = max_ttl" "0 < unat max_ttl"
    and enter_law: "good e \<Longrightarrow> good (fr_enter F e fn vs) \<and> view (fr_enter F e fn vs) = view e"
    and enter_auth: "good e \<Longrightarrow> auth (fr_enter F e fn vs) a \<Longrightarrow> sc_address_try_from S a = Some sc \<Longrightarrow>
      authorized (auths_of e) sc (command_invocation token_sc fn vs)"
    and leave_law: "good e \<Longrightarrow> good e' \<Longrightarrow> hv_seq (view e') = hv_seq (view e) \<Longrightarrow>
      good (fr_leave F e e') \<and> view (fr_leave F e e') = view e' \<and>
      clock S N (fr_leave F e e') = clock S N e"
    and rollback_law: "good e \<Longrightarrow> carries good view (clock S N) e (fr_rollback F e)"
    and reset_law: "good e \<Longrightarrow> carries good view (clock S N) e (budget_reset_unlimited S e)"
    and set_auths_law: "good e \<Longrightarrow> carries good view (clock S N) e (set_auths S e es)"
      "good e \<Longrightarrow> auths_of (set_auths S e es) = es"
    and register_mock_law: "good e \<Longrightarrow> i < NUMBER_OF_ADDRESSES \<Longrightarrow>
      address_types gen ! i = Contract \<Longrightarrow>
      carries good view (clock S N) e (register_mock_auth_contract S e (account_addr S addr_of gen i))"
    and generate_law: "good e \<Longrightarrow> carries good view (clock S N) e (snd (address_generate S e))"
    and advance_law: "good e \<Longrightarrow> advance_env N e l = Inr e1 \<Longrightarrow> unat l \<le> hv_instance_ttl (view e) \<Longrightarrow>
      \<exists>e2. ex_register_contract X e1 (Some tok) = (tok, e2) \<and> good e2 \<and>
        clock S N e2 = clock S N e1 \<and> view_aged (unat l) (view e) (view e2)"
    and ready_law: "ready (env_default S)"
      "ready e \<Longrightarrow> \<exists>e'. storage_put S e k v None = Ok e' \<and> ready e' \<and> clock S N e' = clock S N e"
    and register_law: "ready e \<Longrightarrow> \<exists>e'. ex_register_contract X e None = (tok, e') \<and> good e' \<and>
      (\<forall>kk. hv_store (view e') kk = None) \<and> clock S N e' = clock S N e \<and>
      unat MAX_LEDGERS_TO_ADVANCE \<le> hv_instance_ttl (view e')"
    and instance_total: "good e \<Longrightarrow> \<exists>e'. host_set H Instance e dk sv = Inr e'"
      "good e \<Longrightarrow> \<exists>e'. host_set_metadata H e md = Inr e'"
begin

abbreviation (input) emv where
  "emv \<equiv> moves (example_good good view (account_addr S addr_of gen 0)) (\<lambda>e. token_view (view e))
    (clock S N) (example_life view)"

abbreviation (input) adm where
  "adm \<equiv> account_addr S addr_of gen 0"

lemma keeps_life:
  assumes "token_keeps (view e) (view e')"
  shows "example_life view e x \<le> example_life view e' x \<or> unat DAY_IN_LEDGERS \<le> example_life view e' x"
proof (cases x)
  case None
  then show ?thesis using assms by (simp add: token_keeps_def example_life_def)
next
  case (Some a)
  have new: "501120 \<le> hv_ttl (view e') (BalanceKey a)"
    if "hv_store (view e) (balance_key a) = None" "hv_store (view e') (balance_key a) \<noteq> None"
    using assms that unfolding token_keeps_def token_constants by blast
  have old: "hv_store (view e') (balance_key a) \<noteq> None \<and>
      hv_ttl (view e) (BalanceKey a) \<le> hv_ttl (view e') (BalanceKey a)"
    if "hv_store (view e) (balance_key a) \<noteq> None"
    using assms that unfolding token_keeps_def by blast
  show ?thesis
    by (cases "hv_store (view e) (balance_key a)"; cases "hv_store (view e') (balance_key a)")
      (use Some new old in \<open>auto simp: example_life_def DAY_IN_LEDGERS_def\<close>)
qed

lemma carries_moves:
  assumes "example_good good view adm e" "carries good view (clock S N) e e'"
  shows "emv e e' (\<lambda>t. t)"
  using assms keeps_life [of e e'] by (simp add: example_good_def carries_def moves_def)

text \<open>An entry point that performs \<open>step\<close> in its frame does so for the caller.\<close>

lemma leave_moves:
  assumes e: "example_good good view adm e"
    and step: "token_step good view adm (fr_enter F e fn vs) e' step"
  shows "emv e (fr_leave F e e') step" "view (fr_leave F e e') = view e'"
proof -
  have e1: "good e" "view (fr_enter F e fn vs) = view e"
    using e enter_law by (simp_all add: example_good_def)
  have k: "good e'" "token_ok adm (view e')" "token_keeps (view e) (view e')"
      "token_view (view e') = step (token_view (view e))"
    using step e1(2) by (simp_all add: token_step_def)
  then have "hv_seq (view e') = hv_seq (view e)" "hv_meta (view e') = hv_meta (view e)"
    by (simp_all add: token_keeps_def)
  then have l: "good (fr_leave F e e')" "view (fr_leave F e e') = view e'"
      "clock S N (fr_leave F e e') = clock S N e"
    using leave_law [OF e1(1) k(1)] by simp_all
  then show "view (fr_leave F e e') = view e'" by simp
  show "emv e (fr_leave F e e') step"
    unfolding moves_def
    using l k e \<open>hv_meta (view e') = hv_meta (view e)\<close> keeps_life [of e "fr_leave F e e'"]
    by (auto simp: example_good_def)
qed

lemma call_law:
  assumes e: "example_good good view adm e" and a: "sc_address_try_from S a = Some sc"
    and body: "\<And>e1 e'. good e1 \<Longrightarrow> token_ok adm (view e1) \<Longrightarrow> body e1 = Inr e' \<Longrightarrow>
      token_called good view auth adm e1 e' a n step \<and> pre (token_view (view e1))"
  shows "call_sound (\<forall>p. fr_error F p \<noteq> Error WasmVm InvalidAction) emv (auths_of e) e sc
    (command_invocation token_sc fn vs) n (pre (token_view (view e))) step
    (try_invoke F e fn vs (no_value body))"
proof -
  let ?e1 = "fr_enter F e fn vs"
  have e1: "good e" "good ?e1" "view ?e1 = view e" "token_ok adm (view ?e1)"
    using e enter_law by (simp_all add: example_good_def)
  show ?thesis
  proof (cases "body ?e1")
    case (Inl p)
    then show ?thesis
      using carries_moves [OF e rollback_law [OF e1(1)]]
      by (simp add: call_sound_def try_invoke_def no_value_def)
  next
    case (Inr e')
    then have called: "token_called good view auth adm ?e1 e' a n step"
        "pre (token_view (view ?e1))"
      using body [OF e1(2,4)] by simp_all
    then have "authorized (auths_of e) sc (command_invocation token_sc fn vs)"
      using enter_auth [OF e1(1) _ a] by (simp add: token_called_def)
    moreover have "token_step good view adm ?e1 e' step"
      using called(1) by (simp add: token_called_def)
    then have "emv e (fr_leave F e e') step" by (rule leave_moves(1) [OF e])
    ultimately show ?thesis
      using Inr called e1(3) by (simp add: call_sound_def try_invoke_def no_value_def token_called_def)
  qed
qed

lemma account_sc_of: "sc_address_try_from S (account_addr S addr_of gen i) = Some (account_sc S gen i)"
  by (simp add: account_addr_def)

lemma enter_good:
  assumes "example_good good view adm e"
  shows "good (fr_enter F e fn vs)" "view (fr_enter F e fn vs) = view e"
    "token_ok adm (view (fr_enter F e fn vs))"
  using assms enter_law [of e fn vs] by (simp_all add: example_good_def)

lemma balance_call:
  assumes "example_good good view adm e"
  shows "\<exists>b e'. client_balance (example_token_client F H) e a = Inr (b, e') \<and>
    sint b = bals (token_view (view e)) a \<and> emv e e' (\<lambda>t. t) \<and>
    unat DAY_IN_LEDGERS \<le> example_life view e' (Some a) \<and>
    unat MAX_LEDGERS_TO_ADVANCE \<le> example_life view e' None"
proof -
  let ?e1 = "fr_enter F e ''balance'' [AddressVal a]"
  note g = enter_good [OF assms, of "''balance''" "[AddressVal a]"]
  obtain b e' where b: "token_balance H ?e1 a = Inr (b, e')"
      "sint b = bals (token_view (view ?e1)) a" "token_step good view adm ?e1 e' (\<lambda>t. t)"
      "unat INSTANCE_LIFETIME_THRESHOLD \<le> hv_instance_ttl (view e')"
      "hv_store (view ?e1) (balance_key a) \<noteq> None \<longrightarrow>
        unat BALANCE_LIFETIME_THRESHOLD \<le> hv_ttl (view e') (BalanceKey a)"
    by (rule balance_view [OF g(1,3)])
  note leave = leave_moves [OF assms b(3)]
  have "\<not> (hv_store (view ?e1) (balance_key a) = None \<and> hv_store (view e') (balance_key a) \<noteq> None) \<or>
      unat BALANCE_LIFETIME_THRESHOLD \<le> hv_ttl (view e') (BalanceKey a)"
    using b(3) unfolding token_step_def token_keeps_def by blast
  then have "17280 \<le> example_life view (fr_leave F e e') (Some a)"
    using b(5) leave(2) by (auto simp: example_life_def)
  moreover have "4095 \<le> example_life view (fr_leave F e e') None"
    using b(4) leave(2) by (simp add: example_life_def)
  moreover have "client_balance (example_token_client F H) e a = Inr (b, fr_leave F e e')"
    using b(1) by (simp add: example_token_client_def invoke_def)
  ultimately show ?thesis using b(2) g(2) leave(1)
    by (simp add: DAY_IN_LEDGERS_def MAX_LEDGERS_TO_ADVANCE_def)
qed

lemma allowance_call:
  assumes "example_good good view adm e"
  shows "\<exists>n e'. client_allowance (example_token_client F H) e f s = Inr (n, e') \<and>
    try_allowance (example_token_client F H) e f s = (Ok (Ok n), e') \<and>
    sint n = allws (token_view (view e)) f s \<and> emv e e' (\<lambda>t. t) \<and>
    unat MAX_LEDGERS_TO_ADVANCE \<le> example_life view e' None"
proof -
  let ?e1 = "fr_enter F e ''allowance'' [AddressVal f, AddressVal s]"
  note g = enter_good [OF assms, of "''allowance''" "[AddressVal f, AddressVal s]"]
  obtain n e' where n: "token_allowance H ?e1 f s = Inr (n, e')"
      "sint n = allws (token_view (view ?e1)) f s" "token_step good view adm ?e1 e' (\<lambda>t. t)"
      "unat INSTANCE_LIFETIME_THRESHOLD \<le> hv_instance_ttl (view e')"
    by (rule allowance_view [OF g(1,3)])
  note leave = leave_moves [OF assms n(3)]
  have "4095 \<le> example_life view (fr_leave F e e') None"
    using n(4) leave(2) by (simp add: example_life_def)
  with n(1,2) g(2) leave(1) show ?thesis
    by (simp add: example_token_client_def invoke_def try_invoke_def MAX_LEDGERS_TO_ADVANCE_def)
qed

lemma metadata_call:
  assumes "example_good good view adm e" "meta (token_view (view e)) = (nm, sb, dec)"
  shows "\<exists>e'. client_name (example_token_client F H) e = Inr (nm, e') \<and> emv e e' (\<lambda>t. t)"
    and "\<exists>e'. client_symbol (example_token_client F H) e = Inr (sb, e') \<and> emv e e' (\<lambda>t. t)"
    and "\<exists>e'. client_decimals (example_token_client F H) e = Inr (dec, e') \<and> emv e e' (\<lambda>t. t)"
proof -
  have m: "token_name H (fr_enter F e fn vs) = Inr nm \<and> token_symbol H (fr_enter F e fn vs) = Inr sb \<and>
      token_decimals H (fr_enter F e fn vs) = Inr dec" for fn vs
    using metadata_view [OF enter_good(1,3) [OF assms(1)], of fn vs] assms(2)
      enter_good(2) [OF assms(1)] by auto
  have l: "emv e (fr_leave F e (fr_enter F e fn vs)) (\<lambda>t. t)" for fn vs
    using enter_good [OF assms(1)] by (intro leave_moves(1) [OF assms(1)]) (simp add: token_step_def)
  show "\<exists>e'. client_name (example_token_client F H) e = Inr (nm, e') \<and> emv e e' (\<lambda>t. t)"
    "\<exists>e'. client_symbol (example_token_client F H) e = Inr (sb, e') \<and> emv e e' (\<lambda>t. t)"
    "\<exists>e'. client_decimals (example_token_client F H) e = Inr (dec, e') \<and> emv e e' (\<lambda>t. t)"
    using m l by (simp_all add: example_token_client_def invoke_def no_effect_def)
qed

lemma aged_view:
  assumes v: "view_aged l (view e) (view e')" and seq: "hv_seq (view e) \<le> hv_seq (view e')"
    and life: "\<And>a. a \<in> A \<Longrightarrow> l \<le> example_life view e (Some a)"
  shows "token_ok admin (view e) \<Longrightarrow> token_ok admin (view e')"
    and "aged A (token_view (view e)) (token_view (view e'))"
    and "a \<in> A \<Longrightarrow> example_life view e (Some a) \<le> example_life view e' (Some a) + l"
proof -
  have same: "hv_store (view e') (d, k) = hv_store (view e) (d, k) \<or> hv_store (view e') (d, k) = None"
    for d k using v by (simp add: view_aged_def)
  have bal: "hv_store (view e') (balance_key a) = hv_store (view e) (balance_key a)"
    "hv_store (view e) (balance_key a) \<noteq> None \<longrightarrow>
      hv_ttl (view e) (BalanceKey a) \<le> hv_ttl (view e') (BalanceKey a) + l" if "a \<in> A" for a
  proof -
    have "hv_store (view e) (balance_key a) \<noteq> None \<Longrightarrow> l \<le> hv_ttl (view e) (BalanceKey a)"
      using life [OF that] by (simp add: example_life_def split: if_splits)
    then show "hv_store (view e') (balance_key a) = hv_store (view e) (balance_key a)"
      "hv_store (view e) (balance_key a) \<noteq> None \<longrightarrow>
      hv_ttl (view e) (BalanceKey a) \<le> hv_ttl (view e') (BalanceKey a) + l"
      using v same [of Persistent "BalanceKey a"] unfolding view_aged_def by metis+
  qed
  show "token_ok admin (view e')" if "token_ok admin (view e)"
    using that v unfolding token_ok_def view_aged_def by (metis option.distinct(1))
  have "meta (token_view (view e')) = meta (token_view (view e))"
    using v by (simp add: view_aged_def token_view_def)
  then show "aged A (token_view (view e)) (token_view (view e'))"
    using bal(1) allowance_lapses [OF seq same] by (simp add: aged_def)
  show "example_life view e (Some a) \<le> example_life view e' (Some a) + l" if "a \<in> A"
    using bal [OF that] by (simp add: example_life_def)
qed

lemma registration:
  assumes "ready e"
  shows "\<exists>e' m. example_register_contract_init X e adm = Inr (tok, e') \<and>
    example_good good view adm e' \<and>
    token_view (view e') = \<lparr>bals = (\<lambda>_. 0), allws = (\<lambda>_ _. 0), meta = m\<rparr> \<and>
    clock S N e' = clock S N e \<and> unat MAX_LEDGERS_TO_ADVANCE \<le> example_life view e' None \<and>
    (\<forall>a. unat DAY_IN_LEDGERS \<le> example_life view e' (Some a))"
proof -
  let ?nm = "from_str ''token''"
  let ?sb = "from_str ''TKN''"
  let ?vs = "[AddressVal adm, U32Val 10, StringVal ?nm, StringVal ?sb]"
  obtain e1 where e1: "ex_register_contract X e None = (tok, e1)" "good e1"
      "\<And>kk. hv_store (view e1) kk = None" "clock S N e1 = clock S N e"
      "unat MAX_LEDGERS_TO_ADVANCE \<le> hv_instance_ttl (view e1)"
    using register_law [OF assms] by blast
  let ?e2 = "fr_enter F e1 ''initialize'' ?vs"
  have e2: "good ?e2" "view ?e2 = view e1" using enter_law [OF e1(2)] by simp_all
  obtain e3 where e3: "host_set H Instance ?e2 AdminKey (StoredAddress adm) = Inr e3"
    using instance_total(1) [OF e2(1)] by blast
  have g3: "good e3" using set_law [OF e2(1) e3] by simp
  obtain e4 where e4: "host_set_metadata H e3 example_metadata = Inr e4"
    using instance_total(2) [OF g3] by blast
  have init: "token_initialize H ?e2 adm 10 ?nm ?sb = Inr e4"
    using e2 e1(3) e3 e4 by (simp add: token_initialize_def has_administrator_def has_law
        write_administrator_def write_metadata_def example_metadata_def)
  note i = initialize_step [OF e2(1) _ init, unfolded e2(2), OF e1(3)]
  have l: "good (fr_leave F e1 e4)" "view (fr_leave F e1 e4) = view e4"
      "clock S N (fr_leave F e1 e4) = clock S N e1"
    using leave_law [OF e1(2) i(1) i(5)] by simp_all
  have meta: "hv_meta (view e4) = Some example_metadata"
    using set_metadata_law [OF g3 e4] by simp
  have "example_register_contract_init X e adm = Inr (tok, fr_leave F e1 e4)"
    using e1(1) init by (simp add: example_register_contract_init_def contract_client_law
        example_contract_client_def try_invoke_def no_value_def Let_def)
  moreover have "example_good good view adm (fr_leave F e1 e4)"
    using l i(2) meta by (simp add: example_good_def)
  ultimately show ?thesis
    using l i(4,6,7) e1(4,5) by (auto simp: example_life_def DAY_IN_LEDGERS_def)
qed

lemma passing_time:
  assumes e: "example_good good view adm e" and adv: "advance_env N e l = Inr e1"
    and inst: "unat l \<le> example_life view e None"
    and life: "\<And>a. a \<in> A \<Longrightarrow> unat l \<le> example_life view e (Some a)"
  shows "\<exists>e2. example_reregister_contract X e1 tok = Inr e2 \<and> example_good good view adm e2 \<and>
    clock S N e2 = clock S N e1 \<and> aged A (token_view (view e)) (token_view (view e2)) \<and>
    (\<forall>a\<in>A. example_life view e (Some a) \<le> example_life view e2 (Some a) + unat l)"
proof -
  have g: "good e" using e by (simp add: example_good_def)
  then obtain e2 where e2: "ex_register_contract X e1 (Some tok) = (tok, e2)" "good e2"
      "clock S N e2 = clock S N e1" "view_aged (unat l) (view e) (view e2)"
    using advance_law [OF _ adv] inst by (auto simp: example_life_def)
  obtain seq ti where "clock S N e1 = (seq, ti)" "unat seq = unat (ledger_sequence S e) + unat l"
    by (rule advance_env_Inr [OF adv])
  then have "hv_seq (view e) \<le> hv_seq (view e2)"
    using e2(3) seq_view [OF g] seq_view [OF e2(2)] by (simp add: clock_def word_le_nat_alt)
  note aged = aged_view [OF e2(4) this life]
  have "example_good good view adm e2"
    using e e2(2,4) aged(1) by (simp add: example_good_def view_aged_def)
  with e2 aged(2,3) show ?thesis by (simp add: example_reregister_contract_def)
qed

lemma mint_call:
  assumes "example_good good view adm e"
  shows "call_sound (\<forall>p. fr_error F p \<noteq> Error WasmVm InvalidAction) emv (auths_of e) e
    (account_sc S gen 0) (command_invocation token_sc ''mint'' [AddressVal a, I128Val n]) n
    (True) (spec_mint a (sint n)) (ex_try_mint (example_contract_client F H) e a n)"
  unfolding example_contract_client_def example_client.simps
  by (rule call_law [OF assms account_sc_of, where pre = "\<lambda>t. True"]) (intro conjI TrueI mint_step; assumption)

lemma approve_call:
  assumes "example_good good view adm e"
  shows "call_sound (\<forall>p. fr_error F p \<noteq> Error WasmVm InvalidAction) emv (auths_of e) e
    (account_sc S gen i) (command_invocation token_sc ''approve'' 
      [AddressVal (account_addr S addr_of gen i), AddressVal b, I128Val n, U32Val x]) n
    (True) (spec_approve (account_addr S addr_of gen i) b (sint n)) (try_approve (example_token_client F H) e (account_addr S addr_of gen i) b n x)"
  unfolding example_token_client_def token_client.simps
  by (rule call_law [OF assms account_sc_of, where pre = "\<lambda>t. True"]) (intro conjI TrueI approve_step(1); assumption)

lemma transfer_from_call:
  assumes "example_good good view adm e"
  shows "call_sound (\<forall>p. fr_error F p \<noteq> Error WasmVm InvalidAction) emv (auths_of e) e
    (account_sc S gen i) (command_invocation token_sc ''transfer_from'' 
      [AddressVal (account_addr S addr_of gen i), AddressVal a, AddressVal b, I128Val n]) n
    (sint n \<le> bals (token_view (view e)) a \<and> sint n \<le> allws (token_view (view e)) a (account_addr S addr_of gen i)) (spec_transfer_from (account_addr S addr_of gen i) a b (sint n)) (try_transfer_from (example_token_client F H) e (account_addr S addr_of gen i) a b n)"
  unfolding example_token_client_def token_client.simps
  by (rule call_law [OF assms account_sc_of, where pre = "\<lambda>t. sint n \<le> bals t a \<and> sint n \<le> allws t a (account_addr S addr_of gen i)"]) (intro conjI TrueI transfer_from_step; assumption)

lemma transfer_call:
  assumes "example_good good view adm e"
  shows "call_sound (\<forall>p. fr_error F p \<noteq> Error WasmVm InvalidAction) emv (auths_of e) e
    (account_sc S gen i) (command_invocation token_sc ''transfer'' 
      [AddressVal (account_addr S addr_of gen i), AddressVal b, I128Val n]) n
    (sint n \<le> bals (token_view (view e)) (account_addr S addr_of gen i)) (spec_transfer (account_addr S addr_of gen i) b (sint n)) (try_transfer (example_token_client F H) e (account_addr S addr_of gen i) b n)"
  unfolding example_token_client_def token_client.simps
  by (rule call_law [OF assms account_sc_of, where pre = "\<lambda>t. sint n \<le> bals t (account_addr S addr_of gen i)"]) (intro conjI TrueI transfer_step; assumption)

lemma burn_from_call:
  assumes "example_good good view adm e"
  shows "call_sound (\<forall>p. fr_error F p \<noteq> Error WasmVm InvalidAction) emv (auths_of e) e
    (account_sc S gen i) (command_invocation token_sc ''burn_from'' 
      [AddressVal (account_addr S addr_of gen i), AddressVal a, I128Val n]) n
    (sint n \<le> bals (token_view (view e)) a \<and> sint n \<le> allws (token_view (view e)) a (account_addr S addr_of gen i)) (spec_burn_from (account_addr S addr_of gen i) a (sint n)) (try_burn_from (example_token_client F H) e (account_addr S addr_of gen i) a n)"
  unfolding example_token_client_def token_client.simps
  by (rule call_law [OF assms account_sc_of, where pre = "\<lambda>t. sint n \<le> bals t a \<and> sint n \<le> allws t a (account_addr S addr_of gen i)"]) (intro conjI TrueI burn_from_step; assumption)

lemma burn_call:
  assumes "example_good good view adm e"
  shows "call_sound (\<forall>p. fr_error F p \<noteq> Error WasmVm InvalidAction) emv (auths_of e) e
    (account_sc S gen i) (command_invocation token_sc ''burn'' 
      [AddressVal (account_addr S addr_of gen i), I128Val n]) n
    (sint n \<le> bals (token_view (view e)) (account_addr S addr_of gen i)) (spec_burn (account_addr S addr_of gen i) (sint n)) (try_burn (example_token_client F H) e (account_addr S addr_of gen i) n)"
  unfolding example_token_client_def token_client.simps
  by (rule call_law [OF assms account_sc_of, where pre = "\<lambda>t. sint n \<le> bals t (account_addr S addr_of gen i)"]) (intro conjI TrueI burn_step; assumption)

end

text \<open>The example token keeps the contract of the token interface.\<close>

sublocale example_world \<subseteq> example: token_contract S addr_of xdr N "contract (TokenOps X)" gen tok
  token_sc "example_token_client F H" "\<lparr>try_mint = ex_try_mint (example_contract_client F H)\<rparr>"
  "\<lambda>e. token_view (view e)" "example_good good view (account_addr S addr_of gen 0)" ready
  "example_life view" auths_of max_ttl "\<forall>p. fr_error F p \<noteq> Error WasmVm InvalidAction"
proof (unfold_locales, goal_cases)
  case 1 show ?case by (rule gen_ok)
next
  case 2 show ?case by (rule token_address)
next
  case (3 e) show ?case by (rule client_law)
next
  case (4 e) show ?case
    by (simp add: example_new_admin_client_def contract_client_law example_try_mint_def [abs_def])
next
  case (5 e)
  then have "token_ok (account_addr S addr_of gen 0) (view e)" by (simp add: example_good_def)
  then show ?case unfolding spec_range_def by (intro ballI conjI token_ok_range)
next
  case (6 e nm sb dec)
  then show ?case
    by (auto simp: example_good_def token_view_def example_metadata_def from_str_def)
next
  case (7 e) then show ?case using ttl_law(1) by (simp add: example_good_def)
next
  case 8 show ?case by (rule ttl_law(2))
next
  case (9 e) then show ?case
    using carries_moves reset_law unfolding example_good_def by blast
next
  case (10 e es) then show ?case
    using carries_moves set_auths_law(1) unfolding example_good_def by blast
next
  case (11 e es) then show ?case using set_auths_law(2) by (simp add: example_good_def)
next
  case (12 e i) then show ?case
    using carries_moves register_mock_law unfolding example_good_def by blast
next
  case (13 e) then show ?case
    using carries_moves generate_law unfolding example_good_def by blast
next
  case (14 e a n) then show ?case using mint_call by simp
next
  case (15 e a i b n x) then show ?case using approve_call by simp
next
  case (16 e s i a b n) then show ?case using transfer_from_call by simp
next
  case (17 e a i b n) then show ?case using transfer_call by simp
next
  case (18 e s i a n) then show ?case using burn_from_call by simp
next
  case (19 e a i n) then show ?case using burn_call by simp
next
  case (20 e a) then show ?case using balance_call by blast
next
  case (21 e a b) then show ?case using allowance_call by blast
next
  case (22 e nm sb dec) then show ?case using metadata_call by blast
next
  case (23 e a b) then show ?case using allowance_call by blast
next
  case (24 e l e1) then show ?case using passing_time by simp
next
  case 25 show ?case by (rule ready_law(1))
next
  case (26 e k v) then show ?case by (rule ready_law(2))
next
  case (27 e) then show ?case using registration by simp blast
qed

text \<open>So a run on the example token ends in one of three ways.\<close>

context example_world
begin

lemma fuzz_example_outcomes:
  assumes "input_ok inp" "address_generator inp = gen"
    and "run_fits max_ttl (clock S N (env_default S)) 0 (transactions inp)"
  shows "fuzz_example_token S N X inp \<in> {Inr Keep, Inr Reject, Inl unexpected_panic}"
proof (cases "fuzz_example_token S N X inp")
  case (Inl p)
  then show ?thesis
    using example.fuzz_token_sound [OF assms] by (simp add: fuzz_example_token_def)
next
  case (Inr c)
  then show ?thesis by (cases c) simp_all
qed

end

end
