(* ===== verification/Reference.thy ===== *)
theory Reference
  imports Example_World
begin

text \<open>
  A reference SDK and host: a small executable model of the functions that the development
  leaves as parameters. It is an \<open>Env\<close> with a list of ledger entries that expire, contract
  frames and recorded authorizations, on which the example token runs. It shows that the laws the
  theorems assume are consistent, and it interprets every locale on the definitions of the
  repository. \<open>err\<close> is the error that a panic of a contract is reported as.
\<close>

section \<open>Addresses\<close>

typedef raddr = "{sc. sc_address_ok sc}" morphisms addr_sc Abs_raddr
  by (rule exI [of _ "ScContract (replicate 32 0)"]) simp

definition mk_addr :: "sc_address \<Rightarrow> raddr" where
  "mk_addr sc = Abs_raddr (if sc_address_ok sc then sc else ScContract (replicate 32 0))"

lemma addr_sc_ok [simp]: "sc_address_ok (addr_sc a)"
  using addr_sc [of a] by simp

lemma addr_sc_mk [simp]:
  "addr_sc (mk_addr sc) = (if sc_address_ok sc then sc else ScContract (replicate 32 0))"
  by (simp add: mk_addr_def Abs_raddr_inverse)

lemma raddr_abstype [code abstype]: "Abs_raddr (addr_sc a) = a"
  by (rule addr_sc_inverse)

lemma mk_addr_code [code abstract]:
  "addr_sc (mk_addr sc) = (if sc_address_ok sc then sc else ScContract (replicate 32 0))"
  by (rule addr_sc_mk)

lemma mk_addr_sc [simp]: "mk_addr (addr_sc a) = a"
  by (simp add: mk_addr_def addr_sc_inverse)

lemma raddr_eq_iff: "a = b \<longleftrightarrow> addr_sc a = addr_sc b"
  by (simp add: addr_sc_inject)

instantiation raddr :: equal
begin

definition equal_raddr :: "raddr \<Rightarrow> raddr \<Rightarrow> bool" where
  "equal_raddr a b \<longleftrightarrow> addr_sc a = addr_sc b"

instance
  by standard (simp add: equal_raddr_def raddr_eq_iff)

end

fun sc_string :: "sc_address \<Rightarrow> sstring" where
  "sc_string (ScAccount aid) = 0 # account_key aid"
| "sc_string (ScContract h) = 1 # h"

fun string_sc :: "sstring \<Rightarrow> sc_address option" where
  "string_sc (t # bs) =
     (if length bs \<noteq> 32 then None
      else if t = 0 then Some (ScAccount (AccountId bs))
      else if t = 1 then Some (ScContract bs)
      else None)"
| "string_sc [] = None"

lemma string_sc_string: "sc_address_ok sc \<Longrightarrow> string_sc (sc_string sc) = Some sc"
  by (cases sc) auto

lemma length_sc_string: "sc_address_ok sc \<Longrightarrow> length (sc_string sc) = 33"
  by (cases sc) auto

section \<open>The ledger\<close>

datatype rkey = RInstance | RData durability "raddr data_key" | RLedger ledger_key

datatype rval =
    RInstanceVal "raddr data_key \<Rightarrow> raddr stored option" "token_metadata option"
  | RStored "raddr stored"
  | REntry ledger_entry

type_synonym rentry = "rval \<times> u32 option"

record renv =
  re_seq :: u32
  re_time :: u64
  re_entries :: "(rkey \<times> rentry) list"
  re_auths :: "raddr authorization_entry list"
  re_frame :: "(string \<times> raddr val list) option"

definition put :: "'k \<Rightarrow> 'v \<Rightarrow> ('k \<times> 'v) list \<Rightarrow> ('k \<times> 'v) list" where
  "put k v es = (k, v) # filter (\<lambda>p. fst p \<noteq> k) es"

lemma map_of_remove: "map_of (filter (\<lambda>p. fst p \<noteq> k) es) x = (if x = k then None else map_of es x)"
  by (induction es) auto

lemma map_of_put [simp]: "map_of (put k v es) = (map_of es)(k \<mapsto> v)"
  by (rule ext) (simp add: put_def map_of_remove)

lemma distinct_put [simp]: "distinct (map fst es) \<Longrightarrow> distinct (map fst (put k v es))"
  by (auto simp: put_def distinct_map_filter)

lemma map_of_filter:
  assumes "distinct (map fst es)"
  shows "map_of (filter P es) k =
    (case map_of es k of Some v \<Rightarrow> if P (k, v) then Some v else None | None \<Rightarrow> None)"
  using assms
proof (induction es)
  case (Cons p es)
  then have "map_of (filter P es) (fst p) = None"
    by (auto simp: map_of_eq_None_iff)
  with Cons show ?case by (cases p) auto
qed simp

text \<open>
  Expirations saturate at the last ledger, and an entry that expires there never does: its
  remaining life counts as \<open>2 ^ 32\<close>.
\<close>

definition sat_add :: "u32 \<Rightarrow> u32 \<Rightarrow> u32" where
  "sat_add a b = (case checked_uadd a b of Some c \<Rightarrow> c | None \<Rightarrow> - 1)"

definition remaining :: "u32 \<Rightarrow> u32 \<Rightarrow> nat" where
  "remaining seq x = (if x = - 1 then 2 ^ 32 else unat x - unat seq)"

definition extend :: "u32 \<Rightarrow> u32 \<Rightarrow> u32 \<Rightarrow> u32 \<Rightarrow> u32" where
  "extend seq x threshold to =
     (if remaining seq x < unat threshold then max x (sat_add seq to) else x)"

lemma remaining_sat_add: "unat n \<le> remaining seq (sat_add seq n)"
  using unsigned_less [of n, where ?'a = nat]
  by (auto simp: remaining_def sat_add_def checked_uadd_Some split: option.splits)

lemma remaining_mono: "x \<le> y \<Longrightarrow> remaining seq x \<le> remaining seq y"
  using unsigned_less [of x, where ?'a = nat] word_order.extremum_uniqueI [of y]
  by (auto simp: remaining_def word_le_nat_alt)

lemma extend_remaining:
  "remaining seq x \<le> remaining seq (extend seq x threshold to)"
  "threshold \<le> to \<Longrightarrow> unat threshold \<le> remaining seq (extend seq x threshold to)"
proof -
  show "remaining seq x \<le> remaining seq (extend seq x threshold to)"
    by (auto simp: extend_def intro: remaining_mono)
  assume "threshold \<le> to"
  then have "unat threshold \<le> remaining seq (max x (sat_add seq to))"
    using remaining_sat_add [of to seq] remaining_mono [OF max.cobounded2, of seq "sat_add seq to" x]
    by (simp add: word_le_nat_alt)
  then show "unat threshold \<le> remaining seq (extend seq x threshold to)"
    by (auto simp: extend_def)
qed

lemma remaining_age:
  assumes "unat seq' = unat seq + l" "l \<le> remaining seq x"
  shows "remaining seq x \<le> remaining seq' x + l" "seq \<le> x \<Longrightarrow> \<not> x < seq'"
proof -
  show "remaining seq x \<le> remaining seq' x + l" using assms by (auto simp: remaining_def)
  show "\<not> x < seq'" if "seq \<le> x"
  proof (cases "x = - 1")
    case False
    then show ?thesis
      using assms that by (auto simp: remaining_def word_less_nat_alt word_le_nat_alt)
  qed (simp add: word_order.extremum_strict)
qed

section \<open>The host of the contract\<close>

definition lookup :: "renv \<Rightarrow> rkey \<Rightarrow> rentry option" where
  "lookup e = map_of (re_entries e)"

definition store :: "renv \<Rightarrow> rkey \<Rightarrow> rentry \<Rightarrow> renv" where
  "store e k v = e\<lparr>re_entries := put k v (re_entries e)\<rparr>"

definition auth_error :: error where
  "auth_error = Error (OtherErrorType 0) (OtherErrorCode 0)"

definition entry_value :: "rentry option \<Rightarrow> raddr stored option" where
  "entry_value x = (case x of Some (RStored v, _) \<Rightarrow> Some v | _ \<Rightarrow> None)"

definition instance_value :: "rentry option \<Rightarrow> raddr data_key \<Rightarrow> raddr stored option" where
  "instance_value x k = (case x of Some (RInstanceVal m _, _) \<Rightarrow> m k | _ \<Rightarrow> None)"

definition instance_metadata :: "rentry option \<Rightarrow> token_metadata option" where
  "instance_metadata x = (case x of Some (RInstanceVal _ md, _) \<Rightarrow> md | _ \<Rightarrow> None)"

definition life_left :: "u32 \<Rightarrow> rentry option \<Rightarrow> nat" where
  "life_left seq x = (case x of Some (_, Some l) \<Rightarrow> remaining seq l | _ \<Rightarrow> 0)"

definition ref_store :: "renv \<Rightarrow> durability \<times> raddr data_key \<Rightarrow> raddr stored option" where
  "ref_store e dk =
     (if fst dk = Instance then instance_value (lookup e RInstance) (snd dk)
      else entry_value (lookup e (RData (fst dk) (snd dk))))"

definition ref_view :: "renv \<Rightarrow> raddr host_view" where
  "ref_view e =
     \<lparr>hv_store = ref_store e,
      hv_ttl = (\<lambda>k. life_left (re_seq e) (lookup e (RData Persistent k))),
      hv_instance_ttl = life_left (re_seq e) (lookup e RInstance),
      hv_meta = instance_metadata (lookup e RInstance),
      hv_seq = re_seq e\<rparr>"

definition ref_set ::
  "durability \<Rightarrow> renv \<Rightarrow> raddr data_key \<Rightarrow> raddr stored \<Rightarrow> panic + renv" where
  "ref_set d e k v =
     (if d = Instance then
        (case lookup e RInstance of
           Some (RInstanceVal m md, l) \<Rightarrow> Inr (store e RInstance (RInstanceVal (m(k \<mapsto> v)) md, l))
         | _ \<Rightarrow> Inl (HostError auth_error))
      else
        (case lookup e (RData d k) of
           Some (_, l) \<Rightarrow> Inr (store e (RData d k) (RStored v, l))
         | None \<Rightarrow> Inr (store e (RData d k) (RStored v, Some (sat_add (re_seq e) 15)))))"

definition ref_extend_key :: "renv \<Rightarrow> rkey \<Rightarrow> u32 \<Rightarrow> u32 \<Rightarrow> panic + renv" where
  "ref_extend_key e k threshold to =
     (case lookup e k of
        Some (v, Some l) \<Rightarrow> Inr (store e k (v, Some (extend (re_seq e) l threshold to)))
      | _ \<Rightarrow> Inl (HostError auth_error))"

definition ref_auth :: "sc_address \<Rightarrow> renv \<Rightarrow> raddr \<Rightarrow> bool" where
  "ref_auth token_sc e a \<longleftrightarrow>
     (case re_frame e of
        Some (fn, vs) \<Rightarrow> list_ex (\<lambda>en. cred_address (credentials en) = addr_sc a \<and>
          root_invocation en = command_invocation token_sc fn vs) (re_auths e)
      | None \<Rightarrow> False)"

definition token_sc :: sc_address where
  "token_sc = ScContract (replicate 32 255)"

definition ref_host :: "(renv, raddr) token_host" where
  "ref_host =
     \<lparr>host_sequence = re_seq,
      host_has = (\<lambda>d e k. Inr (ref_store e (d, k) \<noteq> None)),
      host_get = (\<lambda>d e k. Inr (ref_store e (d, k))),
      host_set = ref_set,
      host_extend_ttl = (\<lambda>d e k threshold to. ref_extend_key e (RData d k) threshold to),
      host_extend_instance_ttl = (\<lambda>e threshold to. ref_extend_key e RInstance threshold to),
      host_require_auth = (\<lambda>e a.
        if ref_auth token_sc e a then Inr e else Inl (HostError auth_error)),
      host_get_metadata = (\<lambda>e. unwrap (instance_metadata (lookup e RInstance))),
      host_set_metadata = (\<lambda>e md.
        case lookup e RInstance of
          Some (RInstanceVal m _, l) \<Rightarrow> Inr (store e RInstance (RInstanceVal m (Some md), l))
        | _ \<Rightarrow> Inl (HostError auth_error)),
      host_publish = (\<lambda>e ev. Inr e)\<rparr>"

text \<open>
  The invariant of the ledger: keys are distinct, entries of data hold values, entries are live,
  and the contract instance is there.
\<close>

definition ref_good :: "renv \<Rightarrow> bool" where
  "ref_good e \<longleftrightarrow>
     distinct (map fst (re_entries e)) \<and>
     (\<exists>m md l. lookup e RInstance = Some (RInstanceVal m md, Some l)) \<and>
     (\<forall>d k x. lookup e (RData d k) = Some x \<longrightarrow> (\<exists>v l. d \<noteq> Instance \<and> x = (RStored v, Some l))) \<and>
     (\<forall>k v l. lookup e k = Some (v, Some l) \<longrightarrow> re_seq e \<le> l)"

lemma lookup_store [simp]: "lookup (store e k v) = (lookup e)(k \<mapsto> v)"
  by (simp add: lookup_def store_def)

lemma store_simps [simp]:
  "re_seq (store e k v) = re_seq e" "re_time (store e k v) = re_time e"
  "re_auths (store e k v) = re_auths e" "re_frame (store e k v) = re_frame e"
  by (simp_all add: store_def)

lemma ref_good_instance:
  assumes "ref_good e"
  obtains m md l where "lookup e RInstance = Some (RInstanceVal m md, Some l)" "re_seq e \<le> l"
  using assms unfolding ref_good_def by blast

lemma ref_good_data:
  assumes "ref_good e" "lookup e (RData d k) = Some x"
  obtains v l where "x = (RStored v, Some l)" "re_seq e \<le> l" "d \<noteq> Instance"
  using assms unfolding ref_good_def by blast

lemma ref_good_store:
  assumes "ref_good e" "re_seq e \<le> l"
  shows "ref_good (store e RInstance (RInstanceVal m md, Some l))"
    and "d \<noteq> Instance \<Longrightarrow> ref_good (store e (RData d k) (RStored v, Some l))"
proof -
  have d: "distinct (map fst (re_entries (store e k x)))" for k x
    using assms(1) by (simp add: ref_good_def store_def)
  show "ref_good (store e RInstance (RInstanceVal m md, Some l))"
    using assms d by (auto simp: ref_good_def)
  show "ref_good (store e (RData d k) (RStored v, Some l))" if "d \<noteq> Instance"
    using assms d that by (auto simp: ref_good_def)
qed

lemma le_sat_add: "s \<le> sat_add s n"
  by (auto simp: sat_add_def checked_uadd_Some word_le_nat_alt split: option.splits)
    (simp add: word_le_nat_alt [symmetric])

lemma le_extend: "s \<le> l \<Longrightarrow> s \<le> extend s l threshold to"
  by (auto simp: extend_def max_def)

lemmas ref_view_defs = ref_view_def ref_store_def entry_value_def instance_value_def
  instance_metadata_def life_left_def

lemma ref_view_data:
  assumes "d \<noteq> Instance"
  shows "\<exists>t. ref_view (store e (RData d k) (RStored v, Some l)) =
      (ref_view e)\<lparr>hv_store := (hv_store (ref_view e))((d, k) \<mapsto> v), hv_ttl := t\<rparr> \<and>
      (\<forall>k'. t k' = (if d = Persistent \<and> k' = k then remaining (re_seq e) l
        else hv_ttl (ref_view e) k'))"
  by (rule exI [of _ "\<lambda>k'. if d = Persistent \<and> k' = k then remaining (re_seq e) l
      else hv_ttl (ref_view e) k'"])
    (use assms in \<open>auto simp: ref_view_defs fun_eq_iff\<close>)

lemma ref_view_data_same:
  assumes "ref_good e" "lookup e (RData d k) = Some (RStored v, l0)"
  shows "\<exists>t. ref_view (store e (RData d k) (RStored v, Some l)) = (ref_view e)\<lparr>hv_ttl := t\<rparr> \<and>
      (\<forall>k'. t k' = (if d = Persistent \<and> k' = k then remaining (re_seq e) l
        else hv_ttl (ref_view e) k'))"
proof -
  have d: "d \<noteq> Instance" using ref_good_data [OF assms] by blast
  have "hv_store (ref_view e) (d, k) = Some v" using assms(2) d by (simp add: ref_view_defs)
  then show ?thesis using ref_view_data [OF d, of e k v l] by (auto simp: fun_upd_idem)
qed

lemma ref_view_instance:
  assumes "lookup e RInstance = Some (RInstanceVal m md, Some l)"
  shows "ref_view (store e RInstance (RInstanceVal m' md', Some l')) =
    (ref_view e)\<lparr>hv_store := (\<lambda>dk. if fst dk = Instance then m' (snd dk) else hv_store (ref_view e) dk),
      hv_meta := md', hv_instance_ttl := remaining (re_seq e) l'\<rparr>"
    and "hv_store (ref_view e) (Instance, k) = m k" "hv_meta (ref_view e) = md"
    and "hv_instance_ttl (ref_view e) = remaining (re_seq e) l"
  using assms by (auto simp: ref_view_defs fun_eq_iff)

lemma ref_set_law:
  assumes "ref_good e" "ref_set d e k v = Inr e'"
  shows "ref_good e' \<and> (\<exists>t. ref_view e' =
      (ref_view e)\<lparr>hv_store := (hv_store (ref_view e))((d, k) \<mapsto> v), hv_ttl := t\<rparr> \<and>
      (\<forall>k'. hv_store (ref_view e) (Persistent, k') \<noteq> None \<longrightarrow> hv_ttl (ref_view e) k' \<le> t k'))"
proof (cases "d = Instance")
  case True
  obtain m md l where i: "lookup e RInstance = Some (RInstanceVal m md, Some l)" "re_seq e \<le> l"
    by (rule ref_good_instance [OF assms(1)])
  then have e': "e' = store e RInstance (RInstanceVal (m(k \<mapsto> v)) md, Some l)"
    using assms(2) True by (simp add: ref_set_def)
  have "ref_view e' = (ref_view e)\<lparr>hv_store := (hv_store (ref_view e))((d, k) \<mapsto> v),
      hv_ttl := hv_ttl (ref_view e)\<rparr>"
    unfolding e' using i(1) True by (auto simp: ref_view_defs fun_eq_iff)
  then show ?thesis
    using ref_good_store(1) [OF assms(1) i(2)] e' by (metis order_refl)
next
  case False
  obtain l where l: "e' = store e (RData d k) (RStored v, Some l)" "re_seq e \<le> l"
      "lookup e (RData d k) \<noteq> None \<longrightarrow> life_left (re_seq e) (lookup e (RData d k)) = remaining (re_seq e) l"
  proof (cases "lookup e (RData d k)")
    case None
    with assms(2) False show ?thesis
      by (intro that [of "sat_add (re_seq e) 15"]) (simp_all add: ref_set_def le_sat_add)
  next
    case (Some x)
    obtain w l where x: "x = (RStored w, Some l)" "re_seq e \<le> l"
      by (rule ref_good_data [OF assms(1) Some])
    with Some assms(2) False show ?thesis
      by (intro that [of l]) (simp_all add: ref_set_def life_left_def)
  qed
  obtain t where t: "ref_view e' =
      (ref_view e)\<lparr>hv_store := (hv_store (ref_view e))((d, k) \<mapsto> v), hv_ttl := t\<rparr>"
      "\<And>k'. t k' = (if d = Persistent \<and> k' = k then remaining (re_seq e) l else hv_ttl (ref_view e) k')"
    using ref_view_data [OF False, of e k v l] l(1) by blast
  have "hv_ttl (ref_view e) k' \<le> t k'" if "hv_store (ref_view e) (Persistent, k') \<noteq> None" for k'
    using that l(3) unfolding t(2)
    by (auto simp: ref_view_def ref_store_def entry_value_def split: option.splits)
  then show ?thesis using t(1) ref_good_store(2) [OF assms(1) l(2) False] l(1) by blast
qed

lemma ref_extend_data:
  assumes "ref_good e" "ref_extend_key e (RData d k) threshold to = Inr e'"
  shows "ref_good e' \<and> (\<exists>t. ref_view e' = (ref_view e)\<lparr>hv_ttl := t\<rparr> \<and>
    (\<forall>k'. hv_ttl (ref_view e) k' \<le> t k') \<and>
    (d = Persistent \<longrightarrow> threshold \<le> to \<longrightarrow> unat threshold \<le> t k))"
proof -
  obtain x where x: "lookup e (RData d k) = Some x"
    using assms(2) by (auto simp: ref_extend_key_def split: option.splits)
  obtain v l where v: "x = (RStored v, Some l)" "re_seq e \<le> l" "d \<noteq> Instance"
    by (rule ref_good_data [OF assms(1) x])
  let ?l = "extend (re_seq e) l threshold to"
  have e': "e' = store e (RData d k) (RStored v, Some ?l)"
    using assms(2) x v by (simp add: ref_extend_key_def)
  obtain t where t: "ref_view e' = (ref_view e)\<lparr>hv_ttl := t\<rparr>"
      "\<And>k'. t k' = (if d = Persistent \<and> k' = k then remaining (re_seq e) ?l else hv_ttl (ref_view e) k')"
    using ref_view_data_same [OF assms(1), of d k v "Some l" ?l] x v e' by auto
  have "hv_ttl (ref_view e) k' \<le> t k'" for k'
    using x v extend_remaining(1) unfolding t(2) by (auto simp: ref_view_def life_left_def)
  moreover have "d = Persistent \<Longrightarrow> threshold \<le> to \<Longrightarrow> unat threshold \<le> t k"
    using extend_remaining(2) unfolding t(2) by simp
  ultimately show ?thesis
    using t(1) e' ref_good_store(2) [OF assms(1) le_extend [OF v(2)] v(3)] by blast
qed

lemma ref_extend_instance:
  assumes "ref_good e"
  shows "\<exists>e' i. ref_extend_key e RInstance threshold to = Inr e' \<and> ref_good e' \<and>
    ref_view e' = (ref_view e)\<lparr>hv_instance_ttl := i\<rparr> \<and> hv_instance_ttl (ref_view e) \<le> i \<and>
    (threshold \<le> to \<longrightarrow> unat threshold \<le> i)"
proof -
  obtain m md l where i: "lookup e RInstance = Some (RInstanceVal m md, Some l)" "re_seq e \<le> l"
    by (rule ref_good_instance [OF assms])
  let ?l = "extend (re_seq e) l threshold to"
  let ?e' = "store e RInstance (RInstanceVal m md, Some ?l)"
  have "ref_view ?e' = (ref_view e)\<lparr>hv_instance_ttl := remaining (re_seq e) ?l\<rparr>"
    using i(1) by (auto simp: ref_view_defs fun_eq_iff)
  moreover have "hv_instance_ttl (ref_view e) = remaining (re_seq e) l"
    using i(1) by (simp add: ref_view_defs)
  ultimately show ?thesis
    using i ref_good_store(1) [OF assms le_extend [OF i(2)]] extend_remaining
    by (auto simp: ref_extend_key_def)
qed

interpretation ref_token: token_host_laws ref_host ref_good ref_view "ref_auth token_sc"
proof (unfold_locales, goal_cases)
  case (4 e d k v e')
  then show ?case using ref_set_law by (simp add: ref_host_def)
next
  case (5 e d k threshold to e')
  then show ?case using ref_extend_data by (simp add: ref_host_def) blast
next
  case (6 e k threshold to)
  then obtain x where "lookup e (RData Persistent k) = Some x"
    by (auto simp: ref_view_defs split: option.splits)
  moreover from ref_good_data [OF 6(1) this] obtain v l where "x = (RStored v, Some l)" by blast
  ultimately show ?case by (simp add: ref_host_def ref_extend_key_def)
next
  case (7 e threshold to)
  then show ?case using ref_extend_instance [of e threshold to] by (auto simp: ref_host_def)
next
  case (10 e md e')
  obtain m md0 l where i: "lookup e RInstance = Some (RInstanceVal m md0, Some l)" "re_seq e \<le> l"
    by (rule ref_good_instance [OF 10(1)])
  then have "e' = store e RInstance (RInstanceVal m (Some md), Some l)"
    using 10(2) by (simp add: ref_host_def)
  with i ref_good_store(1) [OF 10(1) i(2)] show ?case
    by (auto simp: ref_view_defs fun_eq_iff)
qed (auto simp: ref_host_def ref_view_def split: if_splits)

end
