(* ===== verification/Reference_Sdk.thy ===== *)
theory Reference_Sdk
  imports Reference
begin

text \<open>
  The SDK of the reference model, and the interpretations of the locales on it: addresses and
  strings, authorization, the clock, and the example token as the token of a fuzzing run.
\<close>

definition max_ttl :: u32 where
  "max_ttl = 6312000"

definition token_id :: raddr where
  "token_id = mk_addr token_sc"

definition ref_frames :: "error \<Rightarrow> (renv, raddr) frames" where
  "ref_frames err =
     \<lparr>fr_enter = (\<lambda>e fn vs. e\<lparr>re_frame := Some (fn, vs)\<rparr>),
      fr_leave = (\<lambda>e e'. e'\<lparr>re_frame := re_frame e, re_time := re_time e\<rparr>),
      fr_rollback = (\<lambda>e. e),
      fr_error = (\<lambda>p. case p of HostError _ \<Rightarrow> auth_error | _ \<Rightarrow> err)\<rparr>"

definition ref_snapshots :: "(renv, rkey, rval, unit) snapshots" where
  "ref_snapshots =
     \<lparr>to_snapshot = (\<lambda>e. \<lparr>sequence_number = re_seq e, timestamp = re_time e,
        ledger_entries = re_entries e\<rparr>),
      from_snapshot = (\<lambda>s. \<lparr>re_seq = sequence_number s, re_time = timestamp s,
        re_entries = ledger_entries s, re_auths = [], re_frame = None\<rparr>)\<rparr>"

definition ref_register :: "renv \<Rightarrow> raddr option \<Rightarrow> raddr \<times> renv" where
  "ref_register e a =
     (case a of
        None \<Rightarrow> (token_id, store e RInstance
          (RInstanceVal (\<lambda>_. None) None, Some (sat_add (re_seq e) 4095)))
      | Some a \<Rightarrow> (a, e))"

definition ref_example_sdk :: "error \<Rightarrow> (renv, raddr) example_sdk" where
  "ref_example_sdk err =
     \<lparr>ex_register_contract = ref_register,
      ex_client_new = (\<lambda>e a. example_contract_client (ref_frames err) ref_host)\<rparr>"

definition ref_sdk :: "error \<Rightarrow> (renv, raddr, u8 list) sdk" where
  "ref_sdk err =
     \<lparr>env_default = \<lparr>re_seq = 0, re_time = 0, re_entries = [], re_auths = [], re_frame = None\<rparr>,
      budget_reset_unlimited = (\<lambda>e. e),
      ledger_sequence = re_seq,
      max_entry_ttl = (\<lambda>e. max_ttl),
      network_id = (\<lambda>e. Some (replicate 32 0)),
      string_len = (\<lambda>s. of_nat (length s)),
      copy_into_slice = (\<lambda>s buf. if length buf = length s then Inr s else Inl (HostError auth_error)),
      address_to_string = (\<lambda>a. sc_string (addr_sc a)),
      address_from_string_bytes = (\<lambda>e bs. case string_sc bs of
          Some sc \<Rightarrow> Inr (mk_addr sc) | None \<Rightarrow> Inl (HostError auth_error)),
      address_try_from_val = (\<lambda>e sc. if sc_address_ok sc then Some (mk_addr sc) else None),
      sc_address_try_from = (\<lambda>a. Some (addr_sc a)),
      address_generate = (\<lambda>e. (mk_addr (ScContract (replicate 32 1)), e)),
      signing_key_from_bytes = (\<lambda>b. b),
      verifying_key = (\<lambda>k. take 32 (k @ replicate 32 0)),
      sign = (\<lambda>k m. replicate 64 0),
      sha256_digest = (\<lambda>b. replicate 32 0),
      write_xdr = (\<lambda>p. Some (pre_network_id p)),
      bytes_n_try_from_val = (\<lambda>e n b. if length b = n then Some b else None),
      symbol_try_into = (\<lambda>f. if length f \<le> 32 then Some f else None),
      vecm_try_from = Some,
      signatures_try_into = (\<lambda>sgs. Some (Signatures sgs)),
      signers_try_into = (\<lambda>ss. if length ss \<le> 20 then Some ss else None),
      authorized_flag = 1,
      trustline_clawback_enabled_flag = 4,
      storage_put = (\<lambda>e k v l. Ok (store e (RLedger k) (REntry v, l))),
      register_mock_auth_contract = (\<lambda>e a. e),
      set_auths = (\<lambda>e es. e\<lparr>re_auths := es\<rparr>),
      register_stellar_asset_contract = (\<lambda>e a. ref_register e None),
      stellar_asset_client_new = (\<lambda>e a.
        \<lparr>try_mint = ex_try_mint (example_contract_client (ref_frames err) ref_host)\<rparr>),
      client_new = (\<lambda>e a. example_token_client (ref_frames err) ref_host)\<rparr>"

lemma ref_sdk_auth: "sdk_auth (ref_sdk err) mk_addr pre_network_id"
proof (unfold_locales, goal_cases)
  case (1 s)
  then show ?case by (simp add: ref_sdk_def unat_of_nat)
next
  case (4 a b)
  then have "string_sc (sc_string (addr_sc a)) = string_sc (sc_string (addr_sc b))"
    by (simp add: ref_sdk_def)
  then show ?case by (simp add: string_sc_string raddr_eq_iff)
qed (auto simp: ref_sdk_def length_sc_string string_sc_string signer_bytes_inj)

lemma ref_clock: "ledger_clock (ref_sdk err) ref_snapshots"
  by unfold_locales (simp_all add: ref_sdk_def ref_snapshots_def)

lemma ref_clock_eq [simp]: "clock (ref_sdk err) ref_snapshots e = (re_seq e, re_time e)"
  by (simp add: clock_def ref_sdk_def ref_snapshots_def)

lemma ref_sdk_simps [simp]:
  "ledger_sequence (ref_sdk err) = re_seq"
  "client_new (ref_sdk err) e a = example_token_client (ref_frames err) ref_host"
  "max_entry_ttl (ref_sdk err) e = max_ttl"
  "budget_reset_unlimited (ref_sdk err) e = e"
  "set_auths (ref_sdk err) e es = e\<lparr>re_auths := es\<rparr>"
  "register_mock_auth_contract (ref_sdk err) e a = e"
  "snd (address_generate (ref_sdk err) e) = e"
  "sc_address_try_from (ref_sdk err) a = Some (addr_sc a)"
  "env_default (ref_sdk err) =
     \<lparr>re_seq = 0, re_time = 0, re_entries = [], re_auths = [], re_frame = None\<rparr>"
  "storage_put (ref_sdk err) e k v l = Ok (store e (RLedger k) (REntry v, l))"
  by (simp_all add: ref_sdk_def)

definition ref_ready :: "renv \<Rightarrow> bool" where
  "ref_ready e \<longleftrightarrow> distinct (map fst (re_entries e)) \<and>
     (\<forall>k x. lookup e k = Some x \<longrightarrow> (\<exists>lk. k = RLedger lk) \<and> snd x = None)"

text \<open>Fields of the \<open>Env\<close> that the token does not see.\<close>

lemma ref_view_other [simp]:
  "ref_view (e\<lparr>re_auths := es\<rparr>) = ref_view e" "ref_good (e\<lparr>re_auths := es\<rparr>) = ref_good e"
  "ref_view (e\<lparr>re_frame := f\<rparr>) = ref_view e" "ref_good (e\<lparr>re_frame := f\<rparr>) = ref_good e"
  "ref_view (e\<lparr>re_time := t\<rparr>) = ref_view e" "ref_good (e\<lparr>re_time := t\<rparr>) = ref_good e"
  by (simp_all add: ref_view_def ref_good_def ref_store_def lookup_def fun_eq_iff)

lemma hv_seq_ref [simp]: "hv_seq (ref_view e) = re_seq e"
  by (simp add: ref_view_def)

section \<open>Time\<close>

lemma ref_advance:
  assumes "advance_env ref_snapshots e l = Inr e1" "distinct (map fst (re_entries e))"
  shows "unat (re_seq e1) = unat (re_seq e) + unat l" "distinct (map fst (re_entries e1))"
    "lookup e1 k = (case lookup e k of
       Some (v, x) \<Rightarrow> if (case x of Some x \<Rightarrow> x < re_seq e1 | None \<Rightarrow> False) then None else Some (v, x)
     | None \<Rightarrow> None)"
proof -
  obtain seq ti where e1: "clock (ref_sdk auth_error) ref_snapshots e1 = (seq, ti)"
    "unat seq = unat (ledger_sequence (ref_sdk auth_error) e) + unat l"
    "e1 = from_snapshot ref_snapshots (purge_expired_entries
       ((to_snapshot ref_snapshots e)\<lparr>sequence_number := seq, timestamp := ti\<rparr>))"
    by (rule ledger_clock.advance_env_Inr [OF ref_clock assms(1)])
  show "unat (re_seq e1) = unat (re_seq e) + unat l" using e1(1,2) by simp
  have es: "re_entries e1 = filter (\<lambda>x. \<not> expired (re_seq e1) x) (re_entries e)"
    using e1(1,3) by (simp add: ref_snapshots_def)
  show "distinct (map fst (re_entries e1))"
    unfolding es by (rule distinct_map_filter [OF assms(2)])
  show "lookup e1 k = (case lookup e k of
       Some (v, x) \<Rightarrow> if (case x of Some x \<Rightarrow> x < re_seq e1 | None \<Rightarrow> False) then None else Some (v, x)
     | None \<Rightarrow> None)"
    unfolding lookup_def es map_of_filter [OF assms(2)]
    by (auto simp: expired_def split: option.splits)
qed

lemma ref_advance_ok:
  assumes e: "ref_good e" and adv: "advance_env ref_snapshots e l = Inr e1"
    and inst: "unat l \<le> hv_instance_ttl (ref_view e)"
  shows "ref_good e1" "view_aged (unat l) (ref_view e) (ref_view e1)"
proof -
  have dist: "distinct (map fst (re_entries e))" using e by (simp add: ref_good_def)
  note a = ref_advance [OF adv dist]
  have keep: "lookup e1 k = Some (v, Some x)" "remaining (re_seq e) x \<le> remaining (re_seq e1) x + unat l"
    if "lookup e k = Some (v, Some x)" "unat l \<le> remaining (re_seq e) x" for k v x
  proof -
    have "re_seq e \<le> x" using e that(1) unfolding ref_good_def by blast
    then show "lookup e1 k = Some (v, Some x)"
      using remaining_age(2) [OF a(1) that(2)] a(3) [of k] that(1) by simp
    show "remaining (re_seq e) x \<le> remaining (re_seq e1) x + unat l"
      by (rule remaining_age(1) [OF a(1) that(2)])
  qed
  have sub: "lookup e1 k = Some x \<Longrightarrow> lookup e k = Some x" for k x
    using a(3) [of k] by (auto split: option.splits if_splits)
  obtain m md x where i: "lookup e RInstance = Some (RInstanceVal m md, Some x)"
    by (rule ref_good_instance [OF e])
  then have i1: "lookup e1 RInstance = Some (RInstanceVal m md, Some x)"
    using keep(1) inst by (simp add: ref_view_def life_left_def)
  have live: "re_seq e1 \<le> x" if "lookup e1 k = Some (v, Some x)" for k v x
    using a(3) [of k] that by (auto split: option.splits if_splits)
  show "ref_good e1"
    unfolding ref_good_def
  proof (intro conjI allI impI)
    show "distinct (map fst (re_entries e1))" by (rule a(2))
    show "\<exists>m md l. lookup e1 RInstance = Some (RInstanceVal m md, Some l)" using i1 by blast
    show "\<exists>v l. d \<noteq> Instance \<and> x = (RStored v, Some l)" if "lookup e1 (RData d k) = Some x" for d k x
      using e sub [OF that] unfolding ref_good_def by blast
    show "re_seq e1 \<le> l" if "lookup e1 k = Some (v, Some l)" for k v l
      using live [OF that] .
  qed
  show "view_aged (unat l) (ref_view e) (ref_view e1)"
    unfolding view_aged_def
  proof (intro conjI allI impI)
    show "hv_meta (ref_view e1) = hv_meta (ref_view e)"
      using i i1 by (simp add: ref_view_defs)
    show inst_same: "hv_store (ref_view e1) (Instance, k) = hv_store (ref_view e) (Instance, k)" for k
      using i i1 by (simp add: ref_view_defs)
    show "hv_store (ref_view e1) (d, k) = hv_store (ref_view e) (d, k) \<or>
        hv_store (ref_view e1) (d, k) = None" for d k
    proof (cases "d = Instance \<or> lookup e1 (RData d k) = None")
      case True
      then show ?thesis using inst_same by (auto simp: ref_view_defs)
    next
      case False
      then show ?thesis using sub [of "RData d k"] by (auto simp: ref_view_defs)
    qed
  next
    fix k
    assume l: "unat l \<le> hv_ttl (ref_view e) k"
    have "hv_store (ref_view e1) (Persistent, k) = hv_store (ref_view e) (Persistent, k) \<and>
      hv_ttl (ref_view e) k \<le> hv_ttl (ref_view e1) k + unat l"
    proof (cases "lookup e (RData Persistent k)")
      case None
      then have "lookup e1 (RData Persistent k) = None"
        using sub by (cases "lookup e1 (RData Persistent k)") auto
      with None show ?thesis by (simp add: ref_view_defs)
    next
      case (Some x)
      obtain v y where x: "x = (RStored v, Some y)" by (rule ref_good_data [OF e Some])
      then have "unat l \<le> remaining (re_seq e) y" using l Some by (simp add: ref_view_defs)
      from keep [OF _ this] Some x show ?thesis by (simp add: ref_view_defs)
    qed
    then show "hv_store (ref_view e1) (Persistent, k) = hv_store (ref_view e) (Persistent, k)"
      "hv_ttl (ref_view e) k \<le> hv_ttl (ref_view e1) k + unat l"
      by simp_all
  qed
qed

section \<open>The world of the example token\<close>

lemma ref_put_ready:
  assumes "ref_ready e"
  shows "ref_ready (store e (RLedger k) (REntry v, None))"
  using assms by (simp add: ref_ready_def store_def lookup_def)

lemma ref_register_ok:
  assumes "ref_ready e"
  shows "ref_good (snd (ref_register e None))" "hv_store (ref_view (snd (ref_register e None))) kk = None"
    "4095 \<le> hv_instance_ttl (ref_view (snd (ref_register e None)))"
proof -
  have none: "lookup e (RData d k) = None" for d k
    using assms by (cases "lookup e (RData d k)") (auto simp: ref_ready_def)
  have old: "lookup e k \<noteq> Some (v, Some l)" for k v l
    using assms by (fastforce simp: ref_ready_def)
  have "distinct (map fst (re_entries (store e k x)))" for k x
    using assms by (simp add: ref_ready_def store_def)
  then show "ref_good (snd (ref_register e None))"
    using none old le_sat_add by (auto simp: ref_good_def ref_register_def)
  show "hv_store (ref_view (snd (ref_register e None))) kk = None"
    using none by (simp add: ref_register_def ref_view_defs)
  show "4095 \<le> hv_instance_ttl (ref_view (snd (ref_register e None)))"
    using remaining_sat_add [of 4095 "re_seq e"] by (simp add: ref_register_def ref_view_defs)
qed

lemma ref_enter_auth:
  assumes "ref_auth token_sc (e\<lparr>re_frame := Some (fn, vs)\<rparr>) a"
  shows "authorized (re_auths e) (addr_sc a) (command_invocation token_sc fn vs)"
  using assms by (auto simp: ref_auth_def authorized_def list_ex_iff)

lemma ref_world:
  assumes "generator_ok gen"
  shows "example_world (ref_sdk err) mk_addr pre_network_id ref_snapshots ref_host ref_good ref_view
    (ref_auth token_sc) (ref_example_sdk err) (ref_frames err) gen token_id token_sc ref_ready
    re_auths max_ttl"
proof (intro example_world.intro ref_sdk_auth ref_clock ref_token.token_host_laws_axioms
    example_world_axioms.intro, goal_cases)
  case 1 show ?case by (rule assms)
next
  case 2 show ?case by (simp add: token_id_def) (simp add: token_sc_def)
next
  case (17 e l e1)
  then show ?case
    using ref_advance_ok [OF 17(1,2)] by (simp add: ref_example_sdk_def ref_register_def)
next
  case 18 show ?case by (simp add: ref_ready_def lookup_def)
next
  case (19 e k v)
  then show ?case using ref_put_ready [of e k v] by simp
next
  case (20 e)
  then show ?case
    using ref_register_ok [OF 20]
    by (intro exI [of _ "snd (ref_register e None)"])
      (simp add: ref_example_sdk_def MAX_LEDGERS_TO_ADVANCE_def, simp add: ref_register_def)
next
  case (21 e k v)
  show ?case
    by (rule ref_good_instance [OF 21]) (simp add: ref_host_def ref_set_def)
next
  case (22 e md)
  show ?case
    by (rule ref_good_instance [OF 22]) (simp add: ref_host_def)
qed (auto simp: carries_def ref_frames_def ref_example_sdk_def max_ttl_def ref_enter_auth)

text \<open>
  The interpretations, for a generator with accounts of both kinds: every interface of the
  development holds of the reference SDK with the example token.
\<close>

definition ref_gen :: address_generator where
  "ref_gen = \<lparr>address_seed = 7, address_types = [Account, Contract, Account]\<rparr>"

lemma ref_gen_ok: "generator_ok ref_gen"
  by (simp add: generator_ok_def ref_gen_def NUMBER_OF_ADDRESSES_def)

interpretation ref_run: example_world "ref_sdk err" mk_addr pre_network_id ref_snapshots ref_host
  ref_good ref_view "ref_auth token_sc" "ref_example_sdk err" "ref_frames err" ref_gen token_id
  token_sc ref_ready re_auths max_ttl
  for err
  by (rule ref_world [OF ref_gen_ok])

end
