(* ===== verification/Token_Live.thy ===== *)
theory Token_Live
  imports Token_Correct
begin

text \<open>
  When the entry points of the example token return. The locale \<open>live_host_laws\<close> adds to the host's
  laws that its functions work where they are documented to: writes and events succeed, an
  authorized address is let through, and a temporary entry can be extended by up to \<open>max_live\<close>
  ledgers. Then an authorized call whose amount is covered and does not overflow returns, so none
  of the contract's own guards stops a rightful call.
\<close>

locale live_host_laws = token_host_laws H good view auth
  for H :: "('env, 'addr) token_host" and good :: "'env \<Rightarrow> bool"
    and view :: "'env \<Rightarrow> 'addr host_view" and auth :: "'env \<Rightarrow> 'addr \<Rightarrow> bool" +
  fixes max_live :: nat
  assumes set_total: "good e \<Longrightarrow> \<exists>e'. host_set H d e k v = Inr e'"
    and publish_total: "good e \<Longrightarrow> \<exists>e'. host_publish H e ev = Inr e'"
    and auth_total: "good e \<Longrightarrow> auth e a \<Longrightarrow> \<exists>e'. host_require_auth H e a = Inr e'"
    and extend_temporary_total: "good e \<Longrightarrow> hv_store (view e) (Temporary, k) \<noteq> None \<Longrightarrow>
      unat to \<le> max_live \<Longrightarrow> \<exists>e'. host_extend_ttl H Temporary e k to to = Inr e'"
begin

lemma write_balance_total:
  assumes "good e"
  shows "\<exists>e'. write_balance H e a n = Inr e'"
proof -
  obtain e1 where e1: "host_set H Persistent e (BalanceKey a) (StoredI128 n) = Inr e1"
    using set_total [OF assms] by blast
  then have "good e1" "hv_store (view e1) (balance_key a) \<noteq> None"
    using set_law [OF assms e1] by auto
  then show ?thesis using extend_total bump_covers_threshold(2) e1 by (simp add: write_balance_def)
qed

lemma receive_balance_total:
  assumes "good e" "token_ok admin (view e)" "0 \<le> sint n"
    and "bals (token_view (view e)) a + sint n < 2 ^ 127"
  shows "\<exists>e'. receive_balance H e a n = Inr e'"
proof -
  obtain b e1 where b: "read_balance H e a = Inr (b, e1)" "sint b = bals (token_view (view e)) a"
      "token_step good view admin e e1 (\<lambda>t. t)"
    by (rule read_balance_step [OF assms(1,2), of a])
  have "0 \<le> sint b" using b(2) token_ok_range(1) [OF assms(2), of a] by simp
  then have "checked_sadd b n = Some (b + n)"
    using assms(3,4) b(2) by (simp add: checked_sadd_def)
  then show ?thesis
    using b write_balance_total by (simp add: receive_balance_def token_step_def)
qed

lemma spend_balance_total:
  assumes "good e" "token_ok admin (view e)" "0 \<le> sint n" "sint n \<le> bals (token_view (view e)) a"
  shows "\<exists>e'. spend_balance H e a n = Inr e'"
proof -
  obtain b e1 where b: "read_balance H e a = Inr (b, e1)" "sint b = bals (token_view (view e)) a"
      "token_step good view admin e e1 (\<lambda>t. t)"
    by (rule read_balance_step [OF assms(1,2), of a])
  obtain m where "checked_ssub b n = Some m"
    using checked_ssub_nonneg [of b n] assms(3,4) b(2) by auto
  then show ?thesis
    using b assms(4) write_balance_total by (simp add: spend_balance_def token_step_def)
qed

text \<open>An expiry the host can still extend to.\<close>

abbreviation (input) reachable_expiry where
  "reachable_expiry e x \<equiv> hv_seq (view e) \<le> x \<and> unat x \<le> unat (hv_seq (view e)) + max_live"

lemma write_allowance_total:
  assumes "good e" "0 \<le> sint n" "sint n = 0 \<or> reachable_expiry e x"
  shows "\<exists>e'. write_allowance H e f s n x = Inr e'"
proof -
  let ?key = "AllowanceKey \<lparr>key_from = f, key_spender = s\<rparr>"
  let ?val = "StoredAllowance \<lparr>av_amount = n, av_expiration_ledger = x\<rparr>"
  obtain e1 where e1: "host_set H Temporary e ?key ?val = Inr e1"
    using set_total [OF assms(1)] by blast
  note s = set_law [OF assms(1) e1]
  then have seq: "host_sequence H e1 = hv_seq (view e)" by (auto simp: seq_law)
  show ?thesis
  proof (cases "sint n = 0")
    case True
    with e1 show ?thesis by (simp add: write_allowance_def Let_def)
  next
    case False
    with assms(3) have x: "hv_seq (view e) \<le> x" "unat x \<le> unat (hv_seq (view e)) + max_live"
      by simp_all
    then have l: "checked_usub x (hv_seq (view e)) = Some (x - hv_seq (view e))"
        "unat (x - hv_seq (view e)) \<le> max_live"
      by (simp_all add: checked_usub_def word_le_nat_alt unat_sub)
    obtain e2 where "host_extend_ttl H Temporary e1 ?key (x - hv_seq (view e)) (x - hv_seq (view e)) = Inr e2"
      using extend_temporary_total [of e1 ?key, OF _ _ l(2)] s by auto
    with False e1 l(1) x(1) seq show ?thesis
      by (simp add: write_allowance_def Let_def seq_law [OF assms(1)] not_less)
  qed
qed

lemma spend_allowance_total:
  assumes "good e" "token_ok admin (view e)" "0 \<le> sint n"
    and "sint n \<le> allws (token_view (view e)) f s"
    and "\<forall>al. hv_store (view e) (allowance_key f s) = Some (StoredAllowance al) \<longrightarrow>
      unat (av_expiration_ledger al) \<le> unat (hv_seq (view e)) + max_live"
  shows "\<exists>e'. spend_allowance H e f s n = Inr e'"
proof (rule token_ok_allowance [OF assms(2), of f s])
  assume none: "hv_store (view e) (allowance_key f s) = None" "allws (token_view (view e)) f s = 0"
  then have "n = 0" using assms(3,4) sint_eq_sint_iff [of n 0] by (simp add: stored_allowance_def)
  obtain e' where "write_allowance H e f s 0 0 = Inr e'"
    using write_allowance_total [OF assms(1), of 0 0 f s] by auto
  with none \<open>n = 0\<close> show ?thesis
    by (simp add: spend_allowance_def read_allowance_def get_allowance_value_def get_law [OF assms(1)]
        checked_ssub_def)
next
  fix al
  assume al: "hv_store (view e) (allowance_key f s) = Some (StoredAllowance al)"
    "allws (token_view (view e)) f s =
      (if av_expiration_ledger al < hv_seq (view e) then 0 else sint (av_amount al))"
  obtain cur where cur: "read_allowance H e f s = Inr cur" "sint (av_amount cur) = allws (token_view (view e)) f s"
      "av_expiration_ledger cur = av_expiration_ledger al"
    using al by (auto simp: read_allowance_def get_allowance_value_def get_law [OF assms(1)]
        seq_law [OF assms(1)] stored_allowance_def)
  obtain m where m: "checked_ssub (av_amount cur) n = Some m"
    using checked_ssub_nonneg [of "av_amount cur" n] assms(3,4) cur(2) by auto
  then have sm: "sint m = sint (av_amount cur) - sint n" by (simp add: checked_ssub_Some)
  have "sint m = 0 \<or> reachable_expiry e (av_expiration_ledger al)"
    using al assms(3-5) cur(2) sm by (cases "av_expiration_ledger al < hv_seq (view e)") (auto simp: not_less)
  moreover have "0 \<le> sint m" using sm cur(2) assms(4) by simp
  ultimately obtain e' where "write_allowance H e f s m (av_expiration_ledger al) = Inr e'"
    using write_allowance_total [OF assms(1)] by blast
  with cur m assms(4) show ?thesis by (simp add: spend_allowance_def)
qed

section \<open>Entry points\<close>

lemma guards_pass:
  assumes "good e" "token_ok admin (view e)" "auth e a"
  obtains e1 e2 where "host_require_auth H e a = Inr e1" "extend_instance H e1 = Inr e2"
    "good e2" "token_ok admin (view e2)" "token_view (view e2) = token_view (view e)"
    "hv_store (view e2) = hv_store (view e)" "hv_seq (view e2) = hv_seq (view e)"
proof -
  obtain e1 where e1: "host_require_auth H e a = Inr e1" using auth_total [OF assms(1,3)] by blast
  have g1: "good e1" "view e1 = view e" using auth_law [OF assms(1) e1] by simp_all
  with assms(2) obtain e2 where e2: "extend_instance H e1 = Inr e2"
      "hv_store (view e2) = hv_store (view e1)" "token_step good view admin e1 e2 (\<lambda>t. t)"
    using extend_instance_step [of e1 admin] by auto
  show ?thesis
    using that [OF e1 e2(1)] guarded_call(1-3) [where n = "0 :: i128", OF assms(1,2) e1 _ e2(1)] e2 g1(2)
    by (simp add: token_step_def token_keeps_def)
qed

lemma publish_after:
  assumes "token_step good view admin e e1 f"
  shows "\<exists>e'. host_publish H e1 ev = Inr e'"
  using assms publish_total by (simp add: token_step_def)

lemma mint_returns:
  assumes "good e" "token_ok admin (view e)" "auth e admin" "0 \<le> sint n"
    and "bals (token_view (view e)) to + sint n < 2 ^ 127"
  shows "\<exists>e'. token_mint H e to n = Inr e'"
proof -
  obtain e1 e2 where g: "host_require_auth H e admin = Inr e1" "extend_instance H e1 = Inr e2"
      "good e2" "token_ok admin (view e2)" "token_view (view e2) = token_view (view e)"
    by (rule guards_pass [OF assms(1-3)])
  obtain e3 where e3: "receive_balance H e2 to n = Inr e3"
    using receive_balance_total [OF g(3,4) assms(4)] assms(5) unfolding g(5) by blast
  show ?thesis
    using publish_after [OF receive_balance_step [OF g(3,4) e3 assms(4)]] g(1,2) e3 assms(4)
    by (simp add: token_mint_def read_administrator_ok [OF assms(1,2)] check_nonnegative_amount_def)
qed

lemma approve_returns:
  assumes "good e" "token_ok admin (view e)" "auth e from" "0 \<le> sint n"
    and "sint n = 0 \<or> reachable_expiry e x"
  shows "\<exists>e'. token_approve H e from spender n x = Inr e'"
proof -
  obtain e1 e2 where g: "host_require_auth H e from = Inr e1" "extend_instance H e1 = Inr e2"
      "good e2" "token_ok admin (view e2)" "hv_seq (view e2) = hv_seq (view e)"
    by (rule guards_pass [OF assms(1-3)])
  obtain e3 where e3: "write_allowance H e2 from spender n x = Inr e3"
    using write_allowance_total [OF g(3) assms(4), of x] assms(5) g(5) by auto
  show ?thesis
    using publish_after [OF write_allowance_step(1) [OF g(3,4) e3 assms(4)]] g(1,2) e3 assms(4)
    by (simp add: token_approve_def check_nonnegative_amount_def)
qed

text \<open>Spending from a balance, and crediting it elsewhere, after the guards.\<close>

lemma burn_total:
  assumes "good e" "token_ok admin (view e)" "0 \<le> sint n" "sint n \<le> bals (token_view (view e)) from"
  shows "\<exists>e1 e'. spend_balance H e from n = Inr e1 \<and> host_publish H e1 ev = Inr e'"
proof -
  obtain e1 where e1: "spend_balance H e from n = Inr e1"
    using spend_balance_total [OF assms] by blast
  show ?thesis using publish_after [OF spend_balance_step(1) [OF assms(1,2) e1 assms(3)]] e1 by blast
qed

lemma move_total:
  assumes "good e" "token_ok admin (view e)" "0 \<le> sint n" "sint n \<le> bals (token_view (view e)) from"
    and "from = to \<or> bals (token_view (view e)) to + sint n < 2 ^ 127"
  shows "\<exists>e1 e2 e'. spend_balance H e from n = Inr e1 \<and> receive_balance H e1 to n = Inr e2 \<and>
    host_publish H e2 ev = Inr e'"
proof -
  obtain e1 where e1: "spend_balance H e from n = Inr e1"
    using spend_balance_total [OF assms(1-4)] by blast
  note s = spend_balance_step(1) [OF assms(1,2) e1 assms(3)]
  then have "bals (token_view (view e1)) to + sint n < 2 ^ 127"
    using assms(5) token_ok_range(2) [OF assms(2), of to]
    by (auto simp: token_step_def spec_burn_def simp del: token_view_simps)
  then obtain e2 where e2: "receive_balance H e1 to n = Inr e2"
    using receive_balance_total [OF _ _ assms(3)] s unfolding token_step_def by blast
  have "token_step good view admin e1 e2 (spec_mint to (sint n))"
    by (rule receive_balance_step [OF _ _ e2 assms(3)]) (use s in \<open>simp_all add: token_step_def\<close>)
  from publish_after [OF this] e1 e2 show ?thesis by blast
qed

lemma burn_returns:
  assumes "good e" "token_ok admin (view e)" "auth e from" "0 \<le> sint n"
    and "sint n \<le> bals (token_view (view e)) from"
  shows "\<exists>e'. token_burn H e from n = Inr e'"
proof -
  obtain e1 e2 where g: "host_require_auth H e from = Inr e1" "extend_instance H e1 = Inr e2"
      "good e2" "token_ok admin (view e2)" "token_view (view e2) = token_view (view e)"
    by (rule guards_pass [OF assms(1-3)])
  show ?thesis
    using burn_total [OF g(3,4) assms(4), of "from" "BurnEvent from n"] assms(4,5) g(1,2) unfolding g(5)
    by (auto simp: token_burn_def check_nonnegative_amount_def simp del: token_view_simps)
qed

lemma transfer_returns:
  assumes "good e" "token_ok admin (view e)" "auth e from" "0 \<le> sint n"
    and "sint n \<le> bals (token_view (view e)) from"
    and "from = to \<or> bals (token_view (view e)) to + sint n < 2 ^ 127"
  shows "\<exists>e'. token_transfer H e from to n = Inr e'"
proof -
  obtain e1 e2 where g: "host_require_auth H e from = Inr e1" "extend_instance H e1 = Inr e2"
      "good e2" "token_ok admin (view e2)" "token_view (view e2) = token_view (view e)"
    by (rule guards_pass [OF assms(1-3)])
  show ?thesis
    using move_total [OF g(3,4) assms(4), of "from" to "TransferEvent from to n"] assms(4-6) g(1,2)
    unfolding g(5)
    by (auto simp: token_transfer_def check_nonnegative_amount_def simp del: token_view_simps)
qed

text \<open>The guards of the calls on behalf of a holder, up to the spending of the allowance.\<close>

lemma spender_guards_pass:
  assumes "good e" "token_ok admin (view e)" "auth e spender" "0 \<le> sint n"
    and "sint n \<le> allws (token_view (view e)) f spender"
    and "\<forall>al. hv_store (view e) (allowance_key f spender) = Some (StoredAllowance al) \<longrightarrow>
      unat (av_expiration_ledger al) \<le> unat (hv_seq (view e)) + max_live"
  obtains e1 e2 e3 where "host_require_auth H e spender = Inr e1" "extend_instance H e1 = Inr e2"
    "spend_allowance H e2 f spender n = Inr e3" "good e3" "token_ok admin (view e3)"
    "bals (token_view (view e3)) = bals (token_view (view e))"
proof -
  obtain e1 e2 where g: "host_require_auth H e spender = Inr e1" "extend_instance H e1 = Inr e2"
      "good e2" "token_ok admin (view e2)" "token_view (view e2) = token_view (view e)"
      "hv_store (view e2) = hv_store (view e)" "hv_seq (view e2) = hv_seq (view e)"
    by (rule guards_pass [OF assms(1-3)])
  obtain e3 where e3: "spend_allowance H e2 f spender n = Inr e3"
    using spend_allowance_total [OF g(3,4) assms(4), of f spender] assms(5,6)
    unfolding g(5-7) by blast
  note s = spend_allowance_step(1) [OF g(3,4) e3 assms(4)]
  show ?thesis
    by (rule that [OF g(1,2) e3])
      (use s g(5) in \<open>simp_all add: token_step_def del: token_view_simps\<close>)
qed

lemma transfer_from_returns:
  assumes "good e" "token_ok admin (view e)" "auth e spender" "0 \<le> sint n"
    and "sint n \<le> allws (token_view (view e)) from spender"
    and "\<forall>al. hv_store (view e) (allowance_key from spender) = Some (StoredAllowance al) \<longrightarrow>
      unat (av_expiration_ledger al) \<le> unat (hv_seq (view e)) + max_live"
    and "sint n \<le> bals (token_view (view e)) from"
    and "from = to \<or> bals (token_view (view e)) to + sint n < 2 ^ 127"
  shows "\<exists>e'. token_transfer_from H e spender from to n = Inr e'"
proof -
  obtain e1 e2 e3 where g: "host_require_auth H e spender = Inr e1" "extend_instance H e1 = Inr e2"
      "spend_allowance H e2 from spender n = Inr e3" "good e3" "token_ok admin (view e3)"
      "bals (token_view (view e3)) = bals (token_view (view e))"
    by (rule spender_guards_pass [OF assms(1-6)])
  show ?thesis
    using move_total [OF g(4,5) assms(4), of "from" to "TransferEvent from to n"] assms(4,7,8) g(1-3)
    unfolding g(6)
    by (auto simp: token_transfer_from_def check_nonnegative_amount_def simp del: token_view_simps)
qed

lemma burn_from_returns:
  assumes "good e" "token_ok admin (view e)" "auth e spender" "0 \<le> sint n"
    and "sint n \<le> allws (token_view (view e)) from spender"
    and "\<forall>al. hv_store (view e) (allowance_key from spender) = Some (StoredAllowance al) \<longrightarrow>
      unat (av_expiration_ledger al) \<le> unat (hv_seq (view e)) + max_live"
    and "sint n \<le> bals (token_view (view e)) from"
  shows "\<exists>e'. token_burn_from H e spender from n = Inr e'"
proof -
  obtain e1 e2 e3 where g: "host_require_auth H e spender = Inr e1" "extend_instance H e1 = Inr e2"
      "spend_allowance H e2 from spender n = Inr e3" "good e3" "token_ok admin (view e3)"
      "bals (token_view (view e3)) = bals (token_view (view e))"
    by (rule spender_guards_pass [OF assms(1-6)])
  show ?thesis
    using burn_total [OF g(4,5) assms(4), of "from" "BurnEvent from n"] assms(4,7) g(1-3)
    unfolding g(6)
    by (auto simp: token_burn_from_def check_nonnegative_amount_def simp del: token_view_simps)
qed

text \<open>Spending more than the balance is stopped by the contract, with its message.\<close>

lemma overspend_panics:
  assumes "good e" "token_ok admin (view e)" "auth e from" "0 \<le> sint n"
    and "bals (token_view (view e)) from < sint n"
  shows "token_transfer H e from to n = Inl (Panic ''insufficient balance'')"
    and "token_burn H e from n = Inl (Panic ''insufficient balance'')"
proof -
  obtain e1 e2 where g: "host_require_auth H e from = Inr e1" "extend_instance H e1 = Inr e2"
      "good e2" "token_ok admin (view e2)" "token_view (view e2) = token_view (view e)"
    by (rule guards_pass [OF assms(1-3)])
  have "spend_balance H e2 from n = Inl (Panic ''insufficient balance'')"
    by (rule read_balance_step [OF g(3,4), of "from"])
      (use assms(5) in \<open>simp add: spend_balance_def g(5) del: token_view_simps\<close>)
  with g(1,2) assms(4) show "token_transfer H e from to n = Inl (Panic ''insufficient balance'')"
    "token_burn H e from n = Inl (Panic ''insufficient balance'')"
    by (simp_all add: token_transfer_def token_burn_def check_nonnegative_amount_def)
qed

end

end
