(* ===== verification/Demo.thy ===== *)
theory Demo
  imports Reference_Sdk Token_Live
begin

text \<open>
  Concrete states of the reference model at which the properties are applied: three addresses,
  and an \<open>Env\<close> in which \<open>carol\<close> administers the example token, \<open>alice\<close> holds 100 and lets \<open>bob\<close> spend
  50 of it, inside a frame of a call that \<open>signer\<close> authorized.
\<close>

text \<open>The reference host is live; it extends entries without a limit.\<close>

interpretation ref_live: live_host_laws ref_host ref_good ref_view "ref_auth token_sc" "2 ^ 32"
proof
  fix e d k v
  assume e: "ref_good e"
  show "\<exists>e'. host_set ref_host d e k v = Inr e'"
    by (rule ref_good_instance [OF e])
      (auto simp: ref_host_def ref_set_def split: option.splits)
next
  fix e k and to :: u32
  assume e: "ref_good e" and k: "hv_store (ref_view e) (Temporary, k) \<noteq> None"
  from k obtain x where x: "lookup e (RData Temporary k) = Some x"
    by (cases "lookup e (RData Temporary k)") (simp_all add: ref_view_defs)
  obtain v l where "x = (RStored v, Some l)" by (rule ref_good_data [OF e x])
  with x show "\<exists>e'. host_extend_ttl ref_host Temporary e k to to = Inr e'"
    by (simp add: ref_host_def ref_extend_key_def)
qed (simp_all add: ref_host_def)

definition alice :: raddr where
  "alice = mk_addr (ScContract (replicate 32 1))"

definition bob :: raddr where
  "bob = mk_addr (ScContract (replicate 32 2))"

definition carol :: raddr where
  "carol = mk_addr (ScContract (replicate 32 3))"

lemma people_distinct [simp]:
  "alice \<noteq> bob" "bob \<noteq> alice" "alice \<noteq> carol" "carol \<noteq> alice" "bob \<noteq> carol" "carol \<noteq> bob"
  by (simp_all add: alice_def bob_def carol_def raddr_eq_iff)

definition demo_entries :: "(rkey \<times> rentry) list" where
  "demo_entries =
     [(RInstance, (RInstanceVal [AdminKey \<mapsto> StoredAddress carol] (Some example_metadata), Some 5000)),
      (RData Persistent (BalanceKey alice), (RStored (StoredI128 100), Some 600000)),
      (RData Temporary (AllowanceKey \<lparr>key_from = alice, key_spender = bob\<rparr>),
        (RStored (StoredAllowance \<lparr>av_amount = 50, av_expiration_ledger = 200\<rparr>), Some 200))]"

definition demo_env :: "raddr \<Rightarrow> string \<Rightarrow> raddr val list \<Rightarrow> renv" where
  "demo_env signer fn vs =
     \<lparr>re_seq = 100, re_time = 0, re_entries = demo_entries,
      re_auths = [\<lparr>credentials = \<lparr>cred_address = addr_sc signer, cred_nonce = 0,
         cred_expiration_ledger = 200, cred_signature = Void\<rparr>,
         root_invocation = command_invocation token_sc fn vs\<rparr>],
      re_frame = Some (fn, vs)\<rparr>"

lemma demo_lookup:
  "lookup (demo_env a fn vs) =
     [RInstance \<mapsto>
        (RInstanceVal [AdminKey \<mapsto> StoredAddress carol] (Some example_metadata), Some 5000),
      RData Persistent (BalanceKey alice) \<mapsto> (RStored (StoredI128 100), Some 600000),
      RData Temporary (AllowanceKey \<lparr>key_from = alice, key_spender = bob\<rparr>) \<mapsto>
        (RStored (StoredAllowance \<lparr>av_amount = 50, av_expiration_ledger = 200\<rparr>), Some 200)]"
  by (auto simp: lookup_def demo_env_def demo_entries_def fun_eq_iff)

lemma demo_env_simps [simp]:
  "re_seq (demo_env a fn vs) = 100" "re_frame (demo_env a fn vs) = Some (fn, vs)"
  "ref_auth token_sc (demo_env a fn vs) a"
  by (simp_all add: demo_env_def ref_auth_def)

lemma demo_good: "ref_good (demo_env a fn vs)"
  by (auto simp: ref_good_def demo_lookup) (auto simp: demo_env_def demo_entries_def)

lemma demo_ok: "token_ok carol (ref_view (demo_env a fn vs))"
  by (auto simp: token_ok_def ref_view_defs demo_lookup)

lemma demo_view [simp]:
  "bals (token_view (ref_view (demo_env a fn vs))) alice = 100"
  "bals (token_view (ref_view (demo_env a fn vs))) bob = 0"
  "allws (token_view (ref_view (demo_env a fn vs))) alice bob = 50"
  by (simp_all add: ref_view_defs demo_lookup stored_balance_def stored_allowance_def)

lemmas ref_eval = ref_host_def ref_set_def ref_extend_key_def ref_view_defs demo_lookup
  get_address_def get_i128_def get_allowance_value_def read_balance_def write_balance_def
  receive_balance_def spend_balance_def read_allowance_def write_allowance_def
  spend_allowance_def read_administrator_def has_administrator_def write_administrator_def
  write_metadata_def extend_instance_def check_nonnegative_amount_def Let_def checked_ssub_def
  checked_sadd_def checked_usub_def

section \<open>A command\<close>

text \<open>
  The same \<open>Env\<close> between calls, accounts with the clients of the example token, and the
  minting of 5 tokens to \<open>alice\<close> that only the administrator authorizes. Failures are reported as
  \<open>quiet_error\<close>, which the fuzzer does not take for a panic.
\<close>

definition quiet_error :: error where
  "quiet_error = Error (OtherErrorType 1) (OtherErrorCode 1)"

definition demo_cur :: "(renv, raddr, u8 list) current_state" where
  "demo_cur =
     \<lparr>accounts = [\<lparr>ts_address = carol, ts_key = None\<rparr>, \<lparr>ts_address = alice, ts_key = None\<rparr>,
        \<lparr>ts_address = bob, ts_key = None\<rparr>],
      admin_client =
        \<lparr>try_mint = ex_try_mint (example_contract_client (ref_frames quiet_error) ref_host)\<rparr>,
      token_client = example_token_client (ref_frames quiet_error) ref_host\<rparr>"

definition demo_idle :: renv where
  "demo_idle = (demo_env alice [] [])\<lparr>re_frame := None\<rparr>"

definition demo_mint :: mint_input where
  "demo_mint = \<lparr>mint_amount = 5, mint_to_account_index = 1, mint_auths = [True, False, False]\<rparr>"

lemma demo_distinct: "distinct (map ts_address (accounts demo_cur))"
  by (simp add: demo_cur_def)

lemma ref_sdk_more_simps [simp]:
  "symbol_try_into (ref_sdk err) f = (if length f \<le> 32 then Some f else None)"
  "vecm_try_from (ref_sdk err) vs = Some vs" "addr_sc token_id = token_sc"
  "address_to_string (ref_sdk err) a = sc_string (addr_sc a)"
  "address_from_string_bytes (ref_sdk err) e (sc_string token_sc) = Inr token_id"
  by (simp_all add: ref_sdk_def token_id_def string_sc_string) (simp_all add: token_sc_def)

lemma demo_mint_auths:
  "mock_auths_for_command (ref_sdk quiet_error) demo_idle ''mint'' [True, False, False]
     (accounts demo_cur) (sc_string token_sc) 0 vs =
   Inr (demo_idle\<lparr>re_auths := [\<lparr>credentials = \<lparr>cred_address = addr_sc carol, cred_nonce = 0,
          cred_expiration_ledger = 6312099, cred_signature = Void\<rparr>,
          root_invocation = command_invocation token_sc ''mint'' vs\<rparr>]\<rparr>, 1)"
  by (simp add: mock_auths_for_command_def checked_uadd_def checked_usub_def max_ttl_def
      demo_idle_def NUMBER_OF_ADDRESSES_def upt_rec mock_auth_step_def mock_auth_entry_def
      demo_cur_def index_def mock_signature_def checked_sadd_def Let_def command_invocation_def)

lemma idle_lookup:
  "lookup (demo_idle\<lparr>re_auths := x, re_frame := y\<rparr>) = lookup (demo_env alice [] [])"
  "re_seq demo_idle = 100"
  by (simp_all add: lookup_def demo_idle_def)

lemma demo_mint_runs:
  "\<exists>env' cs'. exec_command (ref_sdk quiet_error) (sc_string token_sc) demo_cur (Mint demo_mint)
      (demo_idle, init, 0) = Inr (env', cs', 1) \<and>
    tracked_balance (ref_sdk quiet_error) cs' alice = 5"
  using demo_mint_auths [of "[AddressVal alice, I128Val 5]"]
  by (clarsimp simp: exec_mint_def demo_mint_def run_call_def account_address_def index_def demo_cur_def)
    (simp add: example_contract_client_def try_invoke_def no_value_def ref_frames_def token_mint_def
      ref_eval idle_lookup ref_auth_def check_call_def verify_token_contract_result_def on_ok_def
      mirror_mint_def add_balance_def get_balance_def ref_run.address_to_bytes_ok init_def
      tracked_balance_def)

section \<open>A run\<close>

text \<open>
  An input over accounts of both kinds: a minting to a contract account, and more ledgers than
  one step of \<open>advance_time\<close> takes. With \<open>quiet_error\<close> no failure looks like a panic.
\<close>

definition demo_tx :: transaction where
  "demo_tx = \<lparr>commands = [Mint demo_mint], advance_ledgers = 10000\<rparr>"

definition demo_input :: input where
  "demo_input = \<lparr>address_generator = ref_gen, transactions = [demo_tx]\<rparr>"

lemma demo_quiet: "(\<forall>p. fr_error (ref_frames quiet_error) p \<noteq> Error WasmVm InvalidAction) = True"
  by (auto simp: ref_frames_def quiet_error_def auth_error_def split: panic.splits)

lemma demo_tx_ok: "transaction_ok demo_tx"
  by (simp add: transaction_ok_def demo_tx_def demo_mint_def command_ok.simps account_index_ok_def
      auths_ok_def NUMBER_OF_ADDRESSES_def DAY_IN_LEDGERS_def)

lemma demo_input_ok: "input_ok demo_input" "address_generator demo_input = ref_gen"
  using demo_tx_ok ref_gen_ok by (simp_all add: input_ok_def demo_input_def)

lemma demo_fits:
  "run_fits max_ttl (clock (ref_sdk err) ref_snapshots (env_default (ref_sdk err))) 0
     (transactions demo_input)"
  by (simp add: run_fits_def demo_input_def demo_tx_def max_ttl_def NUMBER_OF_ADDRESSES_def)

lemma demo_contract:
  "token_contract (ref_sdk quiet_error) mk_addr pre_network_id ref_snapshots
     (contract (TokenOps (ref_example_sdk quiet_error))) ref_gen token_id token_sc
     (example_token_client (ref_frames quiet_error) ref_host)
     \<lparr>try_mint = ex_try_mint (example_contract_client (ref_frames quiet_error) ref_host)\<rparr>
     (\<lambda>e. token_view (ref_view e))
     (example_good ref_good ref_view (account_addr (ref_sdk quiet_error) mk_addr ref_gen 0)) ref_ready
     (example_life ref_view) re_auths max_ttl True"
  using ref_run.example.token_contract_axioms [of quiet_error] unfolding demo_quiet .

lemma demo_transaction_runs:
  "\<exists>tb env cs nonce cur env' cs' nonce' cur'.
     setup_run (ref_sdk quiet_error) (contract (TokenOps (ref_example_sdk quiet_error))) ref_gen =
       Inr (tb, env, cs, nonce, cur) \<and>
     run_transaction (ref_sdk quiet_error) ref_snapshots
       (contract (TokenOps (ref_example_sdk quiet_error))) ref_gen tb demo_tx (env, cs, nonce, cur) =
       Inr (env', cs', nonce', cur')"
proof -
  have fits: "run_fits max_ttl
      (clock (ref_sdk quiet_error) ref_snapshots (env_default (ref_sdk quiet_error))) 0 [demo_tx]"
    using demo_fits [of quiet_error] by (simp add: demo_input_def)
  from token_contract.first_transaction_sound [OF demo_contract demo_tx_ok fits]
  obtain tb st where st: "setup_run (ref_sdk quiet_error)
        (contract (TokenOps (ref_example_sdk quiet_error))) ref_gen = Inr (tb, st)"
      "sound True (run_transaction (ref_sdk quiet_error) ref_snapshots
        (contract (TokenOps (ref_example_sdk quiet_error))) ref_gen tb demo_tx st) (\<lambda>_. True)"
    by blast
  then show ?thesis by (cases st) (auto simp: sound_def split: sum.splits)
qed

lemma demo_run_kept:
  "fuzz_token (ref_sdk quiet_error) ref_snapshots (contract (TokenOps (ref_example_sdk quiet_error)))
     demo_input = Inr Keep"
proof -
  obtain v where "fuzz_token (ref_sdk quiet_error) ref_snapshots
      (contract (TokenOps (ref_example_sdk quiet_error))) demo_input = Inr v"
    using token_contract.fuzz_token_sound [OF demo_contract demo_input_ok demo_fits]
    by (auto simp: sound_def split: sum.splits)
  then show ?thesis by (auto simp: fuzz_token_def bnd_Inr_iff demo_input_def demo_tx_def split: if_splits)
qed

end
