(* ===== verification/Token_Props.thy ===== *)
theory Token_Props
  imports Demo
begin

text \<open>
  Properties of the example token, for every host that keeps \<open>token_host_laws\<close>. Each is followed by
  its application to a state of the reference host.
\<close>

text \<open>
  C11: a \<open>transfer\<close> of the example token that returns was authorized by the sender, had an amount
  between zero and the sender's balance, and moved exactly that amount from sender to receiver;
  allowances, metadata, administrator and storage lifetimes are kept.
\<close>

theorem example_transfer:
  assumes "token_host_laws H good view auth" "good e" "token_ok admin (view e)"
    and "token_transfer H e from to n = Inr e'"
  shows "auth e from \<and> 0 \<le> sint n \<and> sint n \<le> bals (token_view (view e)) from \<and>
    token_view (view e') = spec_transfer from to (sint n) (token_view (view e)) \<and>
    good e' \<and> token_ok admin (view e') \<and> token_keeps (view e) (view e')"
  using token_host_laws.transfer_step [OF assms(1) assms(2-4)]
  by (auto simp: token_called_def token_step_def)

theorem example_transfer_witness:
  "\<exists>e'. token_transfer ref_host (demo_env alice ''transfer'' []) alice bob 30 = Inr e' \<and>
    token_view (ref_view e') =
      spec_transfer alice bob 30 (token_view (ref_view (demo_env alice ''transfer'' [])))"
proof -
  have "\<exists>e'. token_transfer ref_host (demo_env alice ''transfer'' []) alice bob 30 = Inr e'"
    by (simp add: token_transfer_def ref_eval)
  then show ?thesis
    using example_transfer [OF ref_token.token_host_laws_axioms demo_good demo_ok] by fastforce
qed

text \<open>
  C12: a \<open>transfer_from\<close> that returns was authorized by the spender, had an amount between zero and
  both the holder's balance and the spender's live allowance, moved it and spent the allowance.
\<close>

theorem example_transfer_from:
  assumes "token_host_laws H good view auth" "good e" "token_ok admin (view e)"
    and "token_transfer_from H e spender from to n = Inr e'"
  shows "auth e spender \<and> 0 \<le> sint n \<and> sint n \<le> bals (token_view (view e)) from \<and>
    sint n \<le> allws (token_view (view e)) from spender \<and>
    token_view (view e') = spec_transfer_from spender from to (sint n) (token_view (view e)) \<and>
    good e' \<and> token_ok admin (view e') \<and> token_keeps (view e) (view e')"
  using token_host_laws.transfer_from_step [OF assms(1) assms(2-4)]
  by (auto simp: token_called_def token_step_def)

theorem example_transfer_from_witness:
  "\<exists>e'. token_transfer_from ref_host (demo_env bob ''transfer_from'' []) bob alice carol 30 = Inr e' \<and>
    token_view (ref_view e') =
      spec_transfer_from bob alice carol 30 (token_view (ref_view (demo_env bob ''transfer_from'' [])))"
proof -
  have "\<exists>e'. token_transfer_from ref_host (demo_env bob ''transfer_from'' []) bob alice carol 30 = Inr e'"
    by (simp add: token_transfer_from_def ref_eval)
  then show ?thesis
    using example_transfer_from [OF ref_token.token_host_laws_axioms demo_good demo_ok] by fastforce
qed

text \<open>
  C13: a \<open>mint\<close> that returns was authorized by the administrator, had a non-negative amount and
  credited it to the receiver, without overflow.
\<close>

theorem example_mint:
  assumes "token_host_laws H good view auth" "good e" "token_ok admin (view e)"
    and "token_mint H e to n = Inr e'"
  shows "auth e admin \<and> 0 \<le> sint n \<and>
    token_view (view e') = spec_mint to (sint n) (token_view (view e)) \<and>
    bals (token_view (view e)) to + sint n < 2 ^ 127 \<and>
    good e' \<and> token_ok admin (view e') \<and> token_keeps (view e) (view e')"
proof -
  note step = token_host_laws.mint_step [OF assms(1) assms(2-4)]
  then have v: "token_view (view e') = spec_mint to (sint n) (token_view (view e))"
      "token_ok admin (view e')"
    by (simp_all add: token_called_def token_step_def)
  have "bals (token_view (view e')) to < 2 ^ 127" by (rule token_ok_range(2) [OF v(2)])
  then have "bals (token_view (view e)) to + sint n < 2 ^ 127"
    unfolding v(1) by (simp add: spec_mint_def)
  with step v show ?thesis by (simp add: token_called_def token_step_def)
qed

theorem example_mint_witness:
  "\<exists>e'. token_mint ref_host (demo_env carol ''mint'' []) bob 5 = Inr e' \<and>
    token_view (ref_view e') =
      spec_mint bob 5 (token_view (ref_view (demo_env carol ''mint'' [])))"
proof -
  have "\<exists>e'. token_mint ref_host (demo_env carol ''mint'' []) bob 5 = Inr e'"
    by (simp add: token_mint_def ref_eval)
  then show ?thesis
    using example_mint [OF ref_token.token_host_laws_axioms demo_good demo_ok] by fastforce
qed

text \<open>
  C14: an \<open>approve\<close> that returns was authorized by the holder, had a non-negative amount and, unless
  it was zero, an expiration that is not past; it set the allowance of the spender to the amount and
  stored amount and expiration.
\<close>

theorem example_approve:
  assumes "token_host_laws H good view auth" "good e" "token_ok admin (view e)"
    and "token_approve H e from spender n x = Inr e'"
  shows "auth e from \<and> 0 \<le> sint n \<and> (hv_seq (view e) \<le> x \<or> sint n = 0) \<and>
    token_view (view e') = spec_approve from spender (sint n) (token_view (view e)) \<and>
    hv_store (view e') (allowance_key from spender) =
      Some (StoredAllowance \<lparr>av_amount = n, av_expiration_ledger = x\<rparr>) \<and>
    good e' \<and> token_ok admin (view e') \<and> token_keeps (view e) (view e')"
  using token_host_laws.approve_step [OF assms(1) assms(2-4)]
  by (auto simp: token_called_def token_step_def)

theorem example_approve_witness:
  "\<exists>e'. token_approve ref_host (demo_env alice ''approve'' []) alice carol 7 300 = Inr e' \<and>
    token_view (ref_view e') =
      spec_approve alice carol 7 (token_view (ref_view (demo_env alice ''approve'' [])))"
proof -
  have "\<exists>e'. token_approve ref_host (demo_env alice ''approve'' []) alice carol 7 300 = Inr e'"
    by (simp add: token_approve_def ref_eval)
  then show ?thesis
    using example_approve [OF ref_token.token_host_laws_axioms demo_good demo_ok] by fastforce
qed

text \<open>
  C15: a \<open>burn\<close> that returns was authorized by the holder, had an amount between zero and the
  holder's balance, and removed it.
\<close>

theorem example_burn:
  assumes "token_host_laws H good view auth" "good e" "token_ok admin (view e)"
    and "token_burn H e from n = Inr e'"
  shows "auth e from \<and> 0 \<le> sint n \<and> sint n \<le> bals (token_view (view e)) from \<and>
    token_view (view e') = spec_burn from (sint n) (token_view (view e)) \<and>
    good e' \<and> token_ok admin (view e') \<and> token_keeps (view e) (view e')"
  using token_host_laws.burn_step [OF assms(1) assms(2-4)]
  by (auto simp: token_called_def token_step_def)

theorem example_burn_witness:
  "\<exists>e'. token_burn ref_host (demo_env alice ''burn'' []) alice 40 = Inr e' \<and>
    token_view (ref_view e') =
      spec_burn alice 40 (token_view (ref_view (demo_env alice ''burn'' [])))"
proof -
  have "\<exists>e'. token_burn ref_host (demo_env alice ''burn'' []) alice 40 = Inr e'"
    by (simp add: token_burn_def ref_eval)
  then show ?thesis
    using example_burn [OF ref_token.token_host_laws_axioms demo_good demo_ok] by fastforce
qed

text \<open>
  C16: a \<open>burn_from\<close> that returns was authorized by the spender, had an amount between zero and
  both the holder's balance and the spender's live allowance, removed it and spent the
  allowance.
\<close>

theorem example_burn_from:
  assumes "token_host_laws H good view auth" "good e" "token_ok admin (view e)"
    and "token_burn_from H e spender from n = Inr e'"
  shows "auth e spender \<and> 0 \<le> sint n \<and> sint n \<le> bals (token_view (view e)) from \<and>
    sint n \<le> allws (token_view (view e)) from spender \<and>
    token_view (view e') = spec_burn_from spender from (sint n) (token_view (view e)) \<and>
    good e' \<and> token_ok admin (view e') \<and> token_keeps (view e) (view e')"
  using token_host_laws.burn_from_step [OF assms(1) assms(2-4)]
  by (auto simp: token_called_def token_step_def)

theorem example_burn_from_witness:
  "\<exists>e'. token_burn_from ref_host (demo_env bob ''burn_from'' []) bob alice 50 = Inr e' \<and>
    token_view (ref_view e') =
      spec_burn_from bob alice 50 (token_view (ref_view (demo_env bob ''burn_from'' [])))"
proof -
  have "\<exists>e'. token_burn_from ref_host (demo_env bob ''burn_from'' []) bob alice 50 = Inr e'"
    by (simp add: token_burn_from_def ref_eval)
  then show ?thesis
    using example_burn_from [OF ref_token.token_host_laws_axioms demo_good demo_ok] by fastforce
qed

text \<open>
  C17: a rightful call returns: on a host whose functions work, a call that the right address
  authorized, with a non-negative amount that balance and live allowance cover and that does not
  overflow the receiver's balance, is stopped by no guard and no arithmetic of the contract. An
  approval also needs an expiry between the current ledger and the host's limit, unless it is
  zero.
\<close>

theorem example_calls_return:
  assumes "live_host_laws H good view auth max_live" "good e" "token_ok admin (view e)" "0 \<le> sint n"
    and "v = token_view (view e)"
  shows "(auth e admin \<and> bals v to + sint n < 2 ^ 127 \<longrightarrow> (\<exists>e'. token_mint H e to n = Inr e'))
    \<and> (auth e from \<and> (sint n = 0 \<or> hv_seq (view e) \<le> x \<and> unat x \<le> unat (hv_seq (view e)) + max_live) \<longrightarrow>
      (\<exists>e'. token_approve H e from spender n x = Inr e'))
    \<and> (auth e from \<and> sint n \<le> bals v from \<longrightarrow> (\<exists>e'. token_burn H e from n = Inr e'))
    \<and> (auth e from \<and> sint n \<le> bals v from \<and> (from = to \<or> bals v to + sint n < 2 ^ 127) \<longrightarrow>
      (\<exists>e'. token_transfer H e from to n = Inr e'))
    \<and> (auth e spender \<and> sint n \<le> bals v from \<and> sint n \<le> allws v from spender \<and>
        (\<forall>al. hv_store (view e) (allowance_key from spender) = Some (StoredAllowance al) \<longrightarrow>
          unat (av_expiration_ledger al) \<le> unat (hv_seq (view e)) + max_live) \<longrightarrow>
      (\<exists>e'. token_burn_from H e spender from n = Inr e') \<and>
      (from = to \<or> bals v to + sint n < 2 ^ 127 \<longrightarrow>
        (\<exists>e'. token_transfer_from H e spender from to n = Inr e')))"
  unfolding assms(5)
  using live_host_laws.mint_returns [OF assms(1-3) _ assms(4)]
    live_host_laws.approve_returns [OF assms(1-3) _ assms(4)]
    live_host_laws.burn_returns [OF assms(1-3) _ assms(4)]
    live_host_laws.transfer_returns [OF assms(1-3) _ assms(4)]
    live_host_laws.burn_from_returns [OF assms(1-3) _ assms(4)]
    live_host_laws.transfer_from_returns [OF assms(1-3) _ assms(4)]
  by (intro conjI impI; elim conjE; blast)

theorem example_calls_return_witness:
  "(\<exists>e'. token_transfer ref_host (demo_env alice ''transfer'' []) alice bob 30 = Inr e')
   \<and> (\<exists>e'. token_mint ref_host (demo_env carol ''mint'' []) bob 30 = Inr e')"
proof
  note ret = example_calls_return [OF ref_live.live_host_laws_axioms demo_good demo_ok _ refl]
  show "\<exists>e'. token_transfer ref_host (demo_env alice ''transfer'' []) alice bob 30 = Inr e'"
    using ret [of 30 alice "''transfer''" "[]" bob alice]
    by (simp add: demo_view del: token_view_simps)
  show "\<exists>e'. token_mint ref_host (demo_env carol ''mint'' []) bob 30 = Inr e'"
    using ret [of 30 carol "''mint''" "[]" bob carol]
    by (simp add: demo_view del: token_view_simps)
qed

text \<open>
  C20: moving tokens conserves the supply, minting and burning change it by their amount: over any
  list of accounts that holds the parties, for every call that returns.
\<close>

theorem example_supply:
  assumes "token_host_laws H good view auth" "good e" "token_ok admin (view e)"
    and "distinct as" "from \<in> set as" "to \<in> set as"
  shows "(\<forall>e'. token_transfer H e from to n = Inr e' \<longrightarrow>
      total_supply as (token_view (view e')) = total_supply as (token_view (view e)))
    \<and> (\<forall>e'. token_transfer_from H e spender from to n = Inr e' \<longrightarrow>
      total_supply as (token_view (view e')) = total_supply as (token_view (view e)))
    \<and> (\<forall>e'. token_approve H e from spender n x = Inr e' \<longrightarrow>
      total_supply as (token_view (view e')) = total_supply as (token_view (view e)))
    \<and> (\<forall>e'. token_mint H e to n = Inr e' \<longrightarrow>
      total_supply as (token_view (view e')) = total_supply as (token_view (view e)) + sint n)
    \<and> (\<forall>e'. token_burn H e from n = Inr e' \<longrightarrow>
      total_supply as (token_view (view e')) = total_supply as (token_view (view e)) - sint n)
    \<and> (\<forall>e'. token_burn_from H e spender from n = Inr e' \<longrightarrow>
      total_supply as (token_view (view e')) = total_supply as (token_view (view e)) - sint n)"
proof -
  have tv: "token_called good view auth admin e e' a n step \<Longrightarrow>
      token_view (view e') = step (token_view (view e))" for e' a step
    by (simp add: token_called_def token_step_def)
  note laws = token_host_laws.transfer_step(1) [OF assms(1) assms(2-3), THEN tv]
    token_host_laws.transfer_from_step(1) [OF assms(1) assms(2-3), THEN tv]
    token_host_laws.approve_step(1) [OF assms(1) assms(2-3), THEN tv]
    token_host_laws.mint_step [OF assms(1) assms(2-3), THEN tv]
    token_host_laws.burn_step(1) [OF assms(1) assms(2-3), THEN tv]
    token_host_laws.burn_from_step(1) [OF assms(1) assms(2-3), THEN tv]
  show ?thesis
    using assms(4-6)
    by (auto dest!: laws simp: supply_spec supply_spec_transfer)
qed

theorem example_supply_witness:
  "\<exists>e'. token_transfer ref_host (demo_env alice ''transfer'' []) alice bob 30 = Inr e' \<and>
    total_supply [alice, bob] (token_view (ref_view e')) = 100"
proof -
  let ?e = "demo_env alice ''transfer'' []"
  have "\<exists>e'. token_transfer ref_host ?e alice bob 30 = Inr e'"
    by (simp add: token_transfer_def ref_eval)
  moreover have "total_supply [alice, bob] (token_view (ref_view ?e)) = 100"
    by (simp add: total_supply_def del: token_view_simps)
  ultimately show ?thesis
    using example_supply [OF ref_token.token_host_laws_axioms demo_good demo_ok, of "[alice, bob]" alice bob]
    by (metis distinct_length_2_or_more distinct_singleton list.set_intros(1,2) people_distinct(1))
qed

text \<open>
  C25: initializing an empty contract establishes the invariant with the given administrator and
  metadata and no tokens, only with a decimal that fits \<open>u8\<close>; a second initialization panics.
\<close>

theorem example_initialize:
  assumes "token_host_laws H good view auth" "good e" "\<forall>k. hv_store (view e) k = None"
    and "token_initialize H e admin dec nm sb = Inr e'"
  shows "token_ok admin (view e') \<and> dec \<le> 255 \<and>
    token_view (view e') = \<lparr>bals = (\<lambda>_. 0), allws = (\<lambda>_ _. 0), meta = (nm, sb, dec)\<rparr> \<and>
    token_initialize H e' admin' dec' nm' sb' = Inl (Panic ''already initialized'')"
proof -
  have empty: "hv_store (view e) (d, k) = None" for d k using assms(3) by blast
  note i = token_host_laws.initialize_step [OF assms(1,2) empty assms(4)]
  show ?thesis
    using i(2,3,4) token_host_laws.initialize_once [OF assms(1) i(1,2)] by blast
qed

theorem example_initialize_witness:
  "\<exists>e'. token_initialize ref_host (snd (ref_register (env_default (ref_sdk auth_error)) None))
      alice 7 [84] [85] = Inr e' \<and> token_ok alice (ref_view e')"
proof -
  let ?e = "snd (ref_register (env_default (ref_sdk auth_error)) None)"
  have ready: "ref_ready (env_default (ref_sdk auth_error))" by (simp add: ref_ready_def lookup_def)
  have "\<exists>e'. token_initialize ref_host ?e alice 7 [84] [85] = Inr e'"
    by (simp add: token_initialize_def ref_eval ref_register_def)
  then show ?thesis
    using example_initialize [OF ref_token.token_host_laws_axioms ref_register_ok(1) [OF ready]]
      ref_register_ok(2) [OF ready] by blast
qed

text \<open>
  C26: only the administrator hands over the administration, to the address given, and nothing of
  the token changes.
\<close>

theorem example_set_admin:
  assumes "token_host_laws H good view auth" "good e" "token_ok admin (view e)"
    and "token_set_admin H e new_admin = Inr e'"
  shows "auth e admin \<and> token_ok new_admin (view e') \<and> token_view (view e') = token_view (view e)"
  using token_host_laws.set_admin_step [OF assms(1) assms(2-4)] by simp

theorem example_set_admin_witness:
  "\<exists>e'. token_set_admin ref_host (demo_env carol ''set_admin'' []) bob = Inr e' \<and>
    token_ok bob (ref_view e')"
proof -
  have "\<exists>e'. token_set_admin ref_host (demo_env carol ''set_admin'' []) bob = Inr e'"
    by (simp add: token_set_admin_def ref_eval)
  then show ?thesis
    using example_set_admin [OF ref_token.token_host_laws_axioms demo_good demo_ok] by blast
qed

text \<open>
  C27: \<open>balance\<close> and \<open>allowance\<close> always return the state's values without changing it, and each call
  renews the lifetimes the contract promises: the instance's and the balance's.
\<close>

theorem example_views:
  assumes "token_host_laws H good view auth" "good e" "token_ok admin (view e)"
  shows "(\<exists>b e'. token_balance H e a = Inr (b, e') \<and> sint b = bals (token_view (view e)) a \<and>
      token_view (view e') = token_view (view e) \<and>
      unat INSTANCE_LIFETIME_THRESHOLD \<le> hv_instance_ttl (view e') \<and>
      (hv_store (view e) (balance_key a) \<noteq> None \<longrightarrow>
        unat BALANCE_LIFETIME_THRESHOLD \<le> hv_ttl (view e') (BalanceKey a)))
    \<and> (\<exists>n e'. token_allowance H e a s = Inr (n, e') \<and> sint n = allws (token_view (view e)) a s \<and>
      token_view (view e') = token_view (view e) \<and>
      unat INSTANCE_LIFETIME_THRESHOLD \<le> hv_instance_ttl (view e'))"
    (is "?balance \<and> ?allowance")
proof
  show ?balance
    by (rule token_host_laws.balance_view [OF assms, of a]) (auto simp: token_step_def)
  show ?allowance
    by (rule token_host_laws.allowance_view [OF assms, of a s]) (auto simp: token_step_def)
qed

theorem example_views_witness:
  "\<exists>b e'. token_balance ref_host (demo_env alice ''balance'' []) alice = Inr (b, e') \<and> sint b = 100"
proof -
  have "bals (token_view (ref_view (demo_env alice ''balance'' []))) alice = 100" by (rule demo_view(1))
  then show ?thesis
    using example_views [OF ref_token.token_host_laws_axioms demo_good demo_ok, of alice "''balance''" "[]" alice alice]
    by metis
qed

text \<open>
  C23: no entry point that takes an amount accepts a negative one, whatever the host does.
\<close>

theorem example_negative_amount:
  assumes "sint n < 0"
  shows "token_mint H e to n = Inl (Panic ''negative amount is not allowed'') \<and>
    (\<exists>p. token_approve H e from spender n x = Inl p) \<and>
    (\<exists>p. token_transfer H e from to n = Inl p) \<and>
    (\<exists>p. token_transfer_from H e spender from to n = Inl p) \<and>
    (\<exists>p. token_burn H e from n = Inl p) \<and>
    (\<exists>p. token_burn_from H e spender from n = Inl p)"
proof -
  have c: "check_nonnegative_amount n = Inl (Panic ''negative amount is not allowed'')"
    using assms by (simp add: check_nonnegative_amount_def)
  have b: "\<exists>p. bnd (host_require_auth H e a) (\<lambda>e. bnd (check_nonnegative_amount n) (f e)) = Inl p"
    for a and f :: "'a \<Rightarrow> unit \<Rightarrow> panic + 'a"
    unfolding c by (cases "host_require_auth H e a") simp_all
  have "token_mint H e to n = Inl (Panic ''negative amount is not allowed'')"
    by (simp add: token_mint_def c)
  then show ?thesis
    unfolding token_approve_def token_transfer_def token_transfer_from_def token_burn_def
      token_burn_from_def by (intro conjI b)
qed

theorem example_negative_amount_witness:
  "\<exists>p. token_transfer ref_host (demo_env alice ''transfer'' []) alice bob (- 1) = Inl p"
  using example_negative_amount [of "- 1" ref_host "demo_env alice ''transfer'' []" bob alice]
  by simp

text \<open>
  C21: spending more than is there panics: a balance below the amount, and an allowance below it
  or expired (an expired allowance counts as zero).
\<close>

theorem example_insufficient:
  assumes "token_host_laws H good view auth" "good e" "token_ok admin (view e)"
  shows "(bals (token_view (view e)) a < sint n \<longrightarrow>
      spend_balance H e a n = Inl (Panic ''insufficient balance''))
    \<and> (allws (token_view (view e)) a s < sint n \<longrightarrow>
      spend_allowance H e a s n = Inl (Panic ''insufficient allowance''))
    \<and> (\<forall>al. hv_store (view e) (allowance_key a s) = Some (StoredAllowance al) \<and>
        av_expiration_ledger al < hv_seq (view e) \<and> 0 < sint n \<longrightarrow>
      spend_allowance H e a s n = Inl (Panic ''insufficient allowance''))"
proof -
  have bal: "spend_balance H e a n = Inl (Panic ''insufficient balance'')"
    if "bals (token_view (view e)) a < sint n"
    by (rule token_host_laws.read_balance_step [OF assms, of a])
      (use that in \<open>simp add: spend_balance_def del: token_view_simps\<close>)
  have al: "spend_allowance H e a s n = Inl (Panic ''insufficient allowance'')"
    if "allws (token_view (view e)) a s < sint n"
    by (rule token_host_laws.read_allowance_ok [OF assms, of a s])
      (use that in \<open>simp add: spend_allowance_def del: token_view_simps\<close>)
  show ?thesis using bal al by (auto simp: stored_allowance_def)
qed

theorem example_insufficient_witness:
  "spend_balance ref_host (demo_env alice ''burn'' []) alice 101 = Inl (Panic ''insufficient balance'')"
  using example_insufficient [OF ref_token.token_host_laws_axioms demo_good demo_ok,
      of alice "''burn''" "[]" alice 101]
  by (simp del: token_view_simps)

text \<open>
  C24: spending a live allowance that covers the amount never runs into the expiry check or the
  ledger subtraction of \<open>write_allowance\<close>: if it stops, the host failed to write the entry of that
  allowance or to extend its life.
\<close>

theorem example_spend_allowance:
  assumes "token_host_laws H good view auth" "good e" "token_ok admin (view e)" "0 \<le> sint n"
    and "sint n \<le> allws (token_view (view e)) f s" "spend_allowance H e f s n = Inl p"
  shows "\<exists>v. host_set H Temporary e (snd (allowance_key f s)) (StoredAllowance v) = Inl p \<or>
    (\<exists>e1 l. host_set H Temporary e (snd (allowance_key f s)) (StoredAllowance v) = Inr e1 \<and>
      host_extend_ttl H Temporary e1 (snd (allowance_key f s)) l l = Inl p)"
  by (rule token_host_laws.spend_allowance_reaches_host [OF assms])

text \<open>The reference host with a broken write: the only way to fail.\<close>

definition failing_host :: "(renv, raddr) token_host" where
  "failing_host = ref_host\<lparr>host_set := (\<lambda>d e k v. Inl (HostError auth_error))\<rparr>"

lemma failing_host_simps:
  "host_sequence failing_host = host_sequence ref_host"
  "host_has failing_host = host_has ref_host" "host_get failing_host = host_get ref_host"
  "host_set failing_host d e k v = Inl (HostError auth_error)"
  "host_extend_ttl failing_host = host_extend_ttl ref_host"
  "host_extend_instance_ttl failing_host = host_extend_instance_ttl ref_host"
  "host_require_auth failing_host = host_require_auth ref_host"
  "host_get_metadata failing_host = host_get_metadata ref_host"
  "host_set_metadata failing_host = host_set_metadata ref_host"
  "host_publish failing_host = host_publish ref_host"
  by (simp_all add: failing_host_def)

lemma failing_host_laws: "token_host_laws failing_host ref_good ref_view (ref_auth token_sc)"
proof (unfold_locales, unfold failing_host_simps, goal_cases)
  case 1 then show ?case by (rule ref_token.seq_law)
next
  case 2 then show ?case by (rule ref_token.has_law)
next
  case 3 then show ?case by (rule ref_token.get_law)
next
  case 4 then show ?case by simp
next
  case 5 then show ?case by (rule ref_token.extend_law)
next
  case 6 then show ?case by (rule ref_token.extend_total)
next
  case 7 then show ?case by (rule ref_token.extend_instance_law)
next
  case 8 then show ?case by (rule ref_token.auth_law)
next
  case 9 then show ?case by (rule ref_token.get_metadata_law)
next
  case 10 then show ?case by (rule ref_token.set_metadata_law)
next
  case 11 then show ?case by (rule ref_token.publish_law)
qed

theorem example_spend_allowance_witness:
  "spend_allowance failing_host (demo_env bob ''burn_from'' []) alice bob 50 = Inl (HostError auth_error) \<and>
   (\<exists>v. host_set failing_host Temporary (demo_env bob ''burn_from'' [])
     (AllowanceKey \<lparr>key_from = alice, key_spender = bob\<rparr>) (StoredAllowance v) = Inl (HostError auth_error))"
proof -
  have stop: "spend_allowance failing_host (demo_env bob ''burn_from'' []) alice bob 50 =
      Inl (HostError auth_error)"
    by (simp add: failing_host_def ref_eval)
  with example_spend_allowance [OF failing_host_laws demo_good demo_ok _ _ stop] show ?thesis
    by (simp add: failing_host_simps del: token_view_simps)
qed

end
