(* ===== verification/Machine.thy ===== *)
theory Machine
  imports Token_Spec
begin

text \<open>
  The token as a state machine. A \<open>token_op\<close> is a call that succeeded, or the lapse of allowances
  as time passes; \<open>token_move\<close> is the step relation with its guards, over the accounts \<open>A\<close>, and
  \<open>token_trace\<close> its paths. Rule induction gives what holds along every path: balances and
  allowances stay non-negative \<open>i128\<close> values, the supply is what was minted less what was burned, a
  spender spends at most what was approved, and an account that signs nothing and has approved
  nothing loses nothing. The locale \<open>refines_machine\<close> is the contract between the machine and what
  implements it: the fuzzer's book and the example token.
\<close>

datatype 'addr token_op =
    MintOp 'addr int
  | ApproveOp 'addr 'addr int
  | TransferOp 'addr 'addr int
  | TransferFromOp 'addr 'addr 'addr int
  | BurnOp 'addr int
  | BurnFromOp 'addr 'addr int
  | LapseOp "('addr \<times> 'addr) set"

definition spec_lapse :: "('addr \<times> 'addr) set \<Rightarrow> 'addr token_state \<Rightarrow> 'addr token_state" where
  "spec_lapse P t = t\<lparr>allws := (\<lambda>f s. if (f, s) \<in> P then 0 else allws t f s)\<rparr>"

fun op_effect :: "'addr token_op \<Rightarrow> 'addr token_state \<Rightarrow> 'addr token_state" where
  "op_effect (MintOp to n) = spec_mint to n"
| "op_effect (ApproveOp f s n) = spec_approve f s n"
| "op_effect (TransferOp f to n) = spec_transfer f to n"
| "op_effect (TransferFromOp s f to n) = spec_transfer_from s f to n"
| "op_effect (BurnOp f n) = spec_burn f n"
| "op_effect (BurnFromOp s f n) = spec_burn_from s f n"
| "op_effect (LapseOp P) = spec_lapse P"

inductive token_move :: "'addr set \<Rightarrow> 'addr token_state \<Rightarrow> 'addr token_op \<Rightarrow> 'addr token_state \<Rightarrow> bool"
  for A where
  mint: "to \<in> A \<Longrightarrow> 0 \<le> n \<Longrightarrow> bals t to + n < 2 ^ 127 \<Longrightarrow>
    token_move A t (MintOp to n) (spec_mint to n t)"
| approve: "f \<in> A \<Longrightarrow> s \<in> A \<Longrightarrow> 0 \<le> n \<Longrightarrow> n < 2 ^ 127 \<Longrightarrow>
    token_move A t (ApproveOp f s n) (spec_approve f s n t)"
| transfer: "f \<in> A \<Longrightarrow> to \<in> A \<Longrightarrow> 0 \<le> n \<Longrightarrow> n \<le> bals t f \<Longrightarrow>
    bals (spec_transfer f to n t) to < 2 ^ 127 \<Longrightarrow>
    token_move A t (TransferOp f to n) (spec_transfer f to n t)"
| transfer_from: "s \<in> A \<Longrightarrow> f \<in> A \<Longrightarrow> to \<in> A \<Longrightarrow> 0 \<le> n \<Longrightarrow> n \<le> bals t f \<Longrightarrow> n \<le> allws t f s \<Longrightarrow>
    bals (spec_transfer f to n t) to < 2 ^ 127 \<Longrightarrow>
    token_move A t (TransferFromOp s f to n) (spec_transfer_from s f to n t)"
| burn: "f \<in> A \<Longrightarrow> 0 \<le> n \<Longrightarrow> n \<le> bals t f \<Longrightarrow> token_move A t (BurnOp f n) (spec_burn f n t)"
| burn_from: "s \<in> A \<Longrightarrow> f \<in> A \<Longrightarrow> 0 \<le> n \<Longrightarrow> n \<le> bals t f \<Longrightarrow> n \<le> allws t f s \<Longrightarrow>
    token_move A t (BurnFromOp s f n) (spec_burn_from s f n t)"
| lapse: "token_move A t (LapseOp P) (spec_lapse P t)"

inductive_simps token_move_simps [simp]:
  "token_move A t (MintOp to n) u"
  "token_move A t (ApproveOp f s n) u"
  "token_move A t (TransferOp f to n) u"
  "token_move A t (TransferFromOp s f to n) u"
  "token_move A t (BurnOp f n) u"
  "token_move A t (BurnFromOp s f n) u"
  "token_move A t (LapseOp P) u"

inductive token_trace ::
  "'addr set \<Rightarrow> 'addr token_state \<Rightarrow> 'addr token_op list \<Rightarrow> 'addr token_state \<Rightarrow> bool" for A where
  start: "token_trace A t [] t"
| step: "token_trace A t ops u \<Longrightarrow> token_move A u x v \<Longrightarrow> token_trace A t (ops @ [x]) v"

lemma token_move_deterministic: "token_move A t x u \<Longrightarrow> u = op_effect x t"
  by (cases x) simp_all

lemma token_trace_single: "token_move A t x u \<Longrightarrow> token_trace A t [x] u"
  using token_trace.step [OF token_trace.start] by fastforce

lemma token_trace_append:
  assumes "token_trace A u ops' v" "token_trace A t ops u"
  shows "token_trace A t (ops @ ops') v"
  using assms
proof (induction rule: token_trace.induct)
  case (start u)
  then show ?case by simp
next
  case (step u ops' v x w)
  then have "token_trace A t ((ops @ ops') @ [x]) w" by (intro token_trace.step) simp_all
  then show ?case by simp
qed

section \<open>Along a trace\<close>

text \<open>Everything representable and not negative.\<close>

definition in_range :: "'addr set \<Rightarrow> 'addr token_state \<Rightarrow> bool" where
  "in_range A t \<longleftrightarrow>
     (\<forall>a\<in>A. 0 \<le> bals t a \<and> bals t a < 2 ^ 127) \<and>
     (\<forall>a\<in>A. \<forall>b\<in>A. 0 \<le> allws t a b \<and> allws t a b < 2 ^ 127)"

lemma token_move_in_range: "token_move A t x u \<Longrightarrow> in_range A t \<Longrightarrow> in_range A u"
  by (induction rule: token_move.induct)
    (auto simp: in_range_def spec_defs spec_lapse_def le_less_trans [OF diff_left_mono [of 0]])

fun op_minted :: "'addr token_op \<Rightarrow> int" where
  "op_minted (MintOp to n) = n"
| "op_minted _ = 0"

fun op_burned :: "'addr token_op \<Rightarrow> int" where
  "op_burned (BurnOp f n) = n"
| "op_burned (BurnFromOp s f n) = n"
| "op_burned _ = 0"

definition minted :: "'addr token_op list \<Rightarrow> int" where
  "minted ops = (\<Sum>x\<leftarrow>ops. op_minted x)"

definition burned :: "'addr token_op list \<Rightarrow> int" where
  "burned ops = (\<Sum>x\<leftarrow>ops. op_burned x)"

lemma minted_burned_simps [simp]:
  "minted [] = 0" "minted (x # ops) = op_minted x + minted ops"
  "minted (ops @ ops') = minted ops + minted ops'"
  "burned [] = 0" "burned (x # ops) = op_burned x + burned ops"
  "burned (ops @ ops') = burned ops + burned ops'"
  by (simp_all add: minted_def burned_def)

lemma supply_lapse [simp]: "total_supply as (spec_lapse P t) = total_supply as t"
  by (simp add: total_supply_def spec_lapse_def)

lemma token_move_supply:
  assumes "token_move (set as) t x u" "distinct as"
  shows "total_supply as u = total_supply as t + op_minted x - op_burned x"
  using assms
  by (cases x) (auto simp: supply_spec supply_spec_transfer)

text \<open>The account whose signature an operation needs; minting is the administrator's.\<close>

fun op_signer :: "'addr token_op \<Rightarrow> 'addr option" where
  "op_signer (MintOp to n) = None"
| "op_signer (ApproveOp f s n) = Some f"
| "op_signer (TransferOp f to n) = Some f"
| "op_signer (TransferFromOp s f to n) = Some s"
| "op_signer (BurnOp f n) = Some f"
| "op_signer (BurnFromOp s f n) = Some s"
| "op_signer (LapseOp P) = None"

lemma token_move_safe:
  assumes "token_move A t x u" "op_signer x \<noteq> Some a" "\<forall>s. allws t a s = 0"
  shows "bals t a \<le> bals u a \<and> (\<forall>s. allws u a s = 0)"
  using assms by (induction rule: token_move.induct) (auto simp: spec_defs spec_lapse_def)

text \<open>What a spender was approved and has spent of a holder's tokens.\<close>

fun op_approved :: "'addr \<Rightarrow> 'addr \<Rightarrow> 'addr token_op \<Rightarrow> int" where
  "op_approved f s (ApproveOp f' s' n) = (if f' = f \<and> s' = s then n else 0)"
| "op_approved f s _ = 0"

fun op_spent :: "'addr \<Rightarrow> 'addr \<Rightarrow> 'addr token_op \<Rightarrow> int" where
  "op_spent f s (TransferFromOp s' f' to n) = (if f' = f \<and> s' = s then n else 0)"
| "op_spent f s (BurnFromOp s' f' n) = (if f' = f \<and> s' = s then n else 0)"
| "op_spent f s _ = 0"

lemma token_move_spent:
  assumes "token_move A t x u" "0 \<le> allws t f s"
  shows "0 \<le> allws u f s \<and> allws u f s + op_spent f s x \<le> allws t f s + op_approved f s x"
  using assms by (induction rule: token_move.induct) (auto simp: spec_defs spec_lapse_def)

lemma trace_in_range: "token_trace A t ops u \<Longrightarrow> in_range A t \<Longrightarrow> in_range A u"
  by (induction rule: token_trace.induct) (blast intro: token_move_in_range)+

lemma trace_supply:
  assumes "token_trace (set as) t ops u" "distinct as"
  shows "total_supply as u = total_supply as t + minted ops - burned ops"
  using assms(1)
proof (induction rule: token_trace.induct)
  case (step t ops u x v)
  with token_move_supply [OF step.hyps(2) assms(2)] show ?case by simp
qed simp

lemma trace_safe:
  assumes "token_trace A t ops u" "\<forall>x\<in>set ops. op_signer x \<noteq> Some a" "\<forall>s. allws t a s = 0"
  shows "bals t a \<le> bals u a \<and> (\<forall>s. allws u a s = 0)"
  using assms
proof (induction rule: token_trace.induct)
  case (step t ops u x v)
  then have "bals t a \<le> bals u a \<and> (\<forall>s. allws u a s = 0)" by simp
  with token_move_safe [OF step.hyps(2), of a] step.prems(1) show ?case by auto
qed simp

lemma trace_spent:
  assumes "token_trace A t ops u" "0 \<le> allws t f s"
  shows "0 \<le> allws u f s \<and>
    allws u f s + (\<Sum>x\<leftarrow>ops. op_spent f s x) \<le> allws t f s + (\<Sum>x\<leftarrow>ops. op_approved f s x)"
  using assms
proof (induction rule: token_trace.induct)
  case (step t ops u x v)
  with token_move_spent [OF step.hyps(2), of f s] show ?case by auto
qed simp

lemma op_effect_meta [simp]: "meta (op_effect x t) = meta t"
  by (cases x) (simp_all add: spec_defs spec_lapse_def)

lemma trace_meta: "token_trace A t ops u \<Longrightarrow> meta u = meta t"
  by (induction rule: token_trace.induct) (auto dest: token_move_deterministic)

text \<open>The accounts an operation is between; a trace needs no others.\<close>

fun op_parties :: "'addr token_op \<Rightarrow> 'addr set" where
  "op_parties (MintOp to n) = {to}"
| "op_parties (ApproveOp f s n) = {f, s}"
| "op_parties (TransferOp f to n) = {f, to}"
| "op_parties (TransferFromOp s f to n) = {s, f, to}"
| "op_parties (BurnOp f n) = {f}"
| "op_parties (BurnFromOp s f n) = {s, f}"
| "op_parties (LapseOp P) = {}"

lemma token_move_restrict: "token_move A t x u \<Longrightarrow> op_parties x \<subseteq> B \<Longrightarrow> token_move B t x u"
  by (cases x) simp_all

lemma trace_restrict:
  assumes "token_trace A t ops u" "\<forall>x\<in>set ops. op_parties x \<subseteq> B"
  shows "token_trace B t ops u"
  using assms
  by (induction rule: token_trace.induct) (auto intro: token_trace.intros token_move_restrict)

section \<open>Events\<close>

text \<open>
  What the implementations do, with the machine integers of the interface: a call of the token
  interface (or of \<open>mint\<close>), or time in which the allowances of some pairs lapse.
\<close>

datatype 'addr token_call =
    CallMint 'addr i128
  | CallApprove 'addr 'addr i128 u32
  | CallTransfer 'addr 'addr i128
  | CallTransferFrom 'addr 'addr 'addr i128
  | CallBurn 'addr i128
  | CallBurnFrom 'addr 'addr i128

datatype 'addr token_action = Called "'addr token_call" | Lapsed "('addr \<times> 'addr) set"

fun call_op :: "'addr token_call \<Rightarrow> 'addr token_op" where
  "call_op (CallMint to n) = MintOp to (sint n)"
| "call_op (CallApprove f s n x) = ApproveOp f s (sint n)"
| "call_op (CallTransfer f to n) = TransferOp f to (sint n)"
| "call_op (CallTransferFrom s f to n) = TransferFromOp s f to (sint n)"
| "call_op (CallBurn f n) = BurnOp f (sint n)"
| "call_op (CallBurnFrom s f n) = BurnFromOp s f (sint n)"

fun event_op :: "'addr token_action \<Rightarrow> 'addr token_op" where
  "event_op (Called c) = call_op c"
| "event_op (Lapsed P) = LapseOp P"

fun call_amount :: "'addr token_call \<Rightarrow> i128" where
  "call_amount (CallMint to n) = n"
| "call_amount (CallApprove f s n x) = n"
| "call_amount (CallTransfer f to n) = n"
| "call_amount (CallTransferFrom s f to n) = n"
| "call_amount (CallBurn f n) = n"
| "call_amount (CallBurnFrom s f n) = n"

fun call_parties :: "'addr token_call \<Rightarrow> 'addr set" where
  "call_parties (CallMint to n) = {to}"
| "call_parties (CallApprove f s n x) = {f, s}"
| "call_parties (CallTransfer f to n) = {f, to}"
| "call_parties (CallTransferFrom s f to n) = {s, f, to}"
| "call_parties (CallBurn f n) = {f}"
| "call_parties (CallBurnFrom s f n) = {s, f}"

section \<open>Implementations\<close>

text \<open>The paths of a system whose steps are labelled with lists.\<close>

inductive steps :: "('s \<Rightarrow> 'l list \<Rightarrow> 's \<Rightarrow> bool) \<Rightarrow> 's \<Rightarrow> 'l list \<Rightarrow> 's \<Rightarrow> bool" for R where
  idle: "steps R s [] s"
| more: "steps R s ls t \<Longrightarrow> R t ls' u \<Longrightarrow> steps R s (ls @ ls') u"

lemma steps_append:
  assumes "steps R t ls' u" "steps R s ls t"
  shows "steps R s (ls @ ls') u"
  using assms
proof (induction rule: steps.induct)
  case (idle s)
  then show ?case by simp
next
  case (more s' ls1 t ls2 u)
  have "steps R s (ls @ ls1) t" by (rule more.IH [OF more.prems])
  from steps.more [OF this more.hyps(2)] show ?case by simp
qed

lemma steps_one: "R s ls t \<Longrightarrow> steps R s ls t"
  using steps.more [OF steps.idle] by fastforce

text \<open>
  An implementation: a system with an invariant \<open>ok\<close>, an abstraction \<open>abs\<close> to the machine's state and,
  for each of its labels, the moves of the machine it stands for (none, for a step that leaves the
  tokens alone).
\<close>

locale refines_machine =
  fixes A :: "'addr set" and R :: "'s \<Rightarrow> 'l list \<Rightarrow> 's \<Rightarrow> bool" and ok :: "'s \<Rightarrow> bool"
    and abs :: "'s \<Rightarrow> 'addr token_state" and ops_of :: "'l \<Rightarrow> 'addr token_op list"
  assumes simulation:
    "ok s \<Longrightarrow> R s ls t \<Longrightarrow> ok t \<and> token_trace A (abs s) (concat (map ops_of ls)) (abs t)"
begin

lemma steps_trace:
  assumes "steps R s ls t" "ok s"
  shows "ok t \<and> token_trace A (abs s) (concat (map ops_of ls)) (abs t)"
  using assms
proof (induction rule: steps.induct)
  case (idle s)
  then show ?case by (simp add: token_trace.start)
next
  case (more s ls t ls' u)
  then show ?case using simulation [of t ls' u] by (auto intro: token_trace_append)
qed

lemma steps_supply:
  assumes "steps R s ls t" "ok s" "distinct as"
    and "\<forall>x\<in>set (concat (map ops_of ls)). op_parties x \<subseteq> set as"
  shows "total_supply as (abs t) = total_supply as (abs s) +
    minted (concat (map ops_of ls)) - burned (concat (map ops_of ls))"
proof (rule trace_supply [OF _ assms(3)])
  show "token_trace (set as) (abs s) (concat (map ops_of ls)) (abs t)"
    by (rule trace_restrict [of A]) (use steps_trace [OF assms(1,2)] assms(4) in blast)+
qed

lemma steps_safe:
  assumes "steps R s ls t" "ok s" "\<forall>x\<in>set (concat (map ops_of ls)). op_signer x \<noteq> Some a"
    and "\<forall>x. allws (abs s) a x = 0"
  shows "bals (abs s) a \<le> bals (abs t) a"
  using trace_safe [OF _ assms(3,4)] steps_trace [OF assms(1,2)] by blast

lemma steps_spent:
  assumes "steps R s ls t" "ok s" "0 \<le> allws (abs s) f x"
  shows "(\<Sum>y\<leftarrow>concat (map ops_of ls). op_spent f x y) \<le>
    allws (abs s) f x + (\<Sum>y\<leftarrow>concat (map ops_of ls). op_approved f x y)"
proof -
  have "token_trace A (abs s) (concat (map ops_of ls)) (abs t)" using steps_trace [OF assms(1,2)] by simp
  from trace_spent [OF this assms(3)] show ?thesis by simp
qed

end

end
