(* ===== verification/Book_Trace.thy ===== *)
theory Book_Trace
  imports Machine Book Token_Contract
begin

text \<open>
  The fuzzer's book follows the token machine, whatever the token does: each mirror of a call that
  succeeded and each allowance the refresh forgets is a move of the machine, so a run that passes
  leaves behind a trace from the empty token to the final book, made of calls of its commands.
\<close>

fun mirror_call ::
  "('env, 'addr, 'key) sdk \<Rightarrow> 'addr token_call \<Rightarrow> contract_state \<Rightarrow> panic + contract_state" where
  "mirror_call S (CallMint to n) = mirror_mint S to n"
| "mirror_call S (CallApprove f s n x) = mirror_approve S f s n"
| "mirror_call S (CallTransfer f to n) = mirror_transfer S f to n"
| "mirror_call S (CallTransferFrom s f to n) = mirror_transfer_from S s f to n"
| "mirror_call S (CallBurn f n) = mirror_burn S f n"
| "mirror_call S (CallBurnFrom s f n) = mirror_burn_from S s f n"

text \<open>One change of the book: the mirror of a call between accounts of \<open>A\<close>, or a lapse.\<close>

definition book_move ::
  "('env, 'addr, 'key) sdk \<Rightarrow> 'addr set \<Rightarrow> contract_state \<Rightarrow> 'addr token_action list \<Rightarrow> contract_state
    \<Rightarrow> bool" where
  "book_move S A cs evs cs' \<longleftrightarrow>
     (\<exists>c. evs = [Called c] \<and> call_parties c \<subseteq> A \<and> 0 \<le> sint (call_amount c) \<and>
        mirror_call S c cs = Inr cs')
   \<or> (\<exists>f s. evs = [Lapsed {(f, s)}] \<and> set_allowance S cs f s 0 = Inr cs')"

text \<open>The calls of a command.\<close>

definition acc_at :: "('env, 'addr, 'key) current_state \<Rightarrow> nat \<Rightarrow> 'addr" where
  "acc_at cur i = ts_address (accounts cur ! i)"

definition approve_call :: "('env, 'addr, 'key) current_state \<Rightarrow> approve_input \<Rightarrow> 'addr token_call" where
  "approve_call cur i =
     CallApprove (acc_at cur (approve_from_account_index i))
       (acc_at cur (approve_spender_account_index i)) (approve_amount i) (approve_expiration_ledger i)"

definition transfer_from_call ::
  "('env, 'addr, 'key) current_state \<Rightarrow> transfer_from_input \<Rightarrow> 'addr token_call" where
  "transfer_from_call cur i =
     CallTransferFrom (acc_at cur (tf_spender_account_index i)) (acc_at cur (tf_from_account_index i))
       (acc_at cur (tf_to_account_index i)) (tf_amount i)"

definition burn_from_call ::
  "('env, 'addr, 'key) current_state \<Rightarrow> burn_from_input \<Rightarrow> 'addr token_call" where
  "burn_from_call cur i =
     CallBurnFrom (acc_at cur (bf_spender_account_index i)) (acc_at cur (bf_from_account_index i))
       (bf_amount i)"

fun command_calls :: "('env, 'addr, 'key) current_state \<Rightarrow> command \<Rightarrow> 'addr token_call list" where
  "command_calls cur (Mint i) = [CallMint (acc_at cur (mint_to_account_index i)) (mint_amount i)]"
| "command_calls cur (Approve i) = [approve_call cur i]"
| "command_calls cur (TransferFrom i) = [transfer_from_call cur i]"
| "command_calls cur (Transfer i) =
     [CallTransfer (acc_at cur (tr_from_account_index i)) (acc_at cur (tr_to_account_index i))
       (tr_amount i)]"
| "command_calls cur (BurnFrom i) = [burn_from_call cur i]"
| "command_calls cur (Burn i) = [CallBurn (acc_at cur (burn_from_account_index i)) (burn_amount i)]"
| "command_calls cur (ApproveAndTransferFrom i) =
     [approve_call cur (atf_to_approve_input i), transfer_from_call cur (to_transfer_from_input i)]"
| "command_calls cur (ApproveAndBurnFrom i) =
     [approve_call cur (abf_to_approve_input i), burn_from_call cur (to_burn_from_input i)]"

text \<open>A passing sequence of events whose calls are among \<open>cs\<close>.\<close>

definition event_calls :: "'addr token_action list \<Rightarrow> 'addr token_call set" where
  "event_calls evs = {c. Called c \<in> set evs}"

lemma event_calls_simps [simp]:
  "event_calls [] = {}" "event_calls (Called c # evs) = insert c (event_calls evs)"
  "event_calls (Lapsed P # evs) = event_calls evs"
  "event_calls (evs @ evs') = event_calls evs \<union> event_calls evs'"
  by (auto simp: event_calls_def)

definition accs :: "('env, 'addr, 'key) current_state \<Rightarrow> 'addr set" where
  "accs cur = ts_address ` set (accounts cur)"

lemma acc_at_in [simp]: "i < length (accounts cur) \<Longrightarrow> acc_at cur i \<in> accs cur"
  by (simp add: acc_at_def accs_def)

context sdk_strings
begin

lemma book_below: "bals (book_view S cs) a < 2 ^ 127"
  using tracked_balance_bounds by (simp add: book_view_def)

lemma mirror_call_move:
  assumes "mirror_call S c cs = Inr cs'" "0 \<le> sint (call_amount c)" "call_parties c \<subseteq> A"
  shows "token_move A (book_view S cs) (call_op c) (book_view S cs')"
proof -
  have r: "sint (n :: i128) < 2 ^ 127" for n using sint_bounds [of n] by simp
  show ?thesis
  proof (cases c)
    case (CallMint to n)
    with assms book_below [of cs' to] show ?thesis
      by (auto simp: spec_mint_def dest!: mirror_refines)
  next
    case (CallApprove f s n x)
    with assms r [of n] show ?thesis by (auto dest!: mirror_refines)
  next
    case (CallTransfer f to n)
    then have m: "mirror_transfer S f to n cs = Inr cs'" using assms(1) by simp
    then have "sint n \<le> bals (book_view S cs) f"
      by (auto simp: mirror_transfer_def bnd_Inr_iff dest!: sub_balance_refines(3))
    with CallTransfer assms(2,3) mirror_refines(3) [OF m] book_below [of cs' to] show ?thesis by auto
  next
    case (CallTransferFrom s f to n)
    then have m: "mirror_transfer_from S s f to n cs = Inr cs'" using assms(1) by simp
    then obtain cs1 cs2 where p: "sub_balance S cs f n = Inr cs1" "add_balance S cs1 to n = Inr cs2"
        "sub_allowance S cs2 f s n = Inr cs'"
      by (auto simp: mirror_transfer_from_def bnd_Inr_iff)
    have "allws (book_view S cs2) = allws (book_view S cs)"
      using add_balance_refines(1) [OF p(2)] sub_balance_refines(1) [OF p(1)]
      by (simp add: spec_mint_def spec_burn_def)
    then have "sint n \<le> bals (book_view S cs) f" "sint n \<le> allws (book_view S cs) f s"
      using sub_balance_refines(3) [OF p(1)] sub_allowance_refines(3) [OF p(3)] by simp_all
    moreover have "bals (spec_transfer f to (sint n) (book_view S cs)) to < 2 ^ 127"
      using mirror_refines(5) [OF m] book_below [of cs' to]
      by (simp add: spec_transfer_from_def spec_transfer_def spec_spend_def spec_approve_def
          spec_mint_def spec_burn_def)
    ultimately show ?thesis using CallTransferFrom assms(2,3) mirror_refines(5) [OF m] by auto
  next
    case (CallBurn f n)
    then have m: "mirror_burn S f n cs = Inr cs'" using assms(1) by simp
    then have "sint n \<le> bals (book_view S cs) f"
      by (auto simp: mirror_burn_def bnd_Inr_iff dest!: sub_balance_refines(3))
    with CallBurn assms(2,3) mirror_refines(4) [OF m] show ?thesis by auto
  next
    case (CallBurnFrom s f n)
    then have m: "mirror_burn_from S s f n cs = Inr cs'" using assms(1) by simp
    then obtain cs1 cs2 where p: "sub_balance S cs f n = Inr cs1" "sub_allowance S cs1 f s n = Inr cs2"
      by (auto simp: mirror_burn_from_def bnd_Inr_iff)
    have "allws (book_view S cs1) = allws (book_view S cs)"
      using sub_balance_refines(1) [OF p(1)] by (simp add: spec_burn_def)
    then have "sint n \<le> bals (book_view S cs) f" "sint n \<le> allws (book_view S cs) f s"
      using sub_balance_refines(3) [OF p(1)] sub_allowance_refines(3) [OF p(2)] by simp_all
    with CallBurnFrom assms(2,3) mirror_refines(6) [OF m] show ?thesis by auto
  qed
qed

lemma lapse_move:
  assumes "set_allowance S cs f s 0 = Inr cs'"
  shows "token_move A (book_view S cs) (LapseOp {(f, s)}) (book_view S cs')"
  using set_allowance_refines(1) [OF assms]
  by (auto simp: spec_approve_def spec_lapse_def fun_eq_iff intro!: token_state.equality)

lemma book_simulation:
  assumes "book_move S A cs evs cs'"
  shows "token_trace A (book_view S cs) (map event_op evs) (book_view S cs')"
  using assms mirror_call_move lapse_move
  by (auto simp: book_move_def intro!: token_trace_single simp del: token_move_simps)

end

sublocale sdk_strings \<subseteq> book: refines_machine A "book_move S A" "\<lambda>_. True" "book_view S"
  "\<lambda>ev. [event_op ev]"
  for A
  by unfold_locales (simp add: book_simulation)

text \<open>The sums of the book are the sums of its trace.\<close>

context sdk_strings
begin

lemma book_move_sums:
  assumes "book_move S A cs evs cs'"
  shows "minted_minus_burned cs' =
    minted_minus_burned cs + minted (map event_op evs) - burned (map event_op evs)"
proof -
  have "minted_minus_burned cs' = minted_minus_burned cs + op_minted (call_op c) - op_burned (call_op c)"
    if "mirror_call S c cs = Inr cs'" for c
    using that by (cases c) (auto dest!: mirror_refines)
  then show ?thesis using assms set_allowance_refines(2) by (auto simp: book_move_def)
qed

lemma book_steps_sums:
  assumes "steps (book_move S A) cs evs cs'"
  shows "minted_minus_burned cs' =
    minted_minus_burned cs + minted (map event_op evs) - burned (map event_op evs)"
  using assms by (induction rule: steps.induct) (auto dest: book_move_sums)

lemma book_steps_trace:
  assumes "steps (book_move S A) cs evs cs'"
  shows "token_trace A (book_view S cs) (map event_op evs) (book_view S cs')"
  using book.steps_trace [OF assms] by simp

section \<open>Commands\<close>

text \<open>From \<open>cs\<close> to \<open>cs'\<close> by moves of the book, in which only calls of \<open>C\<close> occur.\<close>

definition book_run :: "'addr set \<Rightarrow> 'addr token_call set \<Rightarrow> contract_state \<Rightarrow> contract_state \<Rightarrow> bool" where
  "book_run A C cs cs' \<longleftrightarrow> (\<exists>evs. steps (book_move S A) cs evs cs' \<and> event_calls evs \<subseteq> C)"

lemma book_run_refl [simp, intro]: "book_run A C cs cs"
  unfolding book_run_def by (intro exI [of _ "[]"]) (simp add: steps.idle)

lemma book_run_move:
  assumes "book_move S A cs evs cs'" "event_calls evs \<subseteq> C"
  shows "book_run A C cs cs'"
  unfolding book_run_def using steps_one [of "book_move S A", OF assms(1)] assms(2) by blast

lemma book_run_trans [trans]:
  assumes "book_run A C cs cs1" "book_run A D cs1 cs2"
  shows "book_run A (C \<union> D) cs cs2"
proof -
  obtain evs evs' where e: "steps (book_move S A) cs evs cs1" "event_calls evs \<subseteq> C"
      "steps (book_move S A) cs1 evs' cs2" "event_calls evs' \<subseteq> D"
    using assms unfolding book_run_def by blast
  show ?thesis
    unfolding book_run_def using steps_append [OF e(3,1)] e(2,4)
    by (intro exI [of _ "evs @ evs'"]) auto
qed

lemma book_run_mono: "book_run A C cs cs' \<Longrightarrow> C \<subseteq> D \<Longrightarrow> book_run A D cs cs'"
  unfolding book_run_def by blast

lemma run_call_book:
  assumes "run_call S tb cur fn auths vs call (call_amount c) i (mirror_call S c) (env, cs, nonce) =
      Inr (env', cs', nonce')"
    and "call_parties c \<subseteq> A"
  shows "book_run A {c} cs cs'"
proof -
  obtain env1 r where r: "check_call r (call_amount c) auths i = Inr ()" "on_ok r cs (mirror_call S c) = Inr cs'"
    by (rule run_call_Inr [OF assms(1)])
  show ?thesis
  proof (cases "is_err r")
    case True
    with r(2) have "cs' = cs" by (cases r) (simp_all add: on_ok_def)
    then show ?thesis by simp
  next
    case False
    with r have "0 \<le> sint (call_amount c)" "mirror_call S c cs = Inr cs'"
      by (cases r; auto simp: check_call_ok on_ok_Inr)+
    with assms(2) have "book_move S A cs [Called c] cs'" by (simp add: book_move_def)
    then show ?thesis by (rule book_run_move) simp
  qed
qed

lemma exec_approve_book:
  assumes "exec_approve S tb cur i (env, cs, nonce) = Inr (env', cs', nonce')"
  shows "book_run (accs cur) {approve_call cur i} cs cs'"
  using assms
  by (auto simp: exec_approve_def bnd_Inr_iff approve_call_def acc_at_def accs_def
      intro!: run_call_book [where c = "CallApprove f s n x" for f s n x, simplified])

lemma exec_transfer_from_book:
  assumes "exec_transfer_from S tb cur i (env, cs, nonce) = Inr (env', cs', nonce')"
  shows "book_run (accs cur) {transfer_from_call cur i} cs cs'"
  using assms
  by (auto simp: exec_transfer_from_def bnd_Inr_iff transfer_from_call_def acc_at_def accs_def
      intro!: run_call_book [where c = "CallTransferFrom s f to n" for s f to n, simplified])

lemma exec_burn_from_book:
  assumes "exec_burn_from S tb cur i (env, cs, nonce) = Inr (env', cs', nonce')"
  shows "book_run (accs cur) {burn_from_call cur i} cs cs'"
  using assms
  by (auto simp: exec_burn_from_def bnd_Inr_iff burn_from_call_def acc_at_def accs_def
      intro!: run_call_book [where c = "CallBurnFrom s f n" for s f n, simplified])

lemma exec_command_book:
  assumes "exec_command S tb cur c (env, cs, nonce) = Inr (env', cs', nonce')"
  shows "book_run (accs cur) (set (command_calls cur c)) cs cs'"
proof (cases c)
  case (Mint i)
  with assms show ?thesis
    by (auto simp: exec_mint_def bnd_Inr_iff acc_at_def accs_def
        intro!: run_call_book [where c = "CallMint to n" for to n, simplified])
next
  case (Transfer i)
  with assms show ?thesis
    by (auto simp: exec_transfer_def bnd_Inr_iff acc_at_def accs_def
        intro!: run_call_book [where c = "CallTransfer f to n" for f to n, simplified])
next
  case (Burn i)
  with assms show ?thesis
    by (auto simp: exec_burn_def bnd_Inr_iff acc_at_def accs_def
        intro!: run_call_book [where c = "CallBurn f n" for f n, simplified])
next
  case (ApproveAndTransferFrom i)
  with assms obtain env1 cs1 nonce1 where
    "exec_approve S tb cur (atf_to_approve_input i) (env, cs, nonce) = Inr (env1, cs1, nonce1)"
    "exec_transfer_from S tb cur (to_transfer_from_input i) (env1, cs1, nonce1) = Inr (env', cs', nonce')"
    by (auto simp: bnd_Inr_iff)
  from book_run_trans [OF exec_approve_book [OF this(1)] exec_transfer_from_book [OF this(2)]]
  show ?thesis using ApproveAndTransferFrom by (simp add: insert_commute)
next
  case (ApproveAndBurnFrom i)
  with assms obtain env1 cs1 nonce1 where
    "exec_approve S tb cur (abf_to_approve_input i) (env, cs, nonce) = Inr (env1, cs1, nonce1)"
    "exec_burn_from S tb cur (to_burn_from_input i) (env1, cs1, nonce1) = Inr (env', cs', nonce')"
    by (auto simp: bnd_Inr_iff)
  from book_run_trans [OF exec_approve_book [OF this(1)] exec_burn_from_book [OF this(2)]]
  show ?thesis using ApproveAndBurnFrom by (simp add: insert_commute)
qed (use assms in \<open>auto simp: exec_approve_book exec_transfer_from_book exec_burn_from_book\<close>)

lemma commands_book:
  assumes "fold_may (exec_command S tb cur) cmds (env, cs, nonce) = Inr (env', cs', nonce')"
  shows "book_run (accs cur) (\<Union>c\<in>set cmds. set (command_calls cur c)) cs cs'"
  using assms
proof (induction cmds arbitrary: env cs nonce)
  case Nil
  then show ?case by simp
next
  case (Cons c cmds)
  then obtain env1 cs1 nonce1 where c: "exec_command S tb cur c (env, cs, nonce) = Inr (env1, cs1, nonce1)"
      "fold_may (exec_command S tb cur) cmds (env1, cs1, nonce1) = Inr (env', cs', nonce')"
    by (auto simp: bnd_Inr_iff)
  from book_run_trans [OF exec_command_book [OF c(1)] Cons.IH [OF c(2)]] show ?case by simp
qed

lemma refresh_book:
  assumes "fold_may (refresh_allowance S cur) ps (cs, env) = Inr (cs', env')"
  shows "book_run A {} cs cs'"
  using assms
proof (induction ps arbitrary: cs env)
  case Nil
  then show ?case by simp
next
  case (Cons p ps)
  obtain x y where p: "p = (x, y)" by (cases p)
  with Cons.prems obtain cs1 env1 where c: "refresh_allowance S cur (x, y) (cs, env) = Inr (cs1, env1)"
      "fold_may (refresh_allowance S cur) ps (cs1, env1) = Inr (cs', env')"
    by (auto simp: bnd_Inr_iff)
  have "cs1 = cs \<or> set_allowance S cs (ts_address x) (ts_address y) 0 = Inr cs1"
    using c(1) by (auto simp: refresh_allowance_def bnd_Inr_iff split: if_splits)
  then have "book_run A {} cs cs1"
  proof
    assume "set_allowance S cs (ts_address x) (ts_address y) 0 = Inr cs1"
    then have "book_move S A cs [Lapsed {(ts_address x, ts_address y)}] cs1"
      by (auto simp: book_move_def)
    then show ?thesis by (rule book_run_move) simp
  qed simp
  from book_run_trans [OF this Cons.IH [OF c(2)]] show ?case by simp
qed

lemma run_transaction_book:
  assumes "run_transaction S N config gen tb tx (env, cs, nonce, cur) = Inr (env', cs', nonce', cur')"
  shows "book_run (accs cur) (\<Union>c\<in>set (commands tx). set (command_calls cur c)) cs cs'"
    and "\<exists>env. generate_signers S gen env = Inr (accounts cur')"
proof -
  obtain env1 cs1 env2 env3 where st:
    "fold_may (exec_command S tb cur) (commands tx) (budget_reset_unlimited S env, cs, nonce) =
       Inr (env1, cs1, nonce')"
    "current_state_new S config env2 tb gen = Inr cur'"
    "fold_may (refresh_allowance S cur') (account_pairs cur') (cs1, env2) = Inr (cs', env3)"
    using assms by (auto simp: run_transaction_def bnd_Inr_iff Let_def)
  from book_run_trans [OF commands_book [OF st(1)] refresh_book [OF st(3)]]
  show "book_run (accs cur) (\<Union>c\<in>set (commands tx). set (command_calls cur c)) cs cs'" by simp
  show "\<exists>env. generate_signers S gen env = Inr (accounts cur')"
    using st(2) by (auto simp: current_state_new_def bnd_Inr_iff)
qed

end

section \<open>Runs\<close>

lemma command_calls_cong:
  assumes "accounts cur = accounts cur'"
  shows "command_calls cur c = command_calls cur' c"
  using assms
  by (cases c) (simp_all add: acc_at_def approve_call_def transfer_from_call_def burn_from_call_def)

text \<open>The accounts of a generator, and all calls an input can make between them.\<close>

definition account_list ::
  "('env, 'addr, 'key) sdk \<Rightarrow> (sc_address \<Rightarrow> 'addr) \<Rightarrow> address_generator \<Rightarrow> 'addr list" where
  "account_list S addr_of gen = map (account_addr S addr_of gen) [0..<NUMBER_OF_ADDRESSES]"

definition transaction_calls ::
  "('env, 'addr, 'key) current_state \<Rightarrow> transaction list \<Rightarrow> 'addr token_call set" where
  "transaction_calls cur txs = (\<Union>tx\<in>set txs. \<Union>c\<in>set (commands tx). set (command_calls cur c))"

lemma transaction_calls_simps [simp]:
  "transaction_calls cur [] = {}"
  "transaction_calls cur (tx # txs) =
     (\<Union>c\<in>set (commands tx). set (command_calls cur c)) \<union> transaction_calls cur txs"
  by (simp_all add: transaction_calls_def)

lemma transaction_calls_cong:
  "accounts cur = accounts cur' \<Longrightarrow> transaction_calls cur txs = transaction_calls cur' txs"
  using command_calls_cong [of cur cur'] by (simp add: transaction_calls_def)

context sdk_addresses
begin

lemma signers_account_list:
  assumes "generator_ok gen" "generate_signers S gen env = Inr (accounts cur)"
  shows "accounts cur = map (account_signer S addr_of gen) [0..<NUMBER_OF_ADDRESSES]"
    "accs cur = set (account_list S addr_of gen)"
proof -
  show a: "accounts cur = map (account_signer S addr_of gen) [0..<NUMBER_OF_ADDRESSES]"
    using assms(2) unfolding generate_signers_ok [OF assms(1)] by simp
  have "map ts_address (accounts cur) = account_list S addr_of gen"
    unfolding a by (simp add: account_list_def account_signer_def account_addr_def)
  then show "accs cur = set (account_list S addr_of gen)"
    unfolding accs_def by (metis set_map)
qed

lemma account_list_distinct: "generator_ok gen \<Longrightarrow> distinct (account_list S addr_of gen)"
  using account_addresses_distinct by (simp add: account_list_def account_addr_def [abs_def])

lemma transactions_book:
  assumes "generator_ok gen" "generate_signers S gen env0 = Inr (accounts cur)"
    and "fold_may (run_transaction S N config gen tb) txs (env, cs, nonce, cur) =
      Inr (env', cs', nonce', cur')"
  shows "book_run (set (account_list S addr_of gen)) (transaction_calls cur txs) cs cs'"
  using assms(2,3)
proof (induction txs arbitrary: env0 env cs nonce cur)
  case Nil
  then show ?case by simp
next
  case (Cons tx txs)
  then obtain env1 cs1 nonce1 cur1 where tx:
    "run_transaction S N config gen tb tx (env, cs, nonce, cur) = Inr (env1, cs1, nonce1, cur1)"
    "fold_may (run_transaction S N config gen tb) txs (env1, cs1, nonce1, cur1) =
      Inr (env', cs', nonce', cur')"
    by (auto simp: bnd_Inr_iff)
  obtain env2 where g: "generate_signers S gen env2 = Inr (accounts cur1)"
    using run_transaction_book(2) [OF tx(1)] by blast
  have "accounts cur1 = accounts cur"
    using signers_account_list(1) [OF assms(1)] g Cons.prems(1) by metis
  then have "book_run (set (account_list S addr_of gen)) (transaction_calls cur txs) cs1 cs'"
    using Cons.IH [OF g tx(2)] transaction_calls_cong [of cur1 cur txs] by simp
  from book_run_trans [OF run_transaction_book(1) [OF tx(1),
        unfolded signers_account_list(2) [OF assms(1) Cons.prems(1)]] this]
  show ?case by simp
qed

lemma setup_run_book:
  assumes "setup_run S config gen = Inr (tb, env, cs, nonce, cur)"
  shows "\<exists>env. generate_signers S gen env = Inr (accounts cur)"
    and "book_view S cs = \<lparr>bals = (\<lambda>_. 0), allws = (\<lambda>_ _. 0), meta = book_meta cs\<rparr>"
    and "minted_minus_burned cs = 0"
  using assms
  by (auto simp: setup_run_def current_state_new_def bnd_Inr_iff Let_def book_view_def init_def
      tracked_balance_def tracked_allowance_def minted_minus_burned_def fun_eq_iff)

end

end
