(* ===== verification/Fuzz_Props.thy ===== *)
theory Fuzz_Props
  imports Book_Trace Demo
begin

text \<open>
  Properties of the fuzzer: of single commands and their mirrors, of the checks after a
  transaction, and of the book. Each is followed by its application to the reference model.
\<close>

section \<open>Commands\<close>

text \<open>The call of a command that makes one, its amount and the account that has to authorize it.\<close>

fun simple_command :: "command \<Rightarrow> bool" where
  "simple_command (ApproveAndTransferFrom i) = False"
| "simple_command (ApproveAndBurnFrom i) = False"
| "simple_command _ = True"

fun command_amount :: "command \<Rightarrow> i128" where
  "command_amount (Mint i) = mint_amount i"
| "command_amount (Approve i) = approve_amount i"
| "command_amount (TransferFrom i) = tf_amount i"
| "command_amount (Transfer i) = tr_amount i"
| "command_amount (BurnFrom i) = bf_amount i"
| "command_amount (Burn i) = burn_amount i"
| "command_amount (ApproveAndTransferFrom i) = atf_amount i"
| "command_amount (ApproveAndBurnFrom i) = abf_amount i"

text \<open>The flags of a command, and the account whose authorization the call needs.\<close>

fun command_auths :: "command \<Rightarrow> bool list" where
  "command_auths (Mint i) = mint_auths i"
| "command_auths (Approve i) = approve_auths i"
| "command_auths (TransferFrom i) = tf_auths i"
| "command_auths (Transfer i) = tr_auths i"
| "command_auths (BurnFrom i) = bf_auths i"
| "command_auths (Burn i) = burn_auths i"
| "command_auths (ApproveAndTransferFrom i) = atf_auths i"
| "command_auths (ApproveAndBurnFrom i) = abf_auths i"

fun command_signer :: "command \<Rightarrow> nat" where
  "command_signer (Mint i) = 0"
| "command_signer (Approve i) = approve_from_account_index i"
| "command_signer (TransferFrom i) = tf_spender_account_index i"
| "command_signer (Transfer i) = tr_from_account_index i"
| "command_signer (BurnFrom i) = bf_spender_account_index i"
| "command_signer (Burn i) = burn_from_account_index i"
| "command_signer (ApproveAndTransferFrom i) = atf_from_account_index i"
| "command_signer (ApproveAndBurnFrom i) = abf_from_account_index i"

definition command_authorized :: "command \<Rightarrow> bool" where
  "command_authorized c \<longleftrightarrow>
     command_signer c < length (command_auths c) \<and> command_auths c ! command_signer c"

fun command_function :: "command \<Rightarrow> string" where
  "command_function (Mint i) = ''mint''"
| "command_function (Approve i) = ''approve''"
| "command_function (TransferFrom i) = ''transfer_from''"
| "command_function (Transfer i) = ''transfer''"
| "command_function (BurnFrom i) = ''burn_from''"
| "command_function (Burn i) = ''burn''"
| "command_function (ApproveAndTransferFrom i) = ''approve''"
| "command_function (ApproveAndBurnFrom i) = ''approve''"

fun command_call ::
  "('env, 'addr, 'key) current_state \<Rightarrow> command \<Rightarrow> 'env \<Rightarrow> token_contract_result \<times> 'env" where
  "command_call cur (Mint i) =
     (\<lambda>e. try_mint (admin_client cur) e (acc_at cur (mint_to_account_index i)) (mint_amount i))"
| "command_call cur (Approve i) =
     (\<lambda>e. try_approve (token_client cur) e (acc_at cur (approve_from_account_index i))
       (acc_at cur (approve_spender_account_index i)) (approve_amount i) (approve_expiration_ledger i))"
| "command_call cur (TransferFrom i) =
     (\<lambda>e. try_transfer_from (token_client cur) e (acc_at cur (tf_spender_account_index i))
       (acc_at cur (tf_from_account_index i)) (acc_at cur (tf_to_account_index i)) (tf_amount i))"
| "command_call cur (Transfer i) =
     (\<lambda>e. try_transfer (token_client cur) e (acc_at cur (tr_from_account_index i))
       (acc_at cur (tr_to_account_index i)) (tr_amount i))"
| "command_call cur (BurnFrom i) =
     (\<lambda>e. try_burn_from (token_client cur) e (acc_at cur (bf_spender_account_index i))
       (acc_at cur (bf_from_account_index i)) (bf_amount i))"
| "command_call cur (Burn i) =
     (\<lambda>e. try_burn (token_client cur) e (acc_at cur (burn_from_account_index i)) (burn_amount i))"
| "command_call cur (ApproveAndTransferFrom i) =
     (\<lambda>e. try_approve (token_client cur) e (acc_at cur (atf_from_account_index i))
       (acc_at cur (atf_spender_account_index i)) (atf_amount i) (atf_expiration_ledger i))"
| "command_call cur (ApproveAndBurnFrom i) =
     (\<lambda>e. try_approve (token_client cur) e (acc_at cur (abf_from_account_index i))
       (acc_at cur (abf_spender_account_index i)) (abf_amount i) (abf_expiration_ledger i))"

fun command_args :: "('env, 'addr, 'key) current_state \<Rightarrow> command \<Rightarrow> 'addr val list" where
  "command_args cur (Mint i) =
     [AddressVal (acc_at cur (mint_to_account_index i)), I128Val (mint_amount i)]"
| "command_args cur (Approve i) =
     [AddressVal (acc_at cur (approve_from_account_index i)),
      AddressVal (acc_at cur (approve_spender_account_index i)), I128Val (approve_amount i),
      U32Val (approve_expiration_ledger i)]"
| "command_args cur (TransferFrom i) =
     [AddressVal (acc_at cur (tf_spender_account_index i)),
      AddressVal (acc_at cur (tf_from_account_index i)),
      AddressVal (acc_at cur (tf_to_account_index i)), I128Val (tf_amount i)]"
| "command_args cur (Transfer i) =
     [AddressVal (acc_at cur (tr_from_account_index i)),
      AddressVal (acc_at cur (tr_to_account_index i)), I128Val (tr_amount i)]"
| "command_args cur (BurnFrom i) =
     [AddressVal (acc_at cur (bf_spender_account_index i)),
      AddressVal (acc_at cur (bf_from_account_index i)), I128Val (bf_amount i)]"
| "command_args cur (Burn i) =
     [AddressVal (acc_at cur (burn_from_account_index i)), I128Val (burn_amount i)]"
| "command_args cur (ApproveAndTransferFrom i) =
     [AddressVal (acc_at cur (atf_from_account_index i)),
      AddressVal (acc_at cur (atf_spender_account_index i)), I128Val (atf_amount i),
      U32Val (atf_expiration_ledger i)]"
| "command_args cur (ApproveAndBurnFrom i) =
     [AddressVal (acc_at cur (abf_from_account_index i)),
      AddressVal (acc_at cur (abf_spender_account_index i)), I128Val (abf_amount i),
      U32Val (abf_expiration_ledger i)]"

lemma run_call_checked:
  assumes "run_call S tb cur fn auths vs call n i mirror (env, cs, nonce) = Inr (env', cs', nonce')"
  shows "\<exists>env1 r.
    mock_auths_for_command S env fn auths (accounts cur) tb nonce vs = Inr (env1, nonce') \<and>
    call env1 = (r, env') \<and> r \<noteq> Err (Ok (Error WasmVm InvalidAction)) \<and>
    (is_ok r \<longrightarrow> 0 \<le> sint n \<and> i < length auths \<and> auths ! i) \<and> (is_err r \<longrightarrow> cs' = cs)"
proof -
  obtain env1 r where r: "mock_auths_for_command S env fn auths (accounts cur) tb nonce vs = Inr (env1, nonce')"
      "call env1 = (r, env')" "check_call r n auths i = Inr ()" "on_ok r cs mirror = Inr cs'"
    by (rule run_call_Inr [OF assms])
  then show ?thesis
    by (intro exI [of _ env1] exI [of _ r])
      (cases r; auto simp: check_call_ok on_ok_Inr not_less [symmetric])
qed

text \<open>
  C4: a command passes only if the token behaved: the call, made with the authorizations of the
  flagged accounts and no others, did not end in an unexpected panic, and if it succeeded, the
  amount was not negative and the account that has to authorize it did. So a token that accepts a
  negative amount or a missing authorization is reported at that command. A failing call leaves
  the book alone.
\<close>

theorem passing_command:
  assumes "exec_command S tb cur c (env, cs, nonce) = Inr (env', cs', nonce')" "simple_command c"
  shows "\<exists>env1 r.
    mock_auths_for_command S env (command_function c) (command_auths c) (accounts cur) tb nonce
      (command_args cur c) = Inr (env1, nonce') \<and>
    command_call cur c env1 = (r, env') \<and> r \<noteq> Err (Ok (Error WasmVm InvalidAction)) \<and>
    (is_ok r \<longrightarrow> 0 \<le> sint (command_amount c) \<and> command_authorized c) \<and> (is_err r \<longrightarrow> cs' = cs)"
  using assms
  by (cases c)
    (auto simp: exec_defs bnd_Inr_iff acc_at_def command_authorized_def dest!: run_call_checked)

theorem passing_command_witness:
  "\<exists>env1 r env'. command_call demo_cur (Mint demo_mint) env1 = (r, env') \<and>
    (is_ok r \<longrightarrow> 0 \<le> sint (command_amount (Mint demo_mint)) \<and> command_authorized (Mint demo_mint))"
proof -
  obtain env' cs' where "exec_command (ref_sdk quiet_error) (sc_string token_sc) demo_cur
      (Mint demo_mint) (demo_idle, init, 0) = Inr (env', cs', 1)"
    using demo_mint_runs by blast
  from passing_command [OF this] show ?thesis by auto
qed

text \<open>The mirror of the call a command makes.\<close>

fun command_mirror ::
  "('env, 'addr, 'key) sdk \<Rightarrow> ('env, 'addr, 'key) current_state \<Rightarrow> command \<Rightarrow> contract_state
    \<Rightarrow> panic + contract_state" where
  "command_mirror S cur (Mint i) = mirror_mint S (acc_at cur (mint_to_account_index i)) (mint_amount i)"
| "command_mirror S cur (Approve i) =
     mirror_approve S (acc_at cur (approve_from_account_index i))
       (acc_at cur (approve_spender_account_index i)) (approve_amount i)"
| "command_mirror S cur (TransferFrom i) =
     mirror_transfer_from S (acc_at cur (tf_spender_account_index i))
       (acc_at cur (tf_from_account_index i)) (acc_at cur (tf_to_account_index i)) (tf_amount i)"
| "command_mirror S cur (Transfer i) =
     mirror_transfer S (acc_at cur (tr_from_account_index i)) (acc_at cur (tr_to_account_index i))
       (tr_amount i)"
| "command_mirror S cur (BurnFrom i) =
     mirror_burn_from S (acc_at cur (bf_spender_account_index i))
       (acc_at cur (bf_from_account_index i)) (bf_amount i)"
| "command_mirror S cur (Burn i) =
     mirror_burn S (acc_at cur (burn_from_account_index i)) (burn_amount i)"
| "command_mirror S cur (ApproveAndTransferFrom i) =
     mirror_approve S (acc_at cur (atf_from_account_index i))
       (acc_at cur (atf_spender_account_index i)) (atf_amount i)"
| "command_mirror S cur (ApproveAndBurnFrom i) =
     mirror_approve S (acc_at cur (abf_from_account_index i))
       (acc_at cur (abf_spender_account_index i)) (abf_amount i)"

lemma run_call_outcome:
  assumes "mock_auths_for_command S env fn auths (accounts cur) tb nonce vs = Inr (env1, nonce')"
    and "call env1 = (r, env')" "i < length auths"
  shows "run_call S tb cur fn auths vs call n i mirror (env, cs, nonce) =
    (if r = Err (Ok (Error WasmVm InvalidAction)) then Inl unexpected_panic
     else if is_err r then Inr (env', cs, nonce')
     else if sint n < 0 \<or> \<not> auths ! i then Inl AssertFailed
     else if r = Ok (Ok ()) then bnd (mirror cs) (\<lambda>cs'. Inr (env', cs', nonce'))
     else Inl (Expect ''ok''))"
proof -
  have v: "verify_token_contract_result r =
      (if r = Err (Ok (Error WasmVm InvalidAction)) then Inl unexpected_panic else Inr ())" for r
    using verify_ok [of r]
    by (auto simp: verify_token_contract_result_def unexpected_panic_def split: result.splits)
  have i: "index auths i = Inr (auths ! i)" using assms(3) by (simp add: index_def)
  show ?thesis
    using assms(1,2)
    by (cases r) (auto simp: run_call_def check_call_def v i on_ok_def expect_ok_def split: result.splits)
qed

text \<open>
  C5: the outcome of a command on every branch of its call: a trap is reported, any other
  failure leaves the book alone, a success that should have failed (negative amount, missing
  authorization) fails an assertion, and a rightful success is mirrored in the book.
\<close>

theorem command_outcome:
  assumes "simple_command c" "command_ok c" "length (accounts cur) = NUMBER_OF_ADDRESSES"
    and "mock_auths_for_command S env (command_function c) (command_auths c) (accounts cur) tb nonce
      (command_args cur c) = Inr (env1, nonce')"
    and "command_call cur c env1 = (r, env')"
  shows "exec_command S tb cur c (env, cs, nonce) =
    (if r = Err (Ok (Error WasmVm InvalidAction)) then Inl unexpected_panic
     else if is_err r then Inr (env', cs, nonce')
     else if sint (command_amount c) < 0 \<or> \<not> command_authorized c then Inl AssertFailed
     else if r = Ok (Ok ()) then bnd (command_mirror S cur c cs) (\<lambda>cs'. Inr (env', cs', nonce'))
     else Inl (Expect ''ok''))"
proof -
  have s: "command_signer c < length (command_auths c)"
    using assms(1,2)
    by (cases c) (auto simp: account_index_ok_def auths_ok_def NUMBER_OF_ADDRESSES_def)
  have at: "account_address cur k = Inr (acc_at cur k)" if "account_index_ok k" for k
    using that assms(3) by (simp add: account_address_def index_def acc_at_def account_index_ok_def)
  from run_call_outcome [where call = "command_call cur c" and i = "command_signer c",
      OF assms(4,5) s, of "command_amount c" "command_mirror S cur c" cs]
    assms(1,2) s
  show ?thesis by (cases c) (simp_all add: exec_defs at command_authorized_def)
qed

theorem command_outcome_witness:
  "\<exists>env1 r env'. command_call demo_cur (Mint demo_mint) env1 = (r, env') \<and>
    exec_command (ref_sdk quiet_error) (sc_string token_sc) demo_cur (Mint demo_mint)
      (demo_idle, init, 0) =
    (if r = Err (Ok (Error WasmVm InvalidAction)) then Inl unexpected_panic
     else if is_err r then Inr (env', init, 1)
     else if r = Ok (Ok ()) then
       bnd (command_mirror (ref_sdk quiet_error) demo_cur (Mint demo_mint) init) (\<lambda>cs'. Inr (env', cs', 1))
     else Inl (Expect ''ok''))"
proof -
  let ?c = "Mint demo_mint"
  have auths: "\<exists>env1. mock_auths_for_command (ref_sdk quiet_error) demo_idle (command_function ?c)
      (command_auths ?c) (accounts demo_cur) (sc_string token_sc) 0 (command_args demo_cur ?c) =
      Inr (env1, 1)"
    using demo_mint_auths by (simp add: demo_mint_def)
  then obtain env1 where e1: "mock_auths_for_command (ref_sdk quiet_error) demo_idle (command_function ?c)
      (command_auths ?c) (accounts demo_cur) (sc_string token_sc) 0 (command_args demo_cur ?c) =
      Inr (env1, 1)" by blast
  obtain r env' where r: "command_call demo_cur ?c env1 = (r, env')" by fastforce
  have ok: "command_ok ?c" "length (accounts demo_cur) = NUMBER_OF_ADDRESSES"
      "0 \<le> sint (command_amount ?c)" "command_authorized ?c"
    using demo_tx_ok
    by (simp_all add: demo_tx_def transaction_ok_def demo_cur_def NUMBER_OF_ADDRESSES_def
        command_authorized_def) (simp_all add: demo_mint_def)
  show ?thesis
    using command_outcome [OF _ ok(1,2) e1 r, of init] ok(3,4) r
    by (intro exI [of _ env1] exI [of _ r] exI [of _ env']) (simp add: not_less [symmetric])
qed

text \<open>
  C22: the fuzzer reports its own example: the example token handles a transfer beyond the balance
  with \<open>panic!\<close>, so on a host that reports a panic as a trap, a transfer command that is authorized
  but exceeds the balance ends the run, although the token refused it.
\<close>

theorem example_overspend_reported:
  assumes "live_host_laws H good view auth max_live"
    and "token_client cur = example_token_client F H" "length (accounts cur) = NUMBER_OF_ADDRESSES"
    and "command_ok (Transfer i)" "vs = command_args cur (Transfer i)"
    and "mock_auths_for_command S env ''transfer'' (tr_auths i) (accounts cur) tb nonce vs = Inr (env1, nonce')"
    and "e = fr_enter F env1 ''transfer'' vs" "good e" "token_ok admin (view e)"
    and "from = acc_at cur (tr_from_account_index i)" "auth e from" "0 \<le> sint (tr_amount i)"
    and "bals (token_view (view e)) from < sint (tr_amount i)"
    and "fr_error F (Panic ''insufficient balance'') = Error WasmVm InvalidAction"
  shows "exec_command S tb cur (Transfer i) (env, cs, nonce) = Inl unexpected_panic"
proof -
  let ?to = "acc_at cur (tr_to_account_index i)"
  have "token_transfer H e from ?to (tr_amount i) = Inl (Panic ''insufficient balance'')"
    by (rule live_host_laws.overspend_panics(1) [OF assms(1,8,9,11-13)])
  then have call: "command_call cur (Transfer i) env1 =
      (Err (Ok (Error WasmVm InvalidAction)), fr_rollback F env1)"
    using assms(2,5,7,10,14)
    by (simp add: example_token_client_def try_invoke_def no_value_def)
  have at: "account_address cur k = Inr (acc_at cur k)" if "account_index_ok k" for k
    using that assms(3) by (simp add: account_address_def index_def acc_at_def account_index_ok_def)
  have i: "tr_from_account_index i < length (tr_auths i)"
    using assms(4) by (simp add: account_index_ok_def auths_ok_def)
  from run_call_outcome [where call = "command_call cur (Transfer i)",
      OF assms(6) call i, of "tr_amount i" "command_mirror S cur (Transfer i)" cs]
  show ?thesis using assms(4,5) by (simp add: exec_transfer_def at)
qed

text \<open>The demonstration with a host that reports panics as traps: \<open>alice\<close> sends 1000 of her 100.\<close>

definition trap :: error where
  "trap = Error WasmVm InvalidAction"

definition trap_cur :: "(renv, raddr, u8 list) current_state" where
  "trap_cur = demo_cur\<lparr>token_client := example_token_client (ref_frames trap) ref_host\<rparr>"

definition demo_overspend :: transfer_input where
  "demo_overspend = \<lparr>tr_amount = 1000, tr_from_account_index = 1, tr_to_account_index = 2,
     tr_auths = [False, True, False]\<rparr>"

theorem example_overspend_reported_witness:
  "exec_command (ref_sdk trap) (sc_string token_sc) trap_cur (Transfer demo_overspend)
     (demo_idle, init, 0) = Inl unexpected_panic"
proof -
  let ?vs = "command_args trap_cur (Transfer demo_overspend)"
  let ?env = "demo_idle\<lparr>re_auths := [\<lparr>credentials = \<lparr>cred_address = addr_sc alice, cred_nonce = 0,
      cred_expiration_ledger = 6312099, cred_signature = Void\<rparr>,
      root_invocation = command_invocation token_sc ''transfer'' ?vs\<rparr>]\<rparr>"
  have auths: "mock_auths_for_command (ref_sdk trap) demo_idle ''transfer'' (tr_auths demo_overspend)
      (accounts trap_cur) (sc_string token_sc) 0 ?vs = Inr (?env, 1)"
    by (simp add: demo_overspend_def trap_cur_def mock_auths_for_command_def checked_uadd_def
        checked_usub_def max_ttl_def demo_idle_def NUMBER_OF_ADDRESSES_def upt_rec mock_auth_step_def
        mock_auth_entry_def demo_cur_def index_def mock_signature_def checked_sadd_def Let_def
        command_invocation_def)
  let ?e = "fr_enter (ref_frames trap) ?env ''transfer'' ?vs"
  have view: "ref_view ?e = ref_view (demo_env alice [] [])" "ref_good ?e = ref_good (demo_env alice [] [])"
    by (simp_all add: ref_frames_def demo_idle_def)
  have auth: "ref_auth token_sc ?e alice" by (simp add: ref_frames_def ref_auth_def)
  have ok: "command_ok (Transfer demo_overspend)" "length (accounts trap_cur) = NUMBER_OF_ADDRESSES"
      "acc_at trap_cur (tr_from_account_index demo_overspend) = alice"
    by (simp_all add: demo_overspend_def account_index_ok_def auths_ok_def NUMBER_OF_ADDRESSES_def
        trap_cur_def demo_cur_def acc_at_def)
  have amount: "0 \<le> sint (tr_amount demo_overspend)"
      "bals (token_view (ref_view ?e)) alice < sint (tr_amount demo_overspend)"
    unfolding view by (simp_all add: demo_overspend_def del: token_view_simps)
  have err: "fr_error (ref_frames trap) (Panic ''insufficient balance'') = Error WasmVm InvalidAction"
    by (simp add: ref_frames_def trap_def)
  have client: "token_client trap_cur = example_token_client (ref_frames trap) ref_host"
    by (simp add: trap_cur_def)
  have inv: "ref_good ?e" "token_ok carol (ref_view ?e)"
    unfolding view by (rule demo_good demo_ok)+
  show ?thesis
    by (rule example_overspend_reported [OF ref_live.live_host_laws_axioms client ok(2,1) refl auths
          refl inv ok(3) [symmetric] auth amount err])
qed

text \<open>
  C9: every command keeps the book balanced: the balances it tracks for the accounts and the
  difference of minted and burned amounts move together.
\<close>

theorem command_keeps_balance:
  assumes "sdk_strings S" "distinct (map ts_address (accounts cur))"
    and "exec_command S tb cur c (env, cs, nonce) = Inr (env', cs', nonce')"
  shows "tracked_total S cs' (map ts_address (accounts cur)) - (sum_of_mints cs' - sum_of_burns cs') =
    tracked_total S cs (map ts_address (accounts cur)) - (sum_of_mints cs - sum_of_burns cs)"
proof -
  have "imbalance S as x = tracked_total S x as - (sum_of_mints x - sum_of_burns x)" for as x
    by (simp add: imbalance_def total_supply_def book_view_def minted_minus_burned_def tracked_total_def)
  with sdk_strings.exec_command_balanced [OF assms(1,3,2)] show ?thesis by metis
qed

theorem command_keeps_balance_witness:
  "\<exists>env' cs'. exec_command (ref_sdk quiet_error) (sc_string token_sc) demo_cur (Mint demo_mint)
      (demo_idle, init, 0) = Inr (env', cs', 1) \<and>
    tracked_total (ref_sdk quiet_error) cs' [carol, alice, bob] = sum_of_mints cs' - sum_of_burns cs'"
proof -
  obtain env' cs' where run: "exec_command (ref_sdk quiet_error) (sc_string token_sc) demo_cur
      (Mint demo_mint) (demo_idle, init, 0) = Inr (env', cs', 1)"
    using demo_mint_runs by blast
  have "map ts_address (accounts demo_cur) = [carol, alice, bob]" by (simp add: demo_cur_def)
  with run command_keeps_balance [OF ref_run.sdk_strings_axioms demo_distinct run] show ?thesis
    by (simp add: init_def) (simp add: init_def [symmetric])
qed

text \<open>
  C10: every command keeps the book's type invariant: what it records is never negative.
\<close>

theorem command_keeps_book_ok:
  assumes "sdk_strings S" "book_ok cs"
    and "exec_command S tb cur c (env, cs, nonce) = Inr (env', cs', nonce')"
  shows "book_ok cs' \<and> 0 \<le> tracked_balance S cs' a \<and> 0 \<le> tracked_allowance S cs' a b"
  using sdk_strings.exec_command_book_ok [OF assms(1,3,2)] by (simp add: book_ok_tracked)

theorem command_keeps_book_ok_witness:
  "\<exists>env' cs'. exec_command (ref_sdk quiet_error) (sc_string token_sc) demo_cur (Mint demo_mint)
      (demo_idle, init, 0) = Inr (env', cs', 1) \<and> book_ok cs'"
proof -
  obtain env' cs' where run: "exec_command (ref_sdk quiet_error) (sc_string token_sc) demo_cur
      (Mint demo_mint) (demo_idle, init, 0) = Inr (env', cs', 1)"
    using demo_mint_runs by blast
  with command_keeps_book_ok [OF ref_run.sdk_strings_axioms book_ok_init run] show ?thesis by blast
qed

text \<open>
  C8: the mirror of each call refines the operation of the abstract token: what it does to the
  book is exactly what the call is specified to do to the token, for all six operations.
\<close>

theorem mirrors_refine_spec:
  assumes "sdk_strings S"
  shows "(mirror_mint S to n cs = Inr cs' \<longrightarrow>
      book_view S cs' = spec_mint to (sint n) (book_view S cs))
    \<and> (mirror_approve S from spender n cs = Inr cs' \<longrightarrow>
      book_view S cs' = spec_approve from spender (sint n) (book_view S cs))
    \<and> (mirror_transfer S from to n cs = Inr cs' \<longrightarrow>
      book_view S cs' = spec_transfer from to (sint n) (book_view S cs))
    \<and> (mirror_transfer_from S spender from to n cs = Inr cs' \<longrightarrow>
      book_view S cs' = spec_transfer_from spender from to (sint n) (book_view S cs))
    \<and> (mirror_burn S from n cs = Inr cs' \<longrightarrow>
      book_view S cs' = spec_burn from (sint n) (book_view S cs))
    \<and> (mirror_burn_from S spender from n cs = Inr cs' \<longrightarrow>
      book_view S cs' = spec_burn_from spender from (sint n) (book_view S cs))"
  by (intro conjI impI; drule sdk_strings.mirror_refines [OF assms]; elim conjE; assumption)

theorem mirrors_refine_spec_witness:
  "\<exists>cs'. mirror_mint (ref_sdk quiet_error) alice 5 init = Inr cs' \<and>
    book_view (ref_sdk quiet_error) cs' = spec_mint alice 5 (book_view (ref_sdk quiet_error) init)"
proof -
  have "\<exists>cs'. mirror_mint (ref_sdk quiet_error) alice 5 init = Inr cs'"
    by (simp add: mirror_mint_def add_balance_def get_balance_def ref_run.address_to_bytes_ok
        init_def checked_sadd_def)
  then show ?thesis
    using mirrors_refine_spec [OF ref_run.sdk_strings_axioms, of quiet_error alice 5 init] by auto
qed

section \<open>The checks after a transaction\<close>

text \<open>
  What the reads of the token report. A read may change the \<open>Env\<close> (the example token extends
  lifetimes), so the reports hold as long as \<open>P\<close> does, which every read keeps.
\<close>

definition reads :: "('env \<Rightarrow> bool) \<Rightarrow> ('env \<Rightarrow> panic + 'a \<times> 'env) \<Rightarrow> 'a \<Rightarrow> bool" where
  "reads P m v \<longleftrightarrow> (\<forall>e. P e \<longrightarrow> (\<exists>e'. m e = Inr (v, e') \<and> P e'))"

definition reports ::
  "('env \<Rightarrow> bool) \<Rightarrow> ('env, 'addr, 'key) current_state \<Rightarrow> sstring \<Rightarrow> sstring \<Rightarrow> u32 \<Rightarrow> ('addr \<Rightarrow> i128)
    \<Rightarrow> ('addr \<Rightarrow> 'addr \<Rightarrow> i128) \<Rightarrow> bool" where
  "reports P cur nm sb dec B A \<longleftrightarrow>
     reads P (client_name (token_client cur)) nm \<and> reads P (client_symbol (token_client cur)) sb \<and>
     reads P (client_decimals (token_client cur)) dec \<and>
     (\<forall>x\<in>set (accounts cur).
        reads P (\<lambda>e. client_balance (token_client cur) e (ts_address x)) (B (ts_address x))) \<and>
     (\<forall>x\<in>set (accounts cur). \<forall>y\<in>set (accounts cur).
        reads P (\<lambda>e. client_allowance (token_client cur) e (ts_address x) (ts_address y))
          (A (ts_address x) (ts_address y)))"

text \<open>The book agrees with what the token reports.\<close>

definition agrees ::
  "('env, 'addr, 'key) sdk \<Rightarrow> contract_state \<Rightarrow> ('env, 'addr, 'key) current_state \<Rightarrow> sstring \<Rightarrow> sstring
    \<Rightarrow> u32 \<Rightarrow> ('addr \<Rightarrow> i128) \<Rightarrow> ('addr \<Rightarrow> 'addr \<Rightarrow> i128) \<Rightarrow> bool" where
  "agrees S cs cur nm sb dec B A \<longleftrightarrow>
     name cs = nm \<and> symbol cs = sb \<and> decimals cs = dec \<and>
     (\<forall>x\<in>set (accounts cur). tracked_balance S cs (ts_address x) = sint (B (ts_address x)) \<and>
        0 \<le> sint (B (ts_address x))) \<and>
     (\<forall>x\<in>set (accounts cur). \<forall>y\<in>set (accounts cur).
        tracked_allowance S cs (ts_address x) (ts_address y) = sint (A (ts_address x) (ts_address y))) \<and>
     sum_of_mints cs - sum_of_burns cs = (\<Sum>x\<leftarrow>accounts cur. sint (B (ts_address x)))"

text \<open>A step that passes exactly when \<open>Q\<close> holds, and keeps \<open>P\<close>.\<close>

definition passes_iff :: "('env \<Rightarrow> bool) \<Rightarrow> ('env \<Rightarrow> panic + 'env) \<Rightarrow> bool \<Rightarrow> bool" where
  "passes_iff P m Q \<longleftrightarrow>
     (\<forall>e. P e \<longrightarrow> (if Q then \<exists>e'. m e = Inr e' \<and> P e' else m e = Inl AssertFailed))"

lemma passes_iff_bnd:
  assumes "passes_iff P m Q" "passes_iff P n R"
  shows "passes_iff P (\<lambda>e. bnd (m e) n) (Q \<and> R)"
  unfolding passes_iff_def
proof (intro allI impI)
  fix e
  assume e: "P e"
  show "if Q \<and> R then \<exists>e'. bnd (m e) n = Inr e' \<and> P e' else bnd (m e) n = Inl AssertFailed"
  proof (cases Q)
    case True
    then obtain e1 where "m e = Inr e1" "P e1" using assms(1) e by (auto simp: passes_iff_def)
    with assms(2) True show ?thesis by (simp add: passes_iff_def)
  next
    case False
    with assms(1) e show ?thesis by (simp add: passes_iff_def)
  qed
qed

lemma passes_iff_fold:
  assumes "\<And>x. x \<in> set xs \<Longrightarrow> passes_iff P (f x) (Q x)"
  shows "passes_iff P (fold_may f xs) (\<forall>x\<in>set xs. Q x)"
  using assms
proof (induction xs)
  case Nil
  then show ?case by (simp add: passes_iff_def)
next
  case (Cons x xs)
  have "passes_iff P (\<lambda>e. bnd (f x e) (fold_may f xs)) (Q x \<and> (\<forall>x\<in>set xs. Q x))"
    by (rule passes_iff_bnd) (use Cons in simp_all)
  then show ?case by (simp add: passes_iff_def)
qed

text \<open>Reading a value, then checking it.\<close>

lemma passes_iff_read:
  assumes "reads P m v" "passes_iff P (\<lambda>e. k (v, e)) Q"
  shows "passes_iff P (\<lambda>e. bnd (m e) k) Q"
  unfolding passes_iff_def
proof (intro allI impI)
  fix e
  assume "P e"
  with assms(1) obtain e1 where "m e = Inr (v, e1)" "P e1" unfolding reads_def by blast
  with assms(2) show "if Q then \<exists>e'. bnd (m e) k = Inr e' \<and> P e' else bnd (m e) k = Inl AssertFailed"
    by (simp add: passes_iff_def)
qed

lemma passes_iff_assert:
  "passes_iff P k R \<Longrightarrow> passes_iff P (\<lambda>e. if b then k e else Inl AssertFailed) (b \<and> R)"
  by (simp add: passes_iff_def)

lemma passes_iff_done: "passes_iff P Inr True"
  by (simp add: passes_iff_def)

lemma reads_sum:
  assumes "\<And>x. x \<in> set xs \<Longrightarrow> reads P (\<lambda>e. client_balance (token_client cur) e (ts_address x)) (B x)"
  shows "reads P (\<lambda>e. fold_may (add_actual_balance cur) xs (acc, e)) (acc + (\<Sum>x\<leftarrow>xs. sint (B x)))"
  using assms
proof (induction xs arbitrary: acc)
  case Nil
  then show ?case by (simp add: reads_def)
next
  case (Cons x xs)
  show ?case
    unfolding reads_def
  proof (intro allI impI)
    fix e
    assume e: "P e"
    have "reads P (\<lambda>e. client_balance (token_client cur) e (ts_address x)) (B x)"
      by (rule Cons.prems) simp
    then obtain e1 where "client_balance (token_client cur) e (ts_address x) = Inr (B x, e1)" "P e1"
      using e unfolding reads_def by blast
    moreover have "reads P (\<lambda>e. fold_may (add_actual_balance cur) xs (acc + sint (B x), e))
        (acc + sint (B x) + (\<Sum>x\<leftarrow>xs. sint (B x)))"
      by (rule Cons.IH) (use Cons.prems in simp)
    ultimately show "\<exists>e'. fold_may (add_actual_balance cur) (x # xs) (acc, e) =
        Inr (acc + (\<Sum>x\<leftarrow>x # xs. sint (B x)), e') \<and> P e'"
      by (auto simp: reads_def add_actual_balance_def add.assoc)
  qed
qed

context sdk_strings
begin

lemma assert_metadata_reports:
  assumes r: "reports P cur nm sb dec B A" and len: "length nm < 2 ^ 32" "length sb < 2 ^ 32"
  shows "passes_iff P (assert_metadata S cs cur) (name cs = nm \<and> symbol cs = sb \<and> decimals cs = dec)"
proof -
  have str: "string_to_bytes S nm = Inr nm" "string_to_bytes S sb = Inr sb"
    using len by (simp_all only: string_to_bytes_ok)
  have "passes_iff P (\<lambda>e. bnd (client_decimals (token_client cur) e)
      (\<lambda>(v, e). if decimals cs = v then Inr e else Inl AssertFailed)) (decimals cs = dec \<and> True)"
    by (rule passes_iff_read [where v = dec])
      (use r in \<open>simp_all add: reports_def passes_iff_def\<close>)
  then have "passes_iff P (\<lambda>e. bnd (client_symbol (token_client cur) e)
      (\<lambda>(v, e). bnd (string_to_bytes S v) (\<lambda>bytes. if symbol cs = bytes then
         bnd (client_decimals (token_client cur) e)
           (\<lambda>(v, e). if decimals cs = v then Inr e else Inl AssertFailed) else Inl AssertFailed)))
      (symbol cs = sb \<and> decimals cs = dec)"
    by (intro passes_iff_read [where v = sb])
      (use r in \<open>simp_all add: reports_def str passes_iff_assert\<close>)
  then have "passes_iff P (\<lambda>e. bnd (client_name (token_client cur) e)
      (\<lambda>(v, e). bnd (string_to_bytes S v) (\<lambda>bytes. if name cs = bytes then
         bnd (client_symbol (token_client cur) e)
           (\<lambda>(v, e). bnd (string_to_bytes S v) (\<lambda>bytes. if symbol cs = bytes then
         bnd (client_decimals (token_client cur) e)
           (\<lambda>(v, e). if decimals cs = v then Inr e else Inl AssertFailed) else Inl AssertFailed))
           else Inl AssertFailed)))
      (name cs = nm \<and> symbol cs = sb \<and> decimals cs = dec)"
    by (intro passes_iff_read [where v = nm])
      (use r in \<open>simp_all add: reports_def str passes_iff_assert\<close>)
  then show ?thesis unfolding assert_metadata_def bnd_assert .
qed

lemma assert_balance_reports:
  assumes r: "reports P cur nm sb dec B A" and x: "x \<in> set (accounts cur)"
  shows "passes_iff P (assert_balance S cs cur x)
    (tracked_balance S cs (ts_address x) = sint (B (ts_address x)) \<and> 0 \<le> sint (B (ts_address x)))"
proof -
  obtain w where w: "get_balance S cs (ts_address x) = Inr w" "sint w = tracked_balance S cs (ts_address x)"
    by (rule get_balance_ok)
  have rd: "reads P (\<lambda>e. client_balance (token_client cur) e (ts_address x)) (B (ts_address x))"
    using r x by (simp add: reports_def)
  have "passes_iff P (\<lambda>e. if 0 \<le> sint (B (ts_address x)) then Inr e else Inl AssertFailed)
      (0 \<le> sint (B (ts_address x)) \<and> True)"
    by (intro passes_iff_assert passes_iff_done)
  then have "passes_iff P (\<lambda>e. bnd (client_balance (token_client cur) e (ts_address x))
      (\<lambda>(again, env). if 0 \<le> sint again then Inr env else Inl AssertFailed)) (0 \<le> sint (B (ts_address x)))"
    by (intro passes_iff_read [OF rd]) simp
  from passes_iff_read [OF rd, of "\<lambda>(v, e). if w = v then bnd (client_balance (token_client cur) e (ts_address x))
      (\<lambda>(again, env). if 0 \<le> sint again then Inr env else Inl AssertFailed) else Inl AssertFailed",
      unfolded prod.case, OF passes_iff_assert [OF this]]
  show ?thesis
    unfolding assert_balance_def w(1) w(2) [symmetric] by simp
qed

lemma assert_allowance_reports:
  assumes r: "reports P cur nm sb dec B A" and xy: "x \<in> set (accounts cur)" "y \<in> set (accounts cur)"
  shows "passes_iff P (assert_allowance S cs cur (x, y))
    (tracked_allowance S cs (ts_address x) (ts_address y) = sint (A (ts_address x) (ts_address y)))"
proof -
  obtain w where w: "get_allowance S cs (ts_address x) (ts_address y) = Inr w"
      "sint w = tracked_allowance S cs (ts_address x) (ts_address y)"
    by (rule get_allowance_ok)
  have rd: "reads P (\<lambda>e. client_allowance (token_client cur) e (ts_address x) (ts_address y))
      (A (ts_address x) (ts_address y))"
    using r xy by (simp add: reports_def)
  have "passes_iff P (\<lambda>e. bnd (client_allowance (token_client cur) e (ts_address x) (ts_address y))
      (\<lambda>(v, e). if w = v then Inr e else Inl AssertFailed)) (w = A (ts_address x) (ts_address y) \<and> True)"
    by (rule passes_iff_read [OF rd]) (simp only: prod.case, intro passes_iff_assert passes_iff_done)
  then show ?thesis
    unfolding assert_allowance_def w(2) [symmetric] by (simp add: w(1))
qed

lemma assert_state_reports:
  assumes r: "reports P cur nm sb dec B A" and len: "length nm < 2 ^ 32" "length sb < 2 ^ 32"
  shows "passes_iff P (assert_state S cs cur) (agrees S cs cur nm sb dec B A)"
proof -
  let ?b = "\<lambda>x. tracked_balance S cs (ts_address x) = sint (B (ts_address x)) \<and> 0 \<le> sint (B (ts_address x))"
  let ?a = "\<lambda>(x, y). tracked_allowance S cs (ts_address x) (ts_address y) =
    sint (A (ts_address x) (ts_address y))"
  let ?s = "\<Sum>x\<leftarrow>accounts cur. sint (B (ts_address x))"
  have bal: "passes_iff P (fold_may (assert_balance S cs cur) (accounts cur)) (\<forall>x\<in>set (accounts cur). ?b x)"
    by (intro passes_iff_fold assert_balance_reports [OF r])
  have al: "passes_iff P (fold_may (assert_allowance S cs cur) (account_pairs cur))
      (\<forall>xy\<in>set (account_pairs cur). ?a xy)"
    by (rule passes_iff_fold) (auto simp: account_pairs_def intro!: assert_allowance_reports [OF r])
  have "reads P (\<lambda>e. fold_may (add_actual_balance cur) (accounts cur) (0, e)) (0 + ?s)"
    by (rule reads_sum) (use r in \<open>simp add: reports_def\<close>)
  then have sum: "passes_iff P (\<lambda>e. bnd (fold_may (add_actual_balance cur) (accounts cur) (0, e))
      (\<lambda>(s, e). if sum_of_mints cs - sum_of_burns cs = s then Inr e else Inl AssertFailed))
      (sum_of_mints cs - sum_of_burns cs = ?s \<and> True)"
    by (rule passes_iff_read) (simp only: prod.case add_0, intro passes_iff_assert passes_iff_done)
  from passes_iff_bnd [OF assert_metadata_reports [OF r len, of cs]
      passes_iff_bnd [OF bal passes_iff_bnd [OF al sum]]]
  show ?thesis
    unfolding assert_state_def agrees_def Let_def bnd_assert
    by (simp add: account_pairs_def ball_simps)
qed

end

text \<open>
  C7: \<open>assert_state\<close> passes exactly when the token agrees with the book: name, symbol and
  decimals, the balance of every account, which must not be negative, the allowance of every
  pair of accounts, and the sum of the balances with minted minus burned. Otherwise it fails
  with an assertion.
\<close>

theorem assert_state_exact:
  assumes "sdk_strings S" "reports P cur nm sb dec B A" "P env"
    and "length nm < 2 ^ 32" "length sb < 2 ^ 32"
  shows "if name cs = nm \<and> symbol cs = sb \<and> decimals cs = dec \<and>
      (\<forall>x\<in>set (accounts cur). tracked_balance S cs (ts_address x) = sint (B (ts_address x)) \<and>
         0 \<le> sint (B (ts_address x))) \<and>
      (\<forall>x\<in>set (accounts cur). \<forall>y\<in>set (accounts cur).
         tracked_allowance S cs (ts_address x) (ts_address y) = sint (A (ts_address x) (ts_address y))) \<and>
      sum_of_mints cs - sum_of_burns cs = (\<Sum>x\<leftarrow>accounts cur. sint (B (ts_address x)))
    then \<exists>env'. assert_state S cs cur env = Inr env' \<and> P env'
    else assert_state S cs cur env = Inl AssertFailed"
  using sdk_strings.assert_state_reports [OF assms(1,2,4,5), of cs] assms(3)
  unfolding passes_iff_def agrees_def by blast

text \<open>A token with nothing in it, against the book of an empty token.\<close>

definition empty_client :: "(renv, raddr) token_client" where
  "empty_client = (token_client demo_cur)
     \<lparr>client_name := (\<lambda>e. Inr ([], e)), client_symbol := (\<lambda>e. Inr ([], e)),
      client_decimals := (\<lambda>e. Inr (0, e)), client_balance := (\<lambda>e a. Inr (0, e)),
      client_allowance := (\<lambda>e a b. Inr (0, e))\<rparr>"

lemma empty_client_reports:
  "token_client cur = empty_client \<Longrightarrow> reports (\<lambda>_. True) cur [] [] 0 (\<lambda>_. 0) (\<lambda>_ _. 0)"
  by (simp add: reports_def reads_def empty_client_def)

theorem assert_state_exact_witness:
  "(\<exists>env'. assert_state (ref_sdk quiet_error) init (demo_cur\<lparr>token_client := empty_client\<rparr>) demo_idle = Inr env')
   \<and> assert_state (ref_sdk quiet_error) (init\<lparr>sum_of_mints := 1\<rparr>)
      (demo_cur\<lparr>token_client := empty_client\<rparr>) demo_idle = Inl AssertFailed"
proof -
  have "reports (\<lambda>_. True) (demo_cur\<lparr>token_client := empty_client\<rparr>) [] [] 0 (\<lambda>_. 0) (\<lambda>_ _. 0)"
    by (rule empty_client_reports) simp
  note exact = assert_state_exact [OF ref_run.sdk_strings_axioms [of quiet_error] this]
  show ?thesis
    using exact [of init demo_idle] exact [of "init\<lparr>sum_of_mints := 1\<rparr>" demo_idle]
    by (simp add: demo_cur_def tracked_balance_def tracked_allowance_def init_def)
qed

lemma refresh_one:
  assumes "sdk_strings S" "reports P cur nm sb dec B A" "P env"
    and xy: "x \<in> set (accounts cur)" "y \<in> set (accounts cur)"
  shows "\<exists>cs' env'. refresh_allowance S cur (x, y) (cs, env) = Inr (cs', env') \<and> P env' \<and>
    cs' = cs\<lparr>allowances := allowances cs'\<rparr> \<and>
    tracked_allowance S cs' = (\<lambda>a b. if a = ts_address x \<and> b = ts_address y \<and> A a b = 0 then 0
      else tracked_allowance S cs a b)"
proof -
  let ?a = "ts_address x"
  let ?b = "ts_address y"
  have "reads P (\<lambda>e. client_allowance (token_client cur) e ?a ?b) (A ?a ?b)"
    using assms(2) xy by (simp add: reports_def)
  then obtain env' where r: "client_allowance (token_client cur) env ?a ?b = Inr (A ?a ?b, env')" "P env'"
    using assms(3) unfolding reads_def by blast
  obtain w where w: "get_allowance S cs ?a ?b = Inr w" "sint w = tracked_allowance S cs ?a ?b"
    by (rule sdk_strings.get_allowance_ok [OF assms(1)])
  show ?thesis
  proof (cases "A ?a ?b = 0 \<and> w \<noteq> 0")
    case True
    then obtain cs' where cs': "set_allowance S cs ?a ?b 0 = Inr cs'"
      by (simp add: sdk_strings.set_allowance_Inr [OF assms(1)])
    then have "tracked_allowance S cs' =
        (tracked_allowance S cs)(?a := (tracked_allowance S cs ?a)(?b := 0))"
      "cs' = cs\<lparr>allowances := allowances cs'\<rparr>"
      using sdk_strings.tracked_allowance_put [OF assms(1), of cs ?a ?b 0]
      by (simp_all add: sdk_strings.set_allowance_Inr [OF assms(1)])
    with True w(1) r cs' show ?thesis
      by (intro exI [of _ cs'] exI [of _ env']) (simp add: refresh_allowance_def, auto simp: fun_eq_iff)
  next
    case False
    then have "A ?a ?b = 0 \<Longrightarrow> tracked_allowance S cs ?a ?b = 0" using w(2) by auto
    with False w(1) r show ?thesis
      by (intro exI [of _ cs] exI [of _ env']) (auto simp: refresh_allowance_def fun_eq_iff)
  qed
qed

lemma refresh_many:
  assumes "sdk_strings S" "reports P cur nm sb dec B A" "P env"
    and "set ps \<subseteq> set (accounts cur) \<times> set (accounts cur)"
  shows "\<exists>cs' env'. fold_may (refresh_allowance S cur) ps (cs, env) = Inr (cs', env') \<and> P env' \<and>
    cs' = cs\<lparr>allowances := allowances cs'\<rparr> \<and>
    tracked_allowance S cs' = (\<lambda>a b. if (a, b) \<in> (\<lambda>(x, y). (ts_address x, ts_address y)) ` set ps \<and>
      A a b = 0 then 0 else tracked_allowance S cs a b)"
  using assms(3,4)
proof (induction ps arbitrary: cs env)
  case Nil
  then show ?case by simp
next
  case (Cons xy ps)
  obtain x y where xy: "xy = (x, y)" by (cases xy)
  obtain cs1 env1 where cs1: "refresh_allowance S cur (x, y) (cs, env) = Inr (cs1, env1)" "P env1"
      "cs1 = cs\<lparr>allowances := allowances cs1\<rparr>"
      "tracked_allowance S cs1 = (\<lambda>a b. if a = ts_address x \<and> b = ts_address y \<and> A a b = 0 then 0
        else tracked_allowance S cs a b)"
    using refresh_one [OF assms(1,2) Cons.prems(1), of x y cs] Cons.prems(2) xy by auto
  obtain cs2 env2 where cs2: "fold_may (refresh_allowance S cur) ps (cs1, env1) = Inr (cs2, env2)" "P env2"
      "cs2 = cs1\<lparr>allowances := allowances cs2\<rparr>"
      "tracked_allowance S cs2 = (\<lambda>a b. if (a, b) \<in> (\<lambda>(x, y). (ts_address x, ts_address y)) ` set ps \<and>
        A a b = 0 then 0 else tracked_allowance S cs1 a b)"
    using Cons.IH [OF cs1(2), of cs1] Cons.prems(2) by auto
  have "cs2 = cs\<lparr>allowances := allowances cs2\<rparr>"
    by (subst cs2(3), subst cs1(3)) simp
  moreover have "fold_may (refresh_allowance S cur) (xy # ps) (cs, env) = Inr (cs2, env2)"
    using cs1(1) cs2(1) xy by simp
  moreover have "tracked_allowance S cs2 = (\<lambda>a b.
      if (a, b) \<in> (\<lambda>(x, y). (ts_address x, ts_address y)) ` set (xy # ps) \<and> A a b = 0 then 0
      else tracked_allowance S cs a b)"
    using cs1(4) cs2(4) xy by (auto simp: fun_eq_iff)
  ultimately show ?case using cs2(2) by blast
qed

text \<open>
  C35: after time has passed the book forgets every allowance the token reports as zero, expired
  or not, and only those; so \<open>assert_state\<close> cannot tell a lost allowance from an expired one.
\<close>

theorem refresh_forgets:
  assumes "sdk_strings S" "reports P cur nm sb dec B A" "P env"
  shows "\<exists>cs' env'. fold_may (refresh_allowance S cur) (account_pairs cur) (cs, env) = Inr (cs', env') \<and>
    (\<forall>x\<in>set (accounts cur). \<forall>y\<in>set (accounts cur).
      tracked_allowance S cs' (ts_address x) (ts_address y) =
        (if A (ts_address x) (ts_address y) = 0 then 0
         else tracked_allowance S cs (ts_address x) (ts_address y)))"
  using refresh_many [OF assms, of "account_pairs cur" cs]
  by (fastforce simp: account_pairs_def image_iff)

theorem refresh_forgets_witness:
  "\<exists>cs cs' env'. tracked_allowance (ref_sdk quiet_error) cs alice bob = 9 \<and>
    fold_may (refresh_allowance (ref_sdk quiet_error) (demo_cur\<lparr>token_client := empty_client\<rparr>))
      (account_pairs (demo_cur\<lparr>token_client := empty_client\<rparr>)) (cs, demo_idle) = Inr (cs', env') \<and>
    tracked_allowance (ref_sdk quiet_error) cs' alice bob = 0"
proof -
  let ?cur = "demo_cur\<lparr>token_client := empty_client\<rparr>"
  obtain cs where cs: "set_allowance (ref_sdk quiet_error) init alice bob 9 = Inr cs"
    by (simp add: ref_run.set_allowance_Inr)
  then have t: "tracked_allowance (ref_sdk quiet_error) cs alice bob = 9"
    by (simp add: ref_run.set_allowance_Inr tracked_allowance_def)
  have "reports (\<lambda>_. True) ?cur [] [] 0 (\<lambda>_. 0) (\<lambda>_ _. 0)" by (rule empty_client_reports) simp
  from refresh_forgets [OF ref_run.sdk_strings_axioms [of quiet_error] this, of cs demo_idle] t
  show ?thesis by (auto simp: demo_cur_def)
qed

text \<open>
  C6: the verdict on a transaction, once its commands have run and time has advanced. It passes
  exactly when what the token then reports agrees with the book as the commands left it, except
  that an allowance reported as zero agrees with anything: name, symbol, decimals, non-negative
  balances, the sum of the balances, and every allowance that is not reported as zero. Then the
  book forgets exactly the allowances among the accounts that are reported as zero and is
  otherwise as the commands left it. Otherwise the transaction fails with an assertion.
\<close>

theorem transaction_verdict:
  assumes "sdk_strings S"
    and "fold_may (exec_command S tb cur) (commands tx) (budget_reset_unlimited S env, cs, nonce) =
      Inr (env1, cs1, nonce1)"
    and "advance_time S N config env1 tb (advance_ledgers tx) = Inr env2"
    and "current_state_new S config env2 tb gen = Inr cur2"
    and "reports P cur2 nm sb dec B A" "P env2" "length nm < 2 ^ 32" "length sb < 2 ^ 32"
  shows "if name cs1 = nm \<and> symbol cs1 = sb \<and> decimals cs1 = dec \<and>
      (\<forall>x\<in>set (accounts cur2). tracked_balance S cs1 (ts_address x) = sint (B (ts_address x)) \<and>
         0 \<le> sint (B (ts_address x))) \<and>
      (\<forall>x\<in>set (accounts cur2). \<forall>y\<in>set (accounts cur2). A (ts_address x) (ts_address y) = 0 \<or>
         tracked_allowance S cs1 (ts_address x) (ts_address y) = sint (A (ts_address x) (ts_address y))) \<and>
      sum_of_mints cs1 - sum_of_burns cs1 = (\<Sum>x\<leftarrow>accounts cur2. sint (B (ts_address x)))
    then \<exists>env' cs'.
      run_transaction S N config gen tb tx (env, cs, nonce, cur) = Inr (env', cs', nonce1, cur2) \<and> P env' \<and>
      cs' = cs1\<lparr>allowances := allowances cs'\<rparr> \<and>
      (\<forall>a b. tracked_allowance S cs' a b =
        (if a \<in> ts_address ` set (accounts cur2) \<and> b \<in> ts_address ` set (accounts cur2) \<and> A a b = 0
         then 0 else tracked_allowance S cs1 a b))
    else run_transaction S N config gen tb tx (env, cs, nonce, cur) = Inl AssertFailed"
    (is "if ?agrees then _ else _")
proof -
  obtain cs2 env3 where r: "fold_may (refresh_allowance S cur2) (account_pairs cur2) (cs1, env2) = Inr (cs2, env3)"
      "P env3" and cs2: "cs2 = cs1\<lparr>allowances := allowances cs2\<rparr>"
    and al: "tracked_allowance S cs2 = (\<lambda>a b.
      if (a, b) \<in> (\<lambda>(x, y). (ts_address x, ts_address y)) ` set (account_pairs cur2) \<and> A a b = 0
      then 0 else tracked_allowance S cs1 a b)"
    using refresh_many [OF assms(1,5,6), of "account_pairs cur2" cs1] by (auto simp: account_pairs_def)
  have pairs: "(\<lambda>(x, y). (ts_address x, ts_address y)) ` set (account_pairs cur2) =
      ts_address ` set (accounts cur2) \<times> ts_address ` set (accounts cur2)"
    by (auto simp: account_pairs_def)
  have same: "name cs2 = name cs1" "symbol cs2 = symbol cs1" "decimals cs2 = decimals cs1"
      "sum_of_mints cs2 = sum_of_mints cs1" "sum_of_burns cs2 = sum_of_burns cs1"
      "tracked_balance S cs2 = tracked_balance S cs1"
    by (subst cs2, simp add: tracked_balance_def [abs_def])+
  have agrees: "agrees S cs2 cur2 nm sb dec B A \<longleftrightarrow> ?agrees"
    unfolding agrees_def same al pairs by (auto split: if_splits)
  have run: "run_transaction S N config gen tb tx (env, cs, nonce, cur) =
      bnd (assert_state S cs2 cur2 env3) (\<lambda>env. Inr (env, cs2, nonce1, cur2))"
    using assms(2-4) r(1) by (simp add: run_transaction_def)
  have "if ?agrees then \<exists>env'. assert_state S cs2 cur2 env3 = Inr env' \<and> P env'
      else assert_state S cs2 cur2 env3 = Inl AssertFailed"
    using sdk_strings.assert_state_reports [OF assms(1,5,7,8), of cs2] r(2)
    unfolding passes_iff_def agrees by blast
  then show ?thesis
    using run cs2 al pairs by (cases ?agrees) (auto intro!: exI [of _ cs2])
qed

text \<open>
  A transaction on the empty token: a book with an allowance between accounts forgets it, and a
  book with a minting is caught.
\<close>

definition empty_sdk :: "(renv, raddr, u8 list) sdk" where
  "empty_sdk = (ref_sdk quiet_error)\<lparr>client_new := (\<lambda>e a. empty_client)\<rparr>"

lemma empty_sdk_accounts: "sdk_accounts empty_sdk mk_addr"
  using ref_sdk_auth [of quiet_error]
  by (simp add: empty_sdk_def sdk_auth_def sdk_addresses_def sdk_accounts_def sdk_strings_def
      sdk_accounts_axioms_def)

definition wait_tx :: transaction where
  "wait_tx = \<lparr>commands = [], advance_ledgers = 5\<rparr>"

lemma empty_advance:
  "\<exists>env2. advance_time empty_sdk ref_snapshots native demo_idle (sc_string token_sc) 5 = Inr env2"
proof -
  have seq: "ledger_sequence empty_sdk demo_idle = 100"
    by (simp add: empty_sdk_def idle_lookup)
  have "\<exists>e. advance_env ref_snapshots demo_idle 5 = Inr e"
    by (rule ledger_clock.advance_env_ok [OF ref_clock [of quiet_error]])
      (simp_all add: idle_lookup ref_snapshots_def, simp add: demo_idle_def demo_env_def)
  moreover have "address_from_string_bytes empty_sdk e (sc_string token_sc) = Inr token_id" for e
    by (simp add: empty_sdk_def)
  moreover have fuel: "Suc 4 = 5" by simp
  ultimately show ?thesis
    by (auto simp: advance_time_def advance_loop.simps(2) [of 4, unfolded fuel] seq checked_uadd_def checked_usub_def Let_def
        MAX_LEDGERS_TO_ADVANCE_def)
qed

definition wait_account :: raddr where
  "wait_account = ts_address (account_signer empty_sdk mk_addr ref_gen 1)"

lemma empty_current:
  "\<exists>cur2. current_state_new empty_sdk native env2 (sc_string token_sc) ref_gen = Inr cur2 \<and>
    token_client cur2 = empty_client \<and> wait_account \<in> ts_address ` set (accounts cur2)"
  using sdk_accounts.generate_signers_ok [OF empty_sdk_accounts ref_gen_ok, of env2]
  by (simp add: current_state_new_def wait_account_def NUMBER_OF_ADDRESSES_def) (simp add: empty_sdk_def)

theorem transaction_verdict_witness:
  "\<exists>cs env' cs' cur'.
    tracked_allowance empty_sdk cs wait_account wait_account = 9 \<and>
    run_transaction empty_sdk ref_snapshots native ref_gen (sc_string token_sc) wait_tx
      (demo_idle, cs, 0, demo_cur) = Inr (env', cs', 0, cur') \<and>
    tracked_allowance empty_sdk cs' wait_account wait_account = 0 \<and>
    run_transaction empty_sdk ref_snapshots native ref_gen (sc_string token_sc) wait_tx
      (demo_idle, init\<lparr>sum_of_mints := 1\<rparr>, 0, demo_cur) = Inl AssertFailed"
proof -
  have sdk: "sdk_strings empty_sdk" using empty_sdk_accounts by (simp add: sdk_accounts_def)
  obtain env2 where adv: "advance_time empty_sdk ref_snapshots native demo_idle (sc_string token_sc)
      (advance_ledgers wait_tx) = Inr env2"
    using empty_advance by (auto simp: wait_tx_def)
  obtain cur2 where cur2: "current_state_new empty_sdk native env2 (sc_string token_sc) ref_gen = Inr cur2"
      "token_client cur2 = empty_client" "wait_account \<in> ts_address ` set (accounts cur2)"
    using empty_current by blast
  note rep = empty_client_reports [OF cur2(2)]
  have run: "fold_may (exec_command empty_sdk (sc_string token_sc) demo_cur) (commands wait_tx)
      (budget_reset_unlimited empty_sdk demo_idle, cs, 0) = Inr (demo_idle, cs, 0)" for cs
    by (simp add: wait_tx_def empty_sdk_def)
  note verdict = transaction_verdict [OF sdk run adv cur2(1) rep]
  obtain cs where cs: "set_allowance empty_sdk init wait_account wait_account 9 = Inr cs"
    by (simp add: sdk_strings.set_allowance_Inr [OF sdk])
  then have "tracked_allowance empty_sdk cs wait_account wait_account = 9" "tracked_balance empty_sdk cs a = 0"
      "name cs = []" "symbol cs = []" "decimals cs = 0" "sum_of_mints cs = 0" "sum_of_burns cs = 0" for a
    by (auto simp: sdk_strings.set_allowance_Inr [OF sdk] tracked_allowance_def tracked_balance_def init_def)
  moreover from this have "\<exists>env' cs'. run_transaction empty_sdk ref_snapshots native ref_gen (sc_string token_sc)
      wait_tx (demo_idle, cs, 0, demo_cur) = Inr (env', cs', 0, cur2) \<and>
      tracked_allowance empty_sdk cs' wait_account wait_account = 0"
    using verdict [of cs] cur2(3) by (simp add: sum_list_triv) metis
  moreover have "run_transaction empty_sdk ref_snapshots native ref_gen (sc_string token_sc) wait_tx
      (demo_idle, init\<lparr>sum_of_mints := 1\<rparr>, 0, demo_cur) = Inl AssertFailed"
    using verdict [of "init\<lparr>sum_of_mints := 1\<rparr>"] by (simp add: init_def sum_list_triv)
  ultimately show ?thesis by blast
qed

end
