(* ===== verification/Setup_Props.thy ===== *)
theory Setup_Props
  imports Demo
begin

text \<open>
  Properties of the parts around the commands: the book's operations, the generated accounts,
  their ledger entries, the authorizations of a command, and the clock.
\<close>

section \<open>The book\<close>



text \<open>
  C37: an allowance is read back as it was set or reduced, and setting or reducing it touches no
  other allowance and no balance.
\<close>

theorem allowance_read_back:
  assumes "sdk_strings S" "sub_allowance S cs f s n = Inr cs'"
  shows "(\<exists>w. get_allowance S cs' f s = Inr w \<and> sint w = tracked_allowance S cs f s - sint n) \<and>
    (\<forall>f' s'. (f', s') \<noteq> (f, s) \<longrightarrow> tracked_allowance S cs' f' s' = tracked_allowance S cs f' s') \<and>
    tracked_balance S cs' = tracked_balance S cs"
proof -
  obtain v where v: "sint v = tracked_allowance S cs f s - sint n" "0 \<le> sint v"
      "cs' = cs\<lparr>allowances := (allowances cs)((address_to_string S f, address_to_string S s) \<mapsto> v)\<rparr>"
    using assms(2) by (auto simp: sdk_strings.sub_allowance_Inr [OF assms(1)])
  then have t: "tracked_allowance S cs' =
      (tracked_allowance S cs)(f := (tracked_allowance S cs f)(s := sint v))"
    using sdk_strings.tracked_allowance_put [OF assms(1)] by simp
  have "get_allowance S cs' f s = Inr v"
    using t by (simp add: sdk_strings.get_allowance_Inr [OF assms(1)])
  with v(1,3) t show ?thesis by auto
qed

theorem allowance_read_back_witness:
  "\<exists>cs cs' w. sub_allowance (ref_sdk quiet_error) cs alice bob 4 = Inr cs' \<and>
    get_allowance (ref_sdk quiet_error) cs' alice bob = Inr w \<and> sint w = 5"
proof -
  obtain cs where cs: "set_allowance (ref_sdk quiet_error) init alice bob 9 = Inr cs"
    by (simp add: ref_run.set_allowance_Inr)
  then have t: "tracked_allowance (ref_sdk quiet_error) cs alice bob = 9"
    by (simp add: ref_run.set_allowance_Inr tracked_allowance_def)
  have "\<exists>cs'. sub_allowance (ref_sdk quiet_error) cs alice bob 4 = Inr cs'"
    unfolding ref_run.sub_allowance_Inr by (rule exI, rule exI [of _ 5]) (simp add: t)
  then obtain cs' where s: "sub_allowance (ref_sdk quiet_error) cs alice bob 4 = Inr cs'" ..
  from allowance_read_back [OF ref_run.sdk_strings_axioms s] t s show ?thesis by force
qed

section \<open>Accounts\<close>

text \<open>
  C29: the accounts of a run. If the seeds of all accounts fit \<open>u64\<close>, \<open>generate_signers\<close> returns one
  signer per account: a contract account has the address of the contract hash made of 24 zero
  bytes and its seed and has no key, another account has the key made of these bytes and the
  address of its public key. No two of them have the same address, unless the public keys of two
  different seeds are the same. If a seed does not fit, \<open>generate_signers\<close> panics.
\<close>

theorem signers_generated:
  assumes "sdk_accounts S addr_of" "length (address_types gen) = NUMBER_OF_ADDRESSES"
    and "bytes = (\<lambda>i. replicate 24 0 @ to_be_bytes (address_seed gen + of_nat i))"
    and "key = (\<lambda>i. signing_key_from_bytes S (bytes i))"
  shows "(unat (address_seed gen) + NUMBER_OF_ADDRESSES \<le> 2 ^ 64 \<longrightarrow>
      (\<exists>signers. generate_signers S gen env = Inr signers \<and> length signers = NUMBER_OF_ADDRESSES \<and>
        (\<forall>i<NUMBER_OF_ADDRESSES. case address_types gen ! i of
            Contract \<Rightarrow> ts_key (signers ! i) = None \<and>
              sc_address_try_from S (ts_address (signers ! i)) = Some (ScContract (bytes i))
          | Account \<Rightarrow> ts_key (signers ! i) = Some (key i) \<and>
              sc_address_try_from S (ts_address (signers ! i)) =
                Some (ScAccount (AccountId (verifying_key S (key i))))) \<and>
        (\<forall>i<NUMBER_OF_ADDRESSES. \<forall>j<i. ts_address (signers ! i) = ts_address (signers ! j) \<longrightarrow>
          address_types gen ! i = Account \<and> address_types gen ! j = Account \<and>
          verifying_key S (key i) = verifying_key S (key j)))) \<and>
    (2 ^ 64 < unat (address_seed gen) + NUMBER_OF_ADDRESSES \<longrightarrow>
      generate_signers S gen env = Inl (Expect ''Overflow''))"
proof (intro conjI impI)
  assume fit: "unat (address_seed gen) + NUMBER_OF_ADDRESSES \<le> 2 ^ 64"
  let ?signers = "map (account_signer S addr_of gen) [0..<NUMBER_OF_ADDRESSES]"
  have bytes: "bytes i = signer_bytes (account_seed gen i)" for i
    by (simp add: assms(3) signer_bytes_def account_seed_def)
  have key: "key i = signing_key_from_bytes S (signer_bytes (account_seed gen i))" for i
    by (simp add: assms(4) bytes)
  show "\<exists>signers. generate_signers S gen env = Inr signers \<and> length signers = NUMBER_OF_ADDRESSES \<and>
      (\<forall>i<NUMBER_OF_ADDRESSES. case address_types gen ! i of
          Contract \<Rightarrow> ts_key (signers ! i) = None \<and>
            sc_address_try_from S (ts_address (signers ! i)) = Some (ScContract (bytes i))
        | Account \<Rightarrow> ts_key (signers ! i) = Some (key i) \<and>
            sc_address_try_from S (ts_address (signers ! i)) =
              Some (ScAccount (AccountId (verifying_key S (key i))))) \<and>
      (\<forall>i<NUMBER_OF_ADDRESSES. \<forall>j<i. ts_address (signers ! i) = ts_address (signers ! j) \<longrightarrow>
        address_types gen ! i = Account \<and> address_types gen ! j = Account \<and>
        verifying_key S (key i) = verifying_key S (key j))"
  proof (intro exI [of _ ?signers] conjI allI impI)
    show "generate_signers S gen env = Inr ?signers"
      by (rule sdk_accounts.generate_signers_fit [OF assms(1) fit assms(2)])
  next
    fix i
    assume "i < NUMBER_OF_ADDRESSES"
    then have "?signers ! i = account_signer S addr_of gen i" by simp
    then show "case address_types gen ! i of
          Contract \<Rightarrow> ts_key (?signers ! i) = None \<and>
            sc_address_try_from S (ts_address (?signers ! i)) = Some (ScContract (bytes i))
        | Account \<Rightarrow> ts_key (?signers ! i) = Some (key i) \<and>
            sc_address_try_from S (ts_address (?signers ! i)) =
              Some (ScAccount (AccountId (verifying_key S (key i))))"
      using sdk_accounts.signer_shape [OF assms(1), of gen i]
      unfolding bytes key Let_def by (simp only:)
  qed (use sdk_accounts.signers_apart [OF assms(1) fit] in \<open>simp_all add: key\<close>)
next
  assume "2 ^ 64 < unat (address_seed gen) + NUMBER_OF_ADDRESSES"
  then show "generate_signers S gen env = Inl (Expect ''Overflow'')"
    by (rule sdk_accounts.generate_signers_overflow [OF assms(1) _ assms(2)])
qed

lemma ref_accounts: "sdk_accounts (ref_sdk err) mk_addr"
  using ref_sdk_auth by (simp add: sdk_auth_def sdk_addresses_def)

theorem signers_generated_witness:
  "(\<exists>signers. generate_signers (ref_sdk quiet_error) ref_gen demo_idle = Inr signers \<and>
    length signers = 3 \<and> ts_key (signers ! 1) = None) \<and>
   generate_signers (ref_sdk quiet_error) (ref_gen\<lparr>address_seed := - 2\<rparr>) demo_idle =
     Inl (Expect ''Overflow'')"
proof
  note gen = signers_generated [OF ref_accounts _ refl refl]
  show "\<exists>signers. generate_signers (ref_sdk quiet_error) ref_gen demo_idle = Inr signers \<and>
    length signers = 3 \<and> ts_key (signers ! 1) = None"
    using gen [of ref_gen quiet_error demo_idle]
    by (auto simp: ref_gen_def NUMBER_OF_ADDRESSES_def dest!: spec [of _ "1 :: nat"])
  show "generate_signers (ref_sdk quiet_error) (ref_gen\<lparr>address_seed := - 2\<rparr>) demo_idle =
     Inl (Expect ''Overflow'')"
    using gen [of "ref_gen\<lparr>address_seed := - 2\<rparr>" quiet_error demo_idle]
    by (simp add: ref_gen_def NUMBER_OF_ADDRESSES_def)
qed

text \<open>
  C30: the setup puts, for every account that is no contract and for no other, one account entry
  with its key as signer and one trust line, in the order of the accounts.
\<close>

theorem account_storage:
  assumes "sdk_accounts S addr_of" "generator_ok gen"
  shows "setup_account_storage S gen env =
    fold_may (\<lambda>ke env. put_entry S env ke)
      (concat (map (account_puts S gen) [0..<NUMBER_OF_ADDRESSES])) env"
  by (rule sdk_accounts.setup_account_storage_ok [OF assms])

theorem account_storage_witness:
  "setup_account_storage (ref_sdk quiet_error) ref_gen demo_idle =
    fold_may (\<lambda>ke env. put_entry (ref_sdk quiet_error) env ke)
      (account_puts (ref_sdk quiet_error) ref_gen 0 @ account_puts (ref_sdk quiet_error) ref_gen 2) demo_idle"
  using account_storage [OF ref_accounts [of quiet_error] ref_gen_ok, of demo_idle]
  by (simp add: NUMBER_OF_ADDRESSES_def upt_rec account_puts_def [of _ _ "Suc 0"] account_sc_def
      ref_gen_def numeral_2_eq_2)

section \<open>Authorization\<close>

text \<open>
  C28: the authorizations of a command are exactly one entry for each flagged account, in order,
  for the invocation of that function with those arguments on the token, with consecutive
  nonces, signed with the account's key unless it is a contract, and valid for the longest
  lifetime an entry can have; no conversion on the way fails. Before, the mock contract is
  registered at exactly the flagged contract accounts, in order.
\<close>

theorem command_authorizations:
  assumes "sdk_auth S addr_of xdr" "generator_ok gen" "length auths = NUMBER_OF_ADDRESSES"
    and "length fn_name \<le> 32" "length fn_args < 2 ^ 32"
    and "0 \<le> sint nonce" "sint nonce + int NUMBER_OF_ADDRESSES < 2 ^ 63"
    and "0 < unat (max_entry_ttl S env)"
    and "unat (ledger_sequence S env) + unat (max_entry_ttl S env) < 2 ^ 32"
    and "sc_address_try_from S token = Some tsc"
  shows "\<exists>es.
    mock_auths_for_command S env fn_name auths
      (map (account_signer S addr_of gen) [0..<NUMBER_OF_ADDRESSES])
      (address_to_string S token) nonce fn_args =
      Inr (set_auths S (fold (\<lambda>i env. register_mock_auth_contract S env (addr_of (account_sc S gen i)))
          (filter (\<lambda>i. auths ! i \<and> address_types gen ! i = Contract) [0..<NUMBER_OF_ADDRESSES]) env) es,
        nonce + of_nat (length es)) \<and>
    entries_for S xdr env (command_invocation tsc fn_name fn_args)
      (ledger_sequence S env + max_entry_ttl S env - 1)
      (authorized_accounts S addr_of gen auths NUMBER_OF_ADDRESSES) nonce es"
  using sdk_auth.mock_auths_for_command_ok [OF assms] unfolding registered_def by blast

theorem command_authorizations_witness:
  "\<exists>es.
    mock_auths_for_command (ref_sdk quiet_error) demo_idle ''burn'' [True, False, True]
      (map (account_signer (ref_sdk quiet_error) mk_addr ref_gen) [0..<NUMBER_OF_ADDRESSES])
      (address_to_string (ref_sdk quiet_error) token_id) 4 [I128Val 3] =
      Inr (set_auths (ref_sdk quiet_error) demo_idle es, 4 + of_nat (length es)) \<and> length es = 2"
proof -
  have none: "filter (\<lambda>i. [True, False, True] ! i \<and> address_types ref_gen ! i = Contract)
      [0..<NUMBER_OF_ADDRESSES] = []"
    by (simp add: ref_gen_def NUMBER_OF_ADDRESSES_def upt_rec)
  have two: "length (authorized_accounts (ref_sdk quiet_error) mk_addr ref_gen [True, False, True]
      NUMBER_OF_ADDRESSES) = 2"
    by (simp add: authorized_accounts_def NUMBER_OF_ADDRESSES_def upt_rec)
  show ?thesis
    using command_authorizations [OF ref_sdk_auth [of quiet_error] ref_gen_ok,
        of "[True, False, True]" "''burn''" "[I128Val 3]" 4 demo_idle token_id token_sc] two none
    by (force simp: NUMBER_OF_ADDRESSES_def max_ttl_def idle_lookup entries_for_def)
qed

section \<open>The clock\<close>

text \<open>
  C32: advancing the \<open>Env\<close> by \<open>l\<close> ledgers moves its sequence number by \<open>l\<close> and its timestamp by five
  seconds a ledger, and works exactly when both fit.
\<close>

theorem advance_env_exact:
  assumes "ledger_clock S N"
  shows "((\<exists>e'. advance_env N e l = Inr e') \<longleftrightarrow>
      unat (ledger_sequence S e) + unat l < 2 ^ 32 \<and>
      unat (timestamp (to_snapshot N e)) + 5 * unat l < 2 ^ 64) \<and>
    (\<forall>e'. advance_env N e l = Inr e' \<longrightarrow>
      unat (ledger_sequence S e') = unat (ledger_sequence S e) + unat l \<and>
      unat (timestamp (to_snapshot N e')) = unat (timestamp (to_snapshot N e)) + 5 * unat l)"
proof -
  have eff: "unat (ledger_sequence S e') = unat (ledger_sequence S e) + unat l"
    "unat (timestamp (to_snapshot N e')) = unat (timestamp (to_snapshot N e)) + 5 * unat l"
    if "advance_env N e l = Inr e'" for e'
    by (rule ledger_clock.advance_env_Inr [OF assms that]; simp add: clock_def)+
  have "unat (ledger_sequence S e) + unat l < 2 ^ 32 \<and>
      unat (timestamp (to_snapshot N e)) + 5 * unat l < 2 ^ 64"
    if "advance_env N e l = Inr e'" for e'
    using eff [OF that] unsigned_less [of "ledger_sequence S e'", where ?'a = nat]
      unsigned_less [of "timestamp (to_snapshot N e')", where ?'a = nat] by simp
  with eff show ?thesis using ledger_clock.advance_env_ok [OF assms] by blast
qed

theorem advance_env_exact_witness:
  "\<exists>e'. advance_env ref_snapshots demo_idle 10 = Inr e' \<and> unat (re_seq e') = 110"
proof -
  have "unat (ledger_sequence (ref_sdk quiet_error) demo_idle) + unat (10 :: u32) < 2 ^ 32 \<and>
      unat (timestamp (to_snapshot ref_snapshots demo_idle)) + 5 * unat (10 :: u32) < 2 ^ 64"
    by (simp add: idle_lookup ref_snapshots_def) (simp add: demo_idle_def demo_env_def)
  then show ?thesis
    using advance_env_exact [OF ref_clock [of quiet_error], of demo_idle 10]
    by (auto simp: idle_lookup)
qed

text \<open>
  C31: the loop of \<open>advance_time\<close> ends, exactly at the requested ledger and time, on a token that
  outlives the advance if it is pinged at least every \<open>MAX_LEDGERS_TO_ADVANCE\<close> ledgers.
\<close>

theorem advance_time_exact:
  assumes "token_clock S N config token_bytes up lasts ages" "lasts n e"
    and "0 < unat ledgers" "unat ledgers \<le> n"
    and "unat (ledger_sequence S e) + unat ledgers + 4094 < 2 ^ 32"
    and "unat (timestamp (to_snapshot N e)) + 5 * unat ledgers < 2 ^ 64"
  shows "\<exists>e'. advance_time S N config e token_bytes ledgers = Inr e' \<and>
    unat (ledger_sequence S e') = unat (ledger_sequence S e) + unat ledgers \<and>
    unat (timestamp (to_snapshot N e')) = unat (timestamp (to_snapshot N e)) + 5 * unat ledgers \<and>
    up (n - unat ledgers) e' \<and> ages e e'"
  by (rule token_clock.advance_time_ok [OF assms])

text \<open>The \<open>Env\<close> in which a run on the reference model starts.\<close>

lemma ref_start:
  obtains e where "example_good ref_good ref_view (account_addr (ref_sdk err) mk_addr ref_gen 0) e"
    "ref_run.example.long_lived err 17280 e" "4095 \<le> example_life ref_view e None"
    "re_seq e = 0" "re_time e = 0"
proof -
  obtain st where "ref_run.example.run_inv err
      (clock (ref_sdk err) ref_snapshots (env_default (ref_sdk err))) 0 st"
    by (rule ref_run.example.setup_run_sound)
  then obtain e cs nonce where "ref_run.example.exec_inv err (0, 0) 0 (e, cs, nonce)"
    by (cases st) (auto simp: ref_run.example.run_inv_def)
  then show ?thesis
    by (intro that [of e]) (simp_all add: ref_run.example.exec_inv_def)
qed

theorem advance_time_exact_witness:
  "\<exists>e e'. advance_time (ref_sdk quiet_error) ref_snapshots
      (contract (TokenOps (ref_example_sdk quiet_error))) e
      (address_to_string (ref_sdk quiet_error) token_id) 17280 = Inr e' \<and> unat (re_seq e') = 17280"
proof -
  obtain e where e: "example_good ref_good ref_view (account_addr (ref_sdk quiet_error) mk_addr ref_gen 0) e"
    "ref_run.example.long_lived quiet_error 17280 e" "4095 \<le> example_life ref_view e None"
    "re_seq e = 0" "re_time e = 0"
    by (rule ref_start)
  have "timestamp (to_snapshot ref_snapshots e) = 0" using e(5) by (simp add: ref_snapshots_def)
  with e advance_time_exact [OF ref_run.example.run_clock.token_clock_axioms [of quiet_error],
      of 17280 e 17280] show ?thesis
    by (auto simp del: ref_sdk_more_simps)
qed

text \<open>
  C34: within \<open>MAX_LEDGERS_TO_ADVANCE\<close> of the last ledger, \<open>advance_time\<close> panics even if the
  requested ledger exists: it computes the largest next step before limiting it.
\<close>

theorem advance_time_end_of_time:
  assumes "0 < unat ledgers" "unat (ledger_sequence S e) + unat ledgers < 2 ^ 32"
    and "2 ^ 32 \<le> unat (ledger_sequence S e) + 4095"
  shows "advance_time S N config e token_bytes ledgers = Inl (Expect ''end of time'')"
proof -
  let ?curr = "ledger_sequence S e"
  have add: "checked_uadd ?curr ledgers = Some (?curr + ledgers)"
    using assms(2) by (simp add: checked_uadd_def)
  then have "unat (?curr + ledgers) = unat ?curr + unat ledgers" by (simp only: checked_uadd_Some)
  then have lt: "?curr < ?curr + ledgers" using assms(1) by (simp add: word_less_nat_alt)
  have none: "checked_uadd ?curr MAX_LEDGERS_TO_ADVANCE = None"
    using assms(3) by (simp add: checked_uadd_def MAX_LEDGERS_TO_ADVANCE_def)
  obtain fuel where "max 1 (unat ledgers) = Suc fuel" by (cases "max 1 (unat ledgers)") auto
  then show ?thesis using lt by (simp add: advance_time_def add none Let_def)
qed

theorem advance_time_end_of_time_witness:
  "advance_time (ref_sdk quiet_error) ref_snapshots native (demo_idle\<lparr>re_seq := - 10\<rparr>)
      (sc_string token_sc) 5 = Inl (Expect ''end of time'')"
  by (rule advance_time_end_of_time) simp_all

lemma sum_word:
  fixes a b c :: "'w::len word"
  shows "unat c = unat a + unat b \<Longrightarrow> c = a + b"
  using checked_uadd_Some [of a b c] by (simp add: checked_uadd_def split: if_splits)

text \<open>
  C33: advancing a snapshot in steps, purging it at each, gives what advancing it at once gives. Of
  the entries exactly those survive, in their order, that have no expiration or do not expire
  before the new ledger, and nothing else of the snapshot changes but the clock.
\<close>

theorem purge_in_steps:
  assumes "advance_snapshot s l t = Inr s1" "advance_snapshot s1 l' t' = Inr s2"
  shows "advance_snapshot s (l + l') (t + t') = Inr s2 \<and>
    s2 = s\<lparr>sequence_number := sequence_number s + l + l', timestamp := timestamp s + t + t',
      ledger_entries := filter (\<lambda>(k, v, x). x = None \<or>
        (\<exists>q. x = Some q \<and> unat (sequence_number s) + unat l + unat l' \<le> unat q)) (ledger_entries s)\<rparr>"
proof -
  obtain q ti where s1: "unat q = unat (sequence_number s) + unat l" "unat ti = unat (timestamp s) + unat t"
      "s1 = purge_expired_entries (s\<lparr>sequence_number := q, timestamp := ti\<rparr>)"
    using assms(1) by (auto simp: advance_snapshot_Inr)
  obtain q' ti' where s2: "unat q' = unat q + unat l'" "unat ti' = unat ti + unat t'"
      "s2 = purge_expired_entries (s1\<lparr>sequence_number := q', timestamp := ti'\<rparr>)"
    using assms(2) s1(3) by (auto simp: advance_snapshot_Inr)
  have later: "expired q x \<Longrightarrow> expired q' x" for x :: "'a \<times> 'b \<times> u32 option"
    using s2(1) by (auto simp: expired_def word_less_nat_alt split: option.splits)
  have once: "s2 = purge_expired_entries (s\<lparr>sequence_number := q', timestamp := ti'\<rparr>)"
    unfolding s2(3) s1(3) purge_eq using later by (simp cong: filter_cong)
      (metis (mono_tags, lifting) filter_cong)
  have "unat (l + l') = unat l + unat l'" "unat (t + t') = unat t + unat t'"
    using s1(1,2) s2(1,2) unsigned_less [of q', where ?'a = nat] unsigned_less [of ti', where ?'a = nat]
    by (simp_all add: unat_plus_if_size word_size)
  then have "advance_snapshot s (l + l') (t + t') = Inr s2"
    using once s1(1,2) s2(1,2) by (auto simp: advance_snapshot_Inr intro!: exI [of _ q'] exI [of _ ti'])
  moreover have "q' = sequence_number s + l + l'" "ti' = timestamp s + t + t'"
    using sum_word [OF s1(1)] sum_word [OF s1(2)] sum_word [OF s2(1)] sum_word [OF s2(2)] by simp_all
  moreover have "\<not> expired q' x \<longleftrightarrow> snd (snd x) = None \<or> (\<exists>q. snd (snd x) = Some q \<and>
      unat (sequence_number s) + unat l + unat l' \<le> unat q)" for x :: "'a \<times> 'b \<times> u32 option"
    using s1(1) s2(1) by (auto simp: expired_def word_less_nat_alt split: option.splits)
  ultimately show ?thesis using once by (simp add: purge_eq case_prod_unfold)
qed

theorem purge_in_steps_witness:
  "\<exists>s1 s2. advance_snapshot (to_snapshot ref_snapshots demo_idle) 50 250 = Inr s1 \<and>
    advance_snapshot s1 100 500 = Inr s2 \<and> length (ledger_entries s1) = 3 \<and> length (ledger_entries s2) = 2 \<and>
    advance_snapshot (to_snapshot ref_snapshots demo_idle) 150 750 = Inr s2"
proof -
  let ?s = "to_snapshot ref_snapshots demo_idle"
  obtain s1 where s1: "advance_snapshot ?s 50 250 = Inr s1" "length (ledger_entries s1) = 3"
    by (simp add: advance_snapshot_def checked_uadd_def Let_def expired_def ref_snapshots_def
        demo_idle_def demo_env_def demo_entries_def)
  obtain s2 where s2: "advance_snapshot s1 100 500 = Inr s2"
    using s1 by (auto simp: advance_snapshot_def checked_uadd_def Let_def ref_snapshots_def
        demo_idle_def demo_env_def)
  note p = purge_in_steps [OF s1(1) s2]
  then have "length (ledger_entries s2) = 2"
    by (simp add: ref_snapshots_def demo_idle_def demo_env_def demo_entries_def)
  with s1 s2 p show ?thesis by auto
qed

end
