(* ===== verification/Arbitrary.thy ===== *)
theory Arbitrary
  imports Input
begin

text \<open>
  The generation of inputs: the closures of the \<open>#[arbitrary(with = ...)]\<close> attributes of
  src/input.rs and src/addrgen.rs, and the structs that are generated from them field by field,
  in the order of their declaration (an error of a field is the error of the struct). The
  functions of the \<open>arbitrary\<close> crate are the dictionary \<open>unstructured\<close>; the locale
  \<open>unstructured_laws\<close> states what is relied on: a number drawn from a range lies in it, and the
  elements of a generated vector come from the generator of its elements. The lemmas show that
  every generated input is well formed.
\<close>

datatype arbitrary_error = EmptyChoose | NotEnoughData | IncorrectFormat

type_synonym ('a, 'u) generator = "'u \<Rightarrow> ('a, arbitrary_error) result \<times> 'u"

text \<open>
  \<open>int_in_range\<close> at the types it is used at, \<open>ratio\<close>, the array of address types, the choice of one
  of \<open>n\<close> variants of an enum, and the vectors of commands and of transactions.
\<close>

record 'u unstructured =
  range_i128 :: "i128 \<Rightarrow> i128 \<Rightarrow> (i128, 'u) generator"
  range_u32 :: "u32 \<Rightarrow> u32 \<Rightarrow> (u32, 'u) generator"
  range_u64 :: "u64 \<Rightarrow> u64 \<Rightarrow> (u64, 'u) generator"
  range_usize :: "nat \<Rightarrow> nat \<Rightarrow> (nat, 'u) generator"
  ratio :: "u8 \<Rightarrow> u8 \<Rightarrow> (bool, 'u) generator"
  address_type_array :: "nat \<Rightarrow> (address_type list, 'u) generator"
  variant :: "nat \<Rightarrow> (nat, 'u) generator"
  command_vec :: "(command, 'u) generator \<Rightarrow> (command list, 'u) generator"
  transaction_vec :: "(transaction, 'u) generator \<Rightarrow> (transaction list, 'u) generator"

definition gbind :: "('a, 'u) generator \<Rightarrow> ('a \<Rightarrow> ('b, 'u) generator) \<Rightarrow> ('b, 'u) generator" where
  "gbind m f u = (case m u of (Ok a, u) \<Rightarrow> f a u | (Err e, u) \<Rightarrow> (Err e, u))"

definition gret :: "'a \<Rightarrow> ('a, 'u) generator" where
  "gret a u = (Ok a, u)"

lemma gbind_Ok: "gbind m f u = (Ok b, u') \<longleftrightarrow> (\<exists>a u1. m u = (Ok a, u1) \<and> f a u1 = (Ok b, u'))"
  by (auto simp: gbind_def split: prod.splits result.splits)

lemma gret_Ok [simp]: "gret a u = (Ok b, u') \<longleftrightarrow> b = a \<and> u' = u"
  by (auto simp: gret_def)

section \<open>The closures\<close>

definition arbitrary_amount :: "'u unstructured \<Rightarrow> (i128, 'u) generator" where
  "arbitrary_amount U = range_i128 U (- (2 ^ 127)) (2 ^ 127 - 1)"

definition arbitrary_account_index :: "'u unstructured \<Rightarrow> (nat, 'u) generator" where
  "arbitrary_account_index U = range_usize U 0 (NUMBER_OF_ADDRESSES - 1)"

definition arbitrary_expiration :: "'u unstructured \<Rightarrow> (u32, 'u) generator" where
  "arbitrary_expiration U = range_u32 U 0 (DAY_IN_LEDGERS * 30)"

definition arbitrary_advance_ledgers :: "'u unstructured \<Rightarrow> (u32, 'u) generator" where
  "arbitrary_advance_ledgers U = range_u32 U 1 DAY_IN_LEDGERS"

definition arbitrary_address_seed :: "'u unstructured \<Rightarrow> (u64, 'u) generator" where
  "arbitrary_address_seed U = range_u64 U 0 (- 1 - of_nat NUMBER_OF_ADDRESSES)"

text \<open>The biased flags: a failing \<open>ratio\<close> counts as an authorization.\<close>

fun biased_auths :: "'u unstructured \<Rightarrow> nat \<Rightarrow> 'u \<Rightarrow> bool list \<times> 'u" where
  "biased_auths U 0 u = ([], u)"
| "biased_auths U (Suc n) u =
     (let (r, u) = ratio U 9 10 u;
          b = (case r of Ok b \<Rightarrow> b | Err _ \<Rightarrow> True);
          (bs, u) = biased_auths U n u
      in (b # bs, u))"

definition arbitrary_auths :: "'u unstructured \<Rightarrow> (bool list, 'u) generator" where
  "arbitrary_auths U u = (let (bs, u) = biased_auths U NUMBER_OF_ADDRESSES u in (Ok bs, u))"

lemma length_biased_auths [simp]: "length (fst (biased_auths U n u)) = n"
  by (induction n arbitrary: u) (simp_all add: case_prod_unfold Let_def)

lemma arbitrary_auths_ok: "arbitrary_auths U u = (Ok bs, u') \<Longrightarrow> auths_ok bs"
  using length_biased_auths [of U NUMBER_OF_ADDRESSES u]
  by (auto simp: arbitrary_auths_def auths_ok_def case_prod_unfold Let_def simp del: length_biased_auths)

section \<open>The structs\<close>

definition arbitrary_mint_input :: "'u unstructured \<Rightarrow> (mint_input, 'u) generator" where
  "arbitrary_mint_input U =
     gbind (arbitrary_amount U) (\<lambda>amount.
     gbind (arbitrary_account_index U) (\<lambda>to.
     gbind (arbitrary_auths U) (\<lambda>auths.
     gret \<lparr>mint_amount = amount, mint_to_account_index = to,
       mint_auths = auths\<rparr>)))"

definition arbitrary_approve_input :: "'u unstructured \<Rightarrow> (approve_input, 'u) generator" where
  "arbitrary_approve_input U =
     gbind (arbitrary_amount U) (\<lambda>amount.
     gbind (arbitrary_expiration U) (\<lambda>expiration.
     gbind (arbitrary_account_index U) (\<lambda>from.
     gbind (arbitrary_account_index U) (\<lambda>spender.
     gbind (arbitrary_auths U) (\<lambda>auths.
     gret \<lparr>approve_amount = amount, approve_expiration_ledger = expiration,
       approve_from_account_index = from, approve_spender_account_index = spender,
       approve_auths = auths\<rparr>)))))"

definition arbitrary_transfer_from_input :: "'u unstructured \<Rightarrow> (transfer_from_input, 'u) generator" where
  "arbitrary_transfer_from_input U =
     gbind (arbitrary_amount U) (\<lambda>amount.
     gbind (arbitrary_account_index U) (\<lambda>spender.
     gbind (arbitrary_account_index U) (\<lambda>from.
     gbind (arbitrary_account_index U) (\<lambda>to.
     gbind (arbitrary_auths U) (\<lambda>auths.
     gret \<lparr>tf_amount = amount, tf_spender_account_index = spender,
       tf_from_account_index = from, tf_to_account_index = to,
       tf_auths = auths\<rparr>)))))"

definition arbitrary_transfer_input :: "'u unstructured \<Rightarrow> (transfer_input, 'u) generator" where
  "arbitrary_transfer_input U =
     gbind (arbitrary_amount U) (\<lambda>amount.
     gbind (arbitrary_account_index U) (\<lambda>from.
     gbind (arbitrary_account_index U) (\<lambda>to.
     gbind (arbitrary_auths U) (\<lambda>auths.
     gret \<lparr>tr_amount = amount, tr_from_account_index = from,
       tr_to_account_index = to, tr_auths = auths\<rparr>))))"

definition arbitrary_burn_from_input :: "'u unstructured \<Rightarrow> (burn_from_input, 'u) generator" where
  "arbitrary_burn_from_input U =
     gbind (arbitrary_amount U) (\<lambda>amount.
     gbind (arbitrary_account_index U) (\<lambda>spender.
     gbind (arbitrary_account_index U) (\<lambda>from.
     gbind (arbitrary_auths U) (\<lambda>auths.
     gret \<lparr>bf_amount = amount, bf_spender_account_index = spender,
       bf_from_account_index = from, bf_auths = auths\<rparr>))))"

definition arbitrary_burn_input :: "'u unstructured \<Rightarrow> (burn_input, 'u) generator" where
  "arbitrary_burn_input U =
     gbind (arbitrary_amount U) (\<lambda>amount.
     gbind (arbitrary_account_index U) (\<lambda>from.
     gbind (arbitrary_auths U) (\<lambda>auths.
     gret \<lparr>burn_amount = amount, burn_from_account_index = from,
       burn_auths = auths\<rparr>)))"

definition arbitrary_approve_and_transfer_from_input :: "'u unstructured \<Rightarrow> (approve_and_transfer_from_input, 'u) generator" where
  "arbitrary_approve_and_transfer_from_input U =
     gbind (arbitrary_amount U) (\<lambda>amount.
     gbind (arbitrary_expiration U) (\<lambda>expiration.
     gbind (arbitrary_account_index U) (\<lambda>from.
     gbind (arbitrary_account_index U) (\<lambda>spender.
     gbind (arbitrary_account_index U) (\<lambda>to.
     gbind (arbitrary_auths U) (\<lambda>auths.
     gret \<lparr>atf_amount = amount, atf_expiration_ledger = expiration,
       atf_from_account_index = from, atf_spender_account_index = spender,
       atf_to_account_index = to, atf_auths = auths\<rparr>))))))"

definition arbitrary_approve_and_burn_from_input :: "'u unstructured \<Rightarrow> (approve_and_burn_from_input, 'u) generator" where
  "arbitrary_approve_and_burn_from_input U =
     gbind (arbitrary_amount U) (\<lambda>amount.
     gbind (arbitrary_expiration U) (\<lambda>expiration.
     gbind (arbitrary_account_index U) (\<lambda>from.
     gbind (arbitrary_account_index U) (\<lambda>spender.
     gbind (arbitrary_account_index U) (\<lambda>to.
     gbind (arbitrary_auths U) (\<lambda>auths.
     gret \<lparr>abf_amount = amount, abf_expiration_ledger = expiration,
       abf_from_account_index = from, abf_spender_account_index = spender,
       abf_to_account_index = to, abf_auths = auths\<rparr>))))))"

definition arbitrary_address_generator :: "'u unstructured \<Rightarrow> (address_generator, 'u) generator" where
  "arbitrary_address_generator U =
     gbind (arbitrary_address_seed U) (\<lambda>seed.
     gbind (address_type_array U NUMBER_OF_ADDRESSES) (\<lambda>types.
     gret \<lparr>address_seed = seed, address_types = types\<rparr>))"

text \<open>An enum: the number of a variant, then its field. Numbers from 7 on stand for the last one.\<close>

definition arbitrary_command :: "'u unstructured \<Rightarrow> (command, 'u) generator" where
  "arbitrary_command U =
     gbind (variant U 8) (\<lambda>k.
       if k = 0 then gbind (arbitrary_mint_input U) (\<lambda>i. gret (Mint i))
       else if k = 1 then gbind (arbitrary_approve_input U) (\<lambda>i. gret (Approve i))
       else if k = 2 then gbind (arbitrary_transfer_from_input U) (\<lambda>i. gret (TransferFrom i))
       else if k = 3 then gbind (arbitrary_transfer_input U) (\<lambda>i. gret (Transfer i))
       else if k = 4 then gbind (arbitrary_burn_from_input U) (\<lambda>i. gret (BurnFrom i))
       else if k = 5 then gbind (arbitrary_burn_input U) (\<lambda>i. gret (Burn i))
       else if k = 6 then
         gbind (arbitrary_approve_and_transfer_from_input U) (\<lambda>i. gret (ApproveAndTransferFrom i))
       else gbind (arbitrary_approve_and_burn_from_input U) (\<lambda>i. gret (ApproveAndBurnFrom i)))"

definition arbitrary_transaction :: "'u unstructured \<Rightarrow> (transaction, 'u) generator" where
  "arbitrary_transaction U =
     gbind (command_vec U (arbitrary_command U)) (\<lambda>cmds.
     gbind (arbitrary_advance_ledgers U) (\<lambda>l.
     gret \<lparr>commands = cmds, advance_ledgers = l\<rparr>))"

definition arbitrary_input :: "'u unstructured \<Rightarrow> (input, 'u) generator" where
  "arbitrary_input U =
     gbind (arbitrary_address_generator U) (\<lambda>gen.
     gbind (transaction_vec U (arbitrary_transaction U)) (\<lambda>txs.
     gret \<lparr>address_generator = gen, transactions = txs\<rparr>))"

lemmas arbitrary_defs = arbitrary_mint_input_def arbitrary_approve_input_def arbitrary_transfer_from_input_def arbitrary_transfer_input_def arbitrary_burn_from_input_def arbitrary_burn_input_def arbitrary_approve_and_transfer_from_input_def arbitrary_approve_and_burn_from_input_def arbitrary_address_generator_def

locale unstructured_laws =
  fixes U :: "'u unstructured"
  assumes range_u32_law: "lo \<le> hi \<Longrightarrow> range_u32 U lo hi u = (Ok x, u') \<Longrightarrow> lo \<le> x \<and> x \<le> hi"
    and range_u64_law: "a \<le> b \<Longrightarrow> range_u64 U a b u = (Ok y, u') \<Longrightarrow> a \<le> y \<and> y \<le> b"
    and range_usize_law: "i \<le> j \<Longrightarrow> range_usize U i j u = (Ok k, u') \<Longrightarrow> i \<le> k \<and> k \<le> j"
    and array_law: "address_type_array U n u = (Ok ts, u') \<Longrightarrow> length ts = n"
    and command_vec_law: "command_vec U g u = (Ok cmds, u') \<Longrightarrow> c \<in> set cmds \<Longrightarrow> \<exists>v v'. g v = (Ok c, v')"
    and transaction_vec_law: "transaction_vec U h u = (Ok txs, u') \<Longrightarrow> tx \<in> set txs \<Longrightarrow>
      \<exists>v v'. h v = (Ok tx, v')"
begin

lemma closures_ok:
  "arbitrary_account_index U u = (Ok k, u') \<Longrightarrow> account_index_ok k"
  "arbitrary_expiration U u = (Ok x, u') \<Longrightarrow> expiration_ok x"
  "arbitrary_advance_ledgers U u = (Ok x, u') \<Longrightarrow> 1 \<le> x \<and> x \<le> DAY_IN_LEDGERS"
  using range_usize_law [of 0 "NUMBER_OF_ADDRESSES - 1" u k u']
    range_u32_law [of 0 "DAY_IN_LEDGERS * 30" u x u'] range_u32_law [of 1 DAY_IN_LEDGERS u x u']
  by (auto simp: arbitrary_account_index_def account_index_ok_def NUMBER_OF_ADDRESSES_def
      arbitrary_expiration_def expiration_ok_def arbitrary_advance_ledgers_def DAY_IN_LEDGERS_def)

lemma commands_wellformed:
  "arbitrary_mint_input U u = (Ok i1, u') \<Longrightarrow> command_ok (Mint i1)"
  "arbitrary_approve_input U u = (Ok i2, u') \<Longrightarrow> command_ok (Approve i2)"
  "arbitrary_transfer_from_input U u = (Ok i3, u') \<Longrightarrow> command_ok (TransferFrom i3)"
  "arbitrary_transfer_input U u = (Ok i4, u') \<Longrightarrow> command_ok (Transfer i4)"
  "arbitrary_burn_from_input U u = (Ok i5, u') \<Longrightarrow> command_ok (BurnFrom i5)"
  "arbitrary_burn_input U u = (Ok i6, u') \<Longrightarrow> command_ok (Burn i6)"
  "arbitrary_approve_and_transfer_from_input U u = (Ok i7, u') \<Longrightarrow> command_ok (ApproveAndTransferFrom i7)"
  "arbitrary_approve_and_burn_from_input U u = (Ok i8, u') \<Longrightarrow> command_ok (ApproveAndBurnFrom i8)"
  by (auto simp: arbitrary_defs gbind_Ok closures_ok arbitrary_auths_ok)

lemma address_generator_wellformed:
  assumes "arbitrary_address_generator U u = (Ok gen, u')"
  shows "generator_ok gen"
proof -
  from assms obtain seed u1 types u2 where seed: "arbitrary_address_seed U u = (Ok seed, u1)"
    and types: "address_type_array U NUMBER_OF_ADDRESSES u1 = (Ok types, u2)"
    and gen: "gen = \<lparr>address_seed = seed, address_types = types\<rparr>"
    by (auto simp: arbitrary_address_generator_def gbind_Ok)
  have "seed \<le> - 4"
    using range_u64_law [of 0 "- 4" u seed u1] seed
    by (simp add: arbitrary_address_seed_def NUMBER_OF_ADDRESSES_def)
  then have "unat seed + 3 \<le> 2 ^ 64 - 1" by (simp add: word_le_nat_alt)
  then show ?thesis
    using array_law [OF types] gen by (simp add: generator_ok_def NUMBER_OF_ADDRESSES_def)
qed

lemma command_wellformed: "arbitrary_command U u = (Ok c, u') \<Longrightarrow> command_ok c"
  by (auto simp: arbitrary_command_def gbind_Ok split: if_splits dest: commands_wellformed)

lemma transaction_wellformed:
  assumes "arbitrary_transaction U u = (Ok tx, u')"
  shows "transaction_ok tx"
proof -
  from assms obtain u1 where c: "command_vec U (arbitrary_command U) u = (Ok (commands tx), u1)"
    and l: "arbitrary_advance_ledgers U u1 = (Ok (advance_ledgers tx), u')"
    by (auto simp: arbitrary_transaction_def gbind_Ok)
  have "list_all command_ok (commands tx)"
    using command_vec_law [OF c] command_wellformed unfolding list_all_iff by blast
  with closures_ok(3) [OF l] show ?thesis by (simp add: transaction_ok_def)
qed

lemma input_wellformed:
  assumes "arbitrary_input U u = (Ok inp, u')"
  shows "input_ok inp"
proof -
  from assms obtain u1 where g: "arbitrary_address_generator U u = (Ok (address_generator inp), u1)"
    and t: "transaction_vec U (arbitrary_transaction U) u1 = (Ok (transactions inp), u')"
    by (auto simp: arbitrary_input_def gbind_Ok)
  have "list_all transaction_ok (transactions inp)"
    using transaction_vec_law [OF t] transaction_wellformed unfolding list_all_iff by blast
  with address_generator_wellformed [OF g] show ?thesis by (simp add: input_ok_def)
qed

end

end
