(* ===== verification/Input_Props.thy ===== *)
theory Input_Props
  imports Arbitrary
begin

text \<open>
  Generated inputs are well formed. The reference source of data is a list of numbers, of which
  each draw takes the next one modulo the size of its range (and the start of the range when the
  list is empty, as the crate documents for exhausted data).
\<close>

definition draw :: "nat list \<Rightarrow> nat \<times> nat list" where
  "draw u = (case u of [] \<Rightarrow> (0, []) | n # ns \<Rightarrow> (n, ns))"

definition draw_word :: "'w::len word \<Rightarrow> 'w word \<Rightarrow> ('w word, nat list) generator" where
  "draw_word lo hi u =
     (let (n, u) = draw u in (Ok (lo + of_nat (n mod (unat hi - unat lo + 1))), u))"

fun repeat_gen :: "nat \<Rightarrow> ('a, 'u) generator \<Rightarrow> ('a list, 'u) generator" where
  "repeat_gen 0 g = gret []"
| "repeat_gen (Suc n) g = gbind g (\<lambda>x. gbind (repeat_gen n g) (\<lambda>xs. gret (x # xs)))"

text \<open>A vector of at most three elements.\<close>

definition draw_vec :: "('a, nat list) generator \<Rightarrow> ('a list, nat list) generator" where
  "draw_vec g u = (let (n, u) = draw u in repeat_gen (n mod 4) g u)"

lemma repeat_gen_set:
  "repeat_gen n g u = (Ok xs, u') \<Longrightarrow> x \<in> set xs \<Longrightarrow> \<exists>v v'. g v = (Ok x, v')"
  by (induction n arbitrary: u xs u') (fastforce simp: gbind_Ok)+

lemma draw_vec_set: "draw_vec g u = (Ok xs, u') \<Longrightarrow> x \<in> set xs \<Longrightarrow> \<exists>v v'. g v = (Ok x, v')"
  by (auto simp: draw_vec_def Let_def case_prod_unfold dest: repeat_gen_set)

definition ref_unstructured :: "nat list unstructured" where
  "ref_unstructured =
     \<lparr>range_i128 = (\<lambda>lo hi u. let (n, u) = draw u in
        (Ok (word_of_int (sint lo + int n mod (sint hi - sint lo + 1))), u)),
      range_u32 = draw_word, range_u64 = draw_word,
      range_usize = (\<lambda>lo hi u. let (n, u) = draw u in (Ok (lo + n mod (hi - lo + 1)), u)),
      ratio = (\<lambda>a b u. let (n, u) = draw u in (Ok (n mod unat b < unat a), u)),
      address_type_array = (\<lambda>n u. (Ok (map (\<lambda>i. if even i then Account else Contract) [0..<n]), u)),
      variant = (\<lambda>n u. let (k, u) = draw u in (Ok (k mod n), u)),
      command_vec = draw_vec, transaction_vec = draw_vec\<rparr>"

lemma draw_word_range:
  fixes lo hi :: "'w::len word"
  assumes "lo \<le> hi" "draw_word lo hi u = (Ok x, u')"
  shows "lo \<le> x \<and> x \<le> hi"
proof -
  let ?k = "fst (draw u) mod (unat hi - unat lo + 1)"
  have x: "x = lo + of_nat ?k" using assms(2) by (auto simp: draw_word_def case_prod_unfold Let_def)
  have k: "?k < unat hi - unat lo + 1" by simp
  have le: "unat lo \<le> unat hi" using assms(1) by (simp add: word_le_nat_alt)
  have hi: "unat hi < 2 ^ LENGTH('w)" using unsigned_less [of hi, where ?'a = nat] by simp
  have "unat (of_nat ?k :: 'w word) = ?k"
    unfolding unat_of_nat using k le hi by (intro mod_less) linarith
  moreover from this have "unat lo + unat (of_nat ?k :: 'w word) < 2 ^ LENGTH('w)"
    using k le hi by linarith
  ultimately have "unat x = unat lo + ?k"
    unfolding x by (simp add: unat_word_ariths)
  then show ?thesis using k le unfolding word_le_nat_alt by linarith
qed

interpretation ref_input: unstructured_laws ref_unstructured
proof
  fix i j k :: nat and u u'
  assume ij: "i \<le> j" and "range_usize ref_unstructured i j u = (Ok k, u')"
  then have k: "k = i + fst (draw u) mod (j - i + 1)"
    by (simp add: ref_unstructured_def case_prod_unfold Let_def)
  have "fst (draw u) mod (j - i + 1) < j - i + 1" by simp
  with ij show "i \<le> k \<and> k \<le> j" unfolding k by linarith
next
  fix lo hi x :: u32 and u u'
  assume "lo \<le> hi" "range_u32 ref_unstructured lo hi u = (Ok x, u')"
  then show "lo \<le> x \<and> x \<le> hi" by (intro draw_word_range) (simp_all add: ref_unstructured_def)
next
  fix lo hi x :: u64 and u u'
  assume "lo \<le> hi" "range_u64 ref_unstructured lo hi u = (Ok x, u')"
  then show "lo \<le> x \<and> x \<le> hi" by (intro draw_word_range) (simp_all add: ref_unstructured_def)
qed (auto simp: ref_unstructured_def dest: draw_vec_set)

text \<open>
  C38: every generated input is well formed: the seed leaves room for all accounts, the array of
  types has one entry per account, every command addresses accounts that exist, with one
  authorization flag per account and an expiration within thirty days, and every transaction
  advances time by between one ledger and a day.
\<close>

theorem generated_inputs_wellformed:
  assumes "unstructured_laws U" "arbitrary_input U u = (Ok inp, u')"
  shows "input_ok inp"
  by (rule unstructured_laws.input_wellformed [OF assms])

text \<open>One transaction with one minting, and an advance of eleven ledgers.\<close>

lemma demo_generated:
  "\<exists>inp u'. arbitrary_input ref_unstructured [5, 1, 1, 0, 7, 1, 3, 9, 0, 10] = (Ok inp, u') \<and>
    length (transactions inp) = 1"
proof -
  have n: "NUMBER_OF_ADDRESSES = Suc (Suc (Suc 0))" by (simp add: NUMBER_OF_ADDRESSES_def)
  have seed: "\<exists>x. arbitrary_address_seed ref_unstructured (k # ks) = (Ok x, ks)" for k ks
    by (simp add: arbitrary_address_seed_def ref_unstructured_def draw_word_def draw_def)
  have types: "address_type_array ref_unstructured m ks =
      (Ok (map (\<lambda>i. if even i then Account else Contract) [0..<m]), ks)" for m ks
    by (simp add: ref_unstructured_def)
  have one: "transaction_vec ref_unstructured h (1 # ks) = repeat_gen (Suc 0) h ks"
      "command_vec ref_unstructured g (1 # ks) = repeat_gen (Suc 0) g ks" for g h ks
    by (simp_all add: ref_unstructured_def draw_vec_def draw_def)
  have variant: "variant ref_unstructured 8 (0 # ks) = (Ok 0, ks)" for ks
    by (simp add: ref_unstructured_def draw_def)
  have amount: "\<exists>x. arbitrary_amount ref_unstructured (k # ks) = (Ok x, ks)" for k ks
    by (simp add: arbitrary_amount_def ref_unstructured_def draw_def)
  have index: "arbitrary_account_index ref_unstructured (1 # ks) = (Ok 1, ks)" for ks
    by (simp add: arbitrary_account_index_def ref_unstructured_def draw_def NUMBER_OF_ADDRESSES_def)
  have ratio: "ratio ref_unstructured 9 10 (k # ks) = (Ok (k mod 10 < 9), ks)" for k ks
    by (simp add: ref_unstructured_def draw_def)
  have auths: "\<exists>bs. arbitrary_auths ref_unstructured (k # l # m # ks) = (Ok bs, ks)" for k l m ks
    unfolding arbitrary_auths_def n biased_auths.simps ratio Let_def prod.case by simp
  have advance: "\<exists>x. arbitrary_advance_ledgers ref_unstructured (k # ks) = (Ok x, ks)" for k ks
    by (simp add: arbitrary_advance_ledgers_def ref_unstructured_def draw_word_def draw_def)
  obtain sd am bs l where v:
    "arbitrary_address_seed ref_unstructured [5, 1, 1, 0, 7, 1, 3, 9, 0, 10] = (Ok sd, [1, 1, 0, 7, 1, 3, 9, 0, 10])"
    "arbitrary_amount ref_unstructured [7, 1, 3, 9, 0, 10] = (Ok am, [1, 3, 9, 0, 10])"
    "arbitrary_auths ref_unstructured [3, 9, 0, 10] = (Ok bs, [10])"
    "arbitrary_advance_ledgers ref_unstructured [10] = (Ok l, [])"
    using seed amount auths advance by meson
  show ?thesis
    unfolding arbitrary_input_def arbitrary_address_generator_def arbitrary_transaction_def
      arbitrary_command_def arbitrary_mint_input_def gbind_def v prod.case result.case types one
      repeat_gen.simps variant index gret_def if_True simp_thms(6)
    by (intro exI conjI, rule refl) simp
qed

theorem generated_inputs_wellformed_witness:
  "\<exists>inp u'. arbitrary_input ref_unstructured [5, 1, 1, 0, 7, 1, 3, 9, 0, 10] = (Ok inp, u') \<and>
    length (transactions inp) = 1 \<and> input_ok inp"
proof -
  obtain inp u' where i: "arbitrary_input ref_unstructured [5, 1, 1, 0, 7, 1, 3, 9, 0, 10] = (Ok inp, u')"
    "length (transactions inp) = 1"
    using demo_generated by (elim exE conjE)
  from generated_inputs_wellformed [OF ref_input.unstructured_laws_axioms i(1)] i
  show ?thesis by (intro exI conjI)
qed

end
