(* ===== verification/Token_Trace.thy ===== *)
theory Token_Trace
  imports Machine Token_Correct
begin

text \<open>
  The example token follows the token machine. A step of the contract is a call of any of its entry
  points that returns, \<open>initialize\<close>, \<open>set_admin\<close> and the views included, or time in between. A label
  records who had authorized the call, as the host saw it. Rule induction gives what holds after
  any sequence of steps: the invariant of the storage, with the administrator that the calls of
  \<open>set_admin\<close> left; that every call was authorized by the party it needs, minting and handing over
  by the administrator of that moment; and a trace of the machine, so the supply and allowances are
  accounted for and nothing is taken from a holder who authorized nothing.
\<close>

fun token_entry :: "('env, 'addr) token_host \<Rightarrow> 'addr token_call \<Rightarrow> 'env \<Rightarrow> panic + 'env" where
  "token_entry H (CallMint to n) e = token_mint H e to n"
| "token_entry H (CallApprove f s n x) e = token_approve H e f s n x"
| "token_entry H (CallTransfer f to n) e = token_transfer H e f to n"
| "token_entry H (CallTransferFrom s f to n) e = token_transfer_from H e s f to n"
| "token_entry H (CallBurn f n) e = token_burn H e f n"
| "token_entry H (CallBurnFrom s f n) e = token_burn_from H e s f n"

text \<open>The entry points of contract.rs, with the values they return left out.\<close>

datatype 'addr contract_call =
    CallToken "'addr token_call"
  | CallInitialize 'addr u32 sstring sstring
  | CallSetAdmin 'addr
  | CallAllowance 'addr 'addr
  | CallBalance 'addr
  | CallDecimals
  | CallName
  | CallSymbol

fun contract_entry :: "('env, 'addr) token_host \<Rightarrow> 'addr contract_call \<Rightarrow> 'env \<Rightarrow> panic + 'env" where
  "contract_entry H (CallToken c) e = token_entry H c e"
| "contract_entry H (CallInitialize a d nm sb) e = token_initialize H e a d nm sb"
| "contract_entry H (CallSetAdmin a) e = token_set_admin H e a"
| "contract_entry H (CallAllowance f s) e = bnd (token_allowance H e f s) (\<lambda>(_, e). Inr e)"
| "contract_entry H (CallBalance a) e = bnd (token_balance H e a) (\<lambda>(_, e). Inr e)"
| "contract_entry H CallDecimals e = bnd (token_decimals H e) (\<lambda>_. Inr e)"
| "contract_entry H CallName e = bnd (token_name H e) (\<lambda>_. Inr e)"
| "contract_entry H CallSymbol e = bnd (token_symbol H e) (\<lambda>_. Inr e)"

text \<open>
  The steps. Time needs no authorization; its label has the pairs whose allowance it changed.
\<close>

datatype 'addr contract_event = Entered "'addr contract_call" | Elapsed "('addr \<times> 'addr) set"

type_synonym 'addr contract_label = "('addr \<Rightarrow> bool) \<times> 'addr contract_event"

inductive contract_move ::
  "('env, 'addr) token_host \<Rightarrow> ('env \<Rightarrow> bool) \<Rightarrow> ('env \<Rightarrow> 'addr host_view) \<Rightarrow> ('env \<Rightarrow> 'addr \<Rightarrow> bool)
    \<Rightarrow> 'env \<Rightarrow> 'addr contract_label list \<Rightarrow> 'env \<Rightarrow> bool"
  for H good view auth where
  entry: "contract_entry H c e = Inr e' \<Longrightarrow>
    contract_move H good view auth e [(auth e, Entered c)] e'"
| time: "good e' \<Longrightarrow> view_elapsed (view e) (view e') \<Longrightarrow>
    P = {(f, s). allws (token_view (view e')) f s \<noteq> allws (token_view (view e)) f s} \<Longrightarrow>
    contract_move H good view auth e [(\<lambda>_. False, Elapsed P)] e'"

text \<open>The machine's moves a step stands for: none for a call that leaves the tokens alone.\<close>

fun event_ops :: "'addr contract_event \<Rightarrow> 'addr token_op list" where
  "event_ops (Entered (CallToken c)) = [call_op c]"
| "event_ops (Elapsed P) = [LapseOp P]"
| "event_ops _ = []"

abbreviation label_ops :: "'addr contract_label \<Rightarrow> 'addr token_op list" where
  "label_ops l \<equiv> event_ops (snd l)"

abbreviation trace_ops :: "'addr contract_label list \<Rightarrow> 'addr token_op list" where
  "trace_ops ls \<equiv> concat (map label_ops ls)"

text \<open>Who has to authorize a call.\<close>

fun call_signer :: "'addr \<Rightarrow> 'addr token_call \<Rightarrow> 'addr" where
  "call_signer admin (CallMint to n) = admin"
| "call_signer admin (CallApprove f s n x) = f"
| "call_signer admin (CallTransfer f to n) = f"
| "call_signer admin (CallTransferFrom s f to n) = s"
| "call_signer admin (CallBurn f n) = f"
| "call_signer admin (CallBurnFrom s f n) = s"

text \<open>
  Who is administrator after a step, and that a step had the authorization it needs while \<open>admin\<close>
  is administrator. Once there is an administrator, \<open>initialize\<close> does not return.
\<close>

fun next_admin :: "'addr \<Rightarrow> 'addr contract_event \<Rightarrow> 'addr" where
  "next_admin admin (Entered (CallSetAdmin a)) = a"
| "next_admin admin _ = admin"

fun step_authorized :: "'addr \<Rightarrow> 'addr contract_label \<Rightarrow> bool" where
  "step_authorized admin (au, Entered (CallToken c)) = au (call_signer admin c)"
| "step_authorized admin (au, Entered (CallSetAdmin a)) = au admin"
| "step_authorized admin (au, Entered (CallInitialize a d nm sb)) = False"
| "step_authorized admin _ = True"

fun admin_after :: "'addr \<Rightarrow> 'addr contract_label list \<Rightarrow> 'addr" where
  "admin_after admin [] = admin"
| "admin_after admin (l # ls) = admin_after (next_admin admin (snd l)) ls"

fun run_authorized :: "'addr \<Rightarrow> 'addr contract_label list \<Rightarrow> bool" where
  "run_authorized admin [] = True"
| "run_authorized admin (l # ls) =
     (step_authorized admin l \<and> run_authorized (next_admin admin (snd l)) ls)"

lemma admin_after_append [simp]:
  "admin_after admin (ls @ ls') = admin_after (admin_after admin ls) ls'"
  by (induction ls arbitrary: admin) simp_all

lemma run_authorized_append [simp]:
  "run_authorized admin (ls @ ls') \<longleftrightarrow>
     run_authorized admin ls \<and> run_authorized (admin_after admin ls) ls'"
  by (induction ls arbitrary: admin) simp_all

text \<open>An account that authorized no step signed no move of the trace.\<close>

lemma op_signer_call: "op_signer (call_op c) = Some a \<Longrightarrow> call_signer admin c = a"
  by (cases c) simp_all

lemma op_minted_call: "op_minted (call_op c) = 0 \<or> call_signer admin c = admin"
  by (cases c) simp_all

lemma step_signer:
  "step_authorized admin l \<Longrightarrow> x \<in> set (label_ops l) \<Longrightarrow> op_signer x = Some a \<Longrightarrow> fst l a"
  by (induction admin l rule: step_authorized.induct) (auto dest: op_signer_call)

lemma run_signer:
  assumes "run_authorized admin ls" "x \<in> set (trace_ops ls)" "op_signer x = Some a"
  shows "\<exists>l\<in>set ls. fst l a"
  using assms
proof (induction ls arbitrary: admin)
  case (Cons l ls)
  then show ?case using step_signer [of admin l x a] by auto
qed simp

text \<open>Without the administrator's authorization nothing is minted and the administrator stays.\<close>

lemma step_without_admin:
  assumes "step_authorized admin l" "\<not> fst l admin"
  shows "next_admin admin (snd l) = admin" "minted (label_ops l) = 0"
  using assms op_minted_call [of _ admin]
  by (induction admin l rule: step_authorized.induct) (auto, metis)

lemma run_without_admin:
  assumes "run_authorized admin ls" "\<forall>l\<in>set ls. \<not> fst l admin"
  shows "admin_after admin ls = admin \<and> minted (trace_ops ls) = 0"
  using assms
proof (induction ls)
  case (Cons l ls)
  then have "next_admin admin (snd l) = admin" "minted (label_ops l) = 0"
    using step_without_admin [of admin l] by simp_all
  with Cons show ?case by simp
qed simp

context token_host_laws
begin

lemma entry_step:
  assumes "good e" "token_ok admin (view e)" "token_entry H c e = Inr e'"
  shows "token_called good view auth admin e e' (call_signer admin c) (call_amount c)
    (op_effect (call_op c))"
  using assms(3)
  by (cases c) (auto simp: mint_step approve_step(1) transfer_step(1) transfer_from_step(1) burn_step(1)
      burn_from_step(1) assms(1,2))

lemma entry_move:
  assumes e: "good e" "token_ok admin (view e)" and c: "token_entry H c e = Inr e'"
  shows "token_move UNIV (token_view (view e)) (call_op c) (token_view (view e'))"
proof -
  note t = entry_step [OF e c, unfolded token_called_def token_step_def]
  have below: "bals (op_effect (call_op c) (token_view (view e))) a < 2 ^ 127"
      "allws (op_effect (call_op c) (token_view (view e))) f s < 2 ^ 127" for a f s
    using token_ok_range(2,4) [of admin "view e'"] t by metis+
  show ?thesis
  proof (cases c)
    case (CallMint to n)
    with t below(1) [of to] show ?thesis by (auto simp: spec_mint_def simp del: token_view_simps)
  next
    case (CallApprove f s n x)
    with t below(2) [of f s] show ?thesis by (auto simp: spec_approve_def simp del: token_view_simps)
  next
    case (CallTransfer f to n)
    with t below(1) [of to] transfer_step(2) [OF e] c show ?thesis
      by (auto simp del: token_view_simps)
  next
    case (CallTransferFrom s f to n)
    with t below(1) [of to] transfer_from_step(2,3) [OF e] c show ?thesis
      by (auto simp: spec_transfer_from_def spec_transfer_def spec_spend_def spec_approve_def
          spec_mint_def spec_burn_def simp del: token_view_simps)
  next
    case (CallBurn f n)
    with t burn_step(2) [OF e] c show ?thesis by (auto simp del: token_view_simps)
  next
    case (CallBurnFrom s f n)
    with t burn_from_step(2,3) [OF e] c show ?thesis by (auto simp del: token_view_simps)
  qed
qed

text \<open>One step: what it leaves of the invariant, its authorization, and its moves of the machine.\<close>

definition contract_steps :: "'addr \<Rightarrow> 'env \<Rightarrow> 'addr contract_label list \<Rightarrow> 'env \<Rightarrow> bool" where
  "contract_steps admin e ls e' \<longleftrightarrow>
     good e' \<and> token_ok (admin_after admin ls) (view e') \<and> run_authorized admin ls \<and>
     token_trace UNIV (token_view (view e)) (trace_ops ls) (token_view (view e'))"

lemma entry_steps:
  assumes e: "good e" "token_ok admin (view e)" and c: "contract_entry H c e = Inr e'"
  shows "contract_steps admin e [(auth e, Entered c)] e'"
proof (cases c)
  case (CallToken tc)
  with c have tc: "token_entry H tc e = Inr e'" by simp
  from entry_step [OF e tc] token_trace_single [OF entry_move [OF e tc]] CallToken
  show ?thesis by (simp add: contract_steps_def token_called_def token_step_def)
next
  case (CallInitialize a d nm sb)
  with c initialize_once [OF e] show ?thesis by simp
next
  case (CallSetAdmin a)
  with c set_admin_step [OF e] show ?thesis by (simp add: contract_steps_def token_trace.start)
next
  case (CallAllowance f s)
  obtain n e1 where "token_allowance H e f s = Inr (n, e1)" "token_step good view admin e e1 (\<lambda>t. t)"
    by (rule allowance_view [OF e])
  with CallAllowance c show ?thesis by (simp add: contract_steps_def token_step_def token_trace.start)
next
  case (CallBalance a)
  obtain b e1 where "token_balance H e a = Inr (b, e1)" "token_step good view admin e e1 (\<lambda>t. t)"
    by (rule balance_view [OF e])
  with CallBalance c show ?thesis by (simp add: contract_steps_def token_step_def token_trace.start)
qed (use metadata_view [OF e] e c in \<open>auto simp: contract_steps_def token_trace.start\<close>)

lemma move_steps:
  assumes "good e" "token_ok admin (view e)" "contract_move H good view auth e ls e'"
  shows "contract_steps admin e ls e'"
  using assms(3)
proof cases
  case (entry c)
  with entry_steps [OF assms(1,2)] show ?thesis by simp
next
  case (time P)
  note v = elapsed_view [OF time(3)]
  have "token_view (view e') = spec_lapse P (token_view (view e))"
    unfolding spec_lapse_def time(4)
    by (subst v(2), rule token_state.equality) (use v(3) in \<open>auto simp: fun_eq_iff simp del: token_view_simps\<close>)
  then show ?thesis
    using time(1,2) v(1) [OF assms(2)]
    by (simp add: contract_steps_def token_trace_single)
qed

end

sublocale token_host_laws \<subseteq> contract: refines_machine UNIV "contract_move H good view auth"
  "\<lambda>e. good e \<and> (\<exists>admin. token_ok admin (view e))" "\<lambda>e. token_view (view e)" label_ops
proof unfold_locales
  fix s ls t
  assume s: "good s \<and> (\<exists>admin. token_ok admin (view s))" "contract_move H good view auth s ls t"
  then obtain admin where "token_ok admin (view s)" by blast
  with s move_steps [of s admin ls t] show "(good t \<and> (\<exists>admin. token_ok admin (view t))) \<and>
      token_trace UNIV (token_view (view s)) (trace_ops ls) (token_view (view t))"
    unfolding contract_steps_def by blast
qed

context token_host_laws
begin

lemma contract_run:
  assumes "steps (contract_move H good view auth) e ls e'" "good e" "token_ok admin (view e)"
  shows "contract_steps admin e ls e'"
  using assms
proof (induction rule: steps.induct)
  case (idle e)
  then show ?case by (simp add: contract_steps_def token_trace.start)
next
  case (more e ls e1 ls' e2)
  then have one: "contract_steps admin e ls e1" by simp
  then have "good e1" "token_ok (admin_after admin ls) (view e1)" by (simp_all add: contract_steps_def)
  then have "contract_steps (admin_after admin ls) e1 ls' e2" by (rule move_steps [OF _ _ more.hyps(2)])
  with one show ?case by (auto simp: contract_steps_def intro: token_trace_append)
qed

lemma contract_supply:
  assumes "steps (contract_move H good view auth) e ls e'" "good e" "token_ok admin (view e)"
    and "distinct as" "\<forall>x\<in>set (trace_ops ls). op_parties x \<subseteq> set as"
  shows "total_supply as (token_view (view e')) =
    total_supply as (token_view (view e)) + minted (trace_ops ls) - burned (trace_ops ls)"
  using contract.steps_supply [OF assms(1) _ assms(4,5)] assms(2,3) by blast

lemma contract_spent:
  assumes "steps (contract_move H good view auth) e ls e'" "good e" "token_ok admin (view e)"
  shows "(\<Sum>x\<leftarrow>trace_ops ls. op_spent f s x) \<le>
    allws (token_view (view e)) f s + (\<Sum>x\<leftarrow>trace_ops ls. op_approved f s x)"
  using contract.steps_spent [OF assms(1) _ token_ok_range(3) [OF assms(3)]] assms(2,3) by blast

lemma contract_safe:
  assumes "steps (contract_move H good view auth) e ls e'" "good e" "token_ok admin (view e)"
    and "\<forall>l\<in>set ls. \<not> fst l a" "\<forall>s. allws (token_view (view e)) a s = 0"
  shows "bals (token_view (view e)) a \<le> bals (token_view (view e')) a"
proof (rule contract.steps_safe [OF assms(1) _ _ assms(5)])
  show "good e \<and> (\<exists>admin. token_ok admin (view e))" using assms(2,3) by blast
  show "\<forall>x\<in>set (trace_ops ls). op_signer x \<noteq> Some a"
  proof (intro ballI notI)
    fix x
    assume "x \<in> set (trace_ops ls)" "op_signer x = Some a"
    moreover have "run_authorized admin ls"
      using contract_run [OF assms(1-3)] by (simp add: contract_steps_def)
    ultimately show False using run_signer [of admin ls x a] assms(4) by blast
  qed
qed

end

end
