(* ===== verification/Trace_Props.thy ===== *)
theory Trace_Props
  imports Book_Trace Token_Trace Demo
begin

text \<open>
  Properties of whole runs against the token machine: of the fuzzer's book, whatever the token
  does, and of the example token under any sequence of calls.
\<close>

text \<open>
  C3: a run that is kept leaves a trace of the token machine in its book: from the empty token, by
  calls of its commands between its accounts and by lapses of allowances, each within the guards
  of the token interface. So every tracked balance and allowance is a non-negative \<open>i128\<close>, and the
  supply is what the trace minted less what it burned, which is what the book summed up.
\<close>

theorem kept_run_is_trace:
  assumes "sdk_addresses S addr_of" "generator_ok (address_generator inp)"
    and "fuzz_token S N config inp = Inr Keep"
    and "as = account_list S addr_of (address_generator inp)"
  shows "\<exists>tb env cs nonce cur env' cs' nonce' cur' evs.
    setup_run S config (address_generator inp) = Inr (tb, env, cs, nonce, cur) \<and>
    fold_may (run_transaction S N config (address_generator inp) tb) (transactions inp)
      (env, cs, nonce, cur) = Inr (env', cs', nonce', cur') \<and>
    token_trace (set as) \<lparr>bals = (\<lambda>_. 0), allws = (\<lambda>_ _. 0), meta = book_meta cs\<rparr> (map event_op evs)
      (book_view S cs') \<and>
    event_calls evs \<subseteq> transaction_calls cur (transactions inp) \<and>
    in_range (set as) (book_view S cs') \<and>
    total_supply as (book_view S cs') = minted (map event_op evs) - burned (map event_op evs) \<and>
    total_supply as (book_view S cs') = sum_of_mints cs' - sum_of_burns cs'"
proof -
  let ?gen = "address_generator inp"
  note sdk = sdk_accounts.axioms(1) [OF sdk_addresses.axioms(1) [OF assms(1)]]
  obtain tb env cs nonce cur env' cs' nonce' cur' where run:
    "setup_run S config ?gen = Inr (tb, env, cs, nonce, cur)"
    "fold_may (run_transaction S N config ?gen tb) (transactions inp) (env, cs, nonce, cur) =
      Inr (env', cs', nonce', cur')"
    using assms(3) by (auto simp: fuzz_token_def bnd_Inr_iff split: if_splits)
  note fresh = sdk_addresses.setup_run_book [OF assms(1) run(1)]
  obtain env0 where gen: "generate_signers S ?gen env0 = Inr (accounts cur)" using fresh(1) by blast
  obtain evs where evs: "steps (book_move S (set as)) cs evs cs'"
      "event_calls evs \<subseteq> transaction_calls cur (transactions inp)"
    using sdk_addresses.transactions_book [OF assms(1,2) gen run(2)]
    unfolding sdk_strings.book_run_def [OF sdk] assms(4) by blast
  have trace: "token_trace (set as) (book_view S cs) (map event_op evs) (book_view S cs')"
    by (rule sdk_strings.book_steps_trace [OF sdk evs(1)])
  have "in_range (set as) (book_view S cs')"
    by (rule trace_in_range [OF trace]) (simp add: fresh(2) in_range_def)
  moreover have "total_supply as (book_view S cs') = minted (map event_op evs) - burned (map event_op evs)"
    using trace_supply [OF trace] sdk_addresses.account_list_distinct [OF assms(1,2)] assms(4)
    by (simp add: fresh(2) total_supply_def)
  moreover have "minted_minus_burned cs' = minted (map event_op evs) - burned (map event_op evs)"
    using sdk_strings.book_steps_sums [OF sdk evs(1)] fresh(3) by simp
  ultimately show ?thesis
    using run evs(2) trace fresh(2) unfolding minted_minus_burned_def by metis
qed

theorem kept_run_is_trace_witness:
  "\<exists>tb env cs nonce cur env' cs' nonce' cur'.
    setup_run (ref_sdk quiet_error) (contract (TokenOps (ref_example_sdk quiet_error))) ref_gen =
      Inr (tb, env, cs, nonce, cur) \<and>
    fold_may (run_transaction (ref_sdk quiet_error) ref_snapshots
      (contract (TokenOps (ref_example_sdk quiet_error))) ref_gen tb) [demo_tx] (env, cs, nonce, cur) =
      Inr (env', cs', nonce', cur') \<and>
    total_supply (account_list (ref_sdk quiet_error) mk_addr ref_gen) (book_view (ref_sdk quiet_error) cs') =
      sum_of_mints cs' - sum_of_burns cs'"
proof -
  have "generator_ok (address_generator demo_input)" "transactions demo_input = [demo_tx]"
    using demo_input_ok by (simp_all add: input_ok_def demo_input_def)
  with kept_run_is_trace [OF ref_run.sdk_addresses_axioms _ demo_run_kept refl] demo_input_ok(2)
  show ?thesis by fastforce
qed

text \<open>
  C18: the example token follows the token machine along any sequence of calls of any of its entry
  points, \<open>initialize\<close>, \<open>set_admin\<close> and the views included, with time in between. Its storage
  invariant holds, with the administrator the calls of \<open>set_admin\<close> left; every call was authorized
  by the party it needs, minting and handing over by the administrator of that moment, and no
  second \<open>initialize\<close> returned. Its balances and allowances move as the machine's, the supply
  changes by what was minted and burned, and no spender spends more than the allowance it had and
  was given. Without the administrator's authorization nothing is minted and the administrator
  stays.
\<close>

theorem example_follows_machine:
  assumes "token_host_laws H good view auth" "good e" "token_ok admin (view e)"
    and "steps (contract_move H good view auth) e ls e'"
  shows "token_ok (admin_after admin ls) (view e') \<and> run_authorized admin ls \<and>
    token_trace UNIV (token_view (view e)) (trace_ops ls) (token_view (view e')) \<and>
    (\<forall>as. distinct as \<and> (\<forall>x\<in>set (trace_ops ls). op_parties x \<subseteq> set as) \<longrightarrow>
      total_supply as (token_view (view e')) = total_supply as (token_view (view e)) +
        minted (trace_ops ls) - burned (trace_ops ls)) \<and>
    (\<forall>f s. (\<Sum>x\<leftarrow>trace_ops ls. op_spent f s x) \<le>
      allws (token_view (view e)) f s + (\<Sum>x\<leftarrow>trace_ops ls. op_approved f s x)) \<and>
    ((\<forall>l\<in>set ls. \<not> fst l admin) \<longrightarrow> admin_after admin ls = admin \<and> minted (trace_ops ls) = 0)"
proof -
  have run: "token_ok (admin_after admin ls) (view e')" "run_authorized admin ls"
      "token_trace UNIV (token_view (view e)) (trace_ops ls) (token_view (view e'))"
    using token_host_laws.contract_run [OF assms(1,4,2,3)]
    by (simp_all add: token_host_laws.contract_steps_def [OF assms(1)])
  show ?thesis
    using run token_host_laws.contract_supply [OF assms(1,4,2,3)]
      token_host_laws.contract_spent [OF assms(1,4,2,3)] run_without_admin [OF run(2)]
    by (intro conjI allI impI; (elim conjE)?; blast)
qed

text \<open>
  Calls on the reference host: \<open>alice\<close> sends 30 to \<open>bob\<close>, and \<open>carol\<close> hands over the administration to
  \<open>alice\<close>.
\<close>

lemma demo_step:
  assumes "contract_entry ref_host c e = Inr e'"
  shows "steps (contract_move ref_host ref_good ref_view (ref_auth token_sc)) e
    [(ref_auth token_sc e, Entered c)] e'"
  by (rule steps_one [of "contract_move ref_host ref_good ref_view (ref_auth token_sc)"])
    (rule contract_move.entry [of ref_host, OF assms])

lemma demo_call:
  "\<exists>e'. steps (contract_move ref_host ref_good ref_view (ref_auth token_sc))
     (demo_env alice ''transfer'' [])
     [(ref_auth token_sc (demo_env alice ''transfer'' []), Entered (CallToken (CallTransfer alice bob 30)))] e'"
proof -
  obtain e' where "token_transfer ref_host (demo_env alice ''transfer'' []) alice bob 30 = Inr e'"
    by (simp add: token_transfer_def ref_eval)
  then have "contract_entry ref_host (CallToken (CallTransfer alice bob 30))
      (demo_env alice ''transfer'' []) = Inr e'"
    by simp
  from demo_step [OF this] show ?thesis ..
qed

lemma demo_handover:
  "\<exists>e'. steps (contract_move ref_host ref_good ref_view (ref_auth token_sc))
     (demo_env carol ''set_admin'' [])
     [(ref_auth token_sc (demo_env carol ''set_admin'' []), Entered (CallSetAdmin alice))] e'"
proof -
  obtain e' where "token_set_admin ref_host (demo_env carol ''set_admin'' []) alice = Inr e'"
    by (simp add: token_set_admin_def ref_eval)
  then have "contract_entry ref_host (CallSetAdmin alice) (demo_env carol ''set_admin'' []) = Inr e'"
    by simp
  from demo_step [OF this] show ?thesis ..
qed

theorem example_follows_machine_witness:
  "(\<exists>e'. steps (contract_move ref_host ref_good ref_view (ref_auth token_sc))
     (demo_env alice ''transfer'' [])
     [(ref_auth token_sc (demo_env alice ''transfer'' []), Entered (CallToken (CallTransfer alice bob 30)))] e' \<and>
   token_ok carol (ref_view e') \<and>
   total_supply [alice, bob] (token_view (ref_view e')) = 100) \<and>
   (\<exists>e'. steps (contract_move ref_host ref_good ref_view (ref_auth token_sc))
     (demo_env carol ''set_admin'' [])
     [(ref_auth token_sc (demo_env carol ''set_admin'' []), Entered (CallSetAdmin alice))] e' \<and>
   token_ok alice (ref_view e'))"
proof
  obtain e' where e': "steps (contract_move ref_host ref_good ref_view (ref_auth token_sc))
     (demo_env alice ''transfer'' [])
     [(ref_auth token_sc (demo_env alice ''transfer'' []), Entered (CallToken (CallTransfer alice bob 30)))] e'"
    using demo_call by blast
  note m = example_follows_machine [OF ref_token.token_host_laws_axioms demo_good demo_ok e']
  have "total_supply [alice, bob] (token_view (ref_view e')) =
      total_supply [alice, bob] (token_view (ref_view (demo_env alice ''transfer'' [])))"
    using m by (auto dest!: spec [of _ "[alice, bob]"])
  also have "\<dots> = 100" by (simp add: total_supply_def del: token_view_simps)
  finally show "\<exists>e'. steps (contract_move ref_host ref_good ref_view (ref_auth token_sc))
     (demo_env alice ''transfer'' [])
     [(ref_auth token_sc (demo_env alice ''transfer'' []), Entered (CallToken (CallTransfer alice bob 30)))] e' \<and>
   token_ok carol (ref_view e') \<and>
   total_supply [alice, bob] (token_view (ref_view e')) = 100"
    using e' m by auto
next
  obtain e' where e': "steps (contract_move ref_host ref_good ref_view (ref_auth token_sc))
     (demo_env carol ''set_admin'' [])
     [(ref_auth token_sc (demo_env carol ''set_admin'' []), Entered (CallSetAdmin alice))] e'"
    using demo_handover by blast
  with example_follows_machine [OF ref_token.token_host_laws_axioms demo_good demo_ok e']
  show "\<exists>e'. steps (contract_move ref_host ref_good ref_view (ref_auth token_sc))
     (demo_env carol ''set_admin'' [])
     [(ref_auth token_sc (demo_env carol ''set_admin'' []), Entered (CallSetAdmin alice))] e' \<and>
   token_ok alice (ref_view e')"
    by auto
qed

text \<open>
  C19: nobody takes tokens from a holder of the example token who takes no part: along any
  sequence of calls of its entry points none of which the holder authorized, the balance of a
  holder who has approved no one does not decrease.
\<close>

theorem example_no_theft:
  assumes "token_host_laws H good view auth" "good e" "token_ok admin (view e)"
    and "steps (contract_move H good view auth) e ls e'"
    and "\<forall>l\<in>set ls. \<not> fst l a" "\<forall>s. allws (token_view (view e)) a s = 0"
  shows "bals (token_view (view e)) a \<le> bals (token_view (view e')) a"
  by (rule token_host_laws.contract_safe [OF assms(1,4,2,3,5,6)])

theorem example_no_theft_witness:
  "\<exists>e'. steps (contract_move ref_host ref_good ref_view (ref_auth token_sc))
     (demo_env alice ''transfer'' [])
     [(ref_auth token_sc (demo_env alice ''transfer'' []), Entered (CallToken (CallTransfer alice bob 30)))] e' \<and>
   bals (token_view (ref_view (demo_env alice ''transfer'' []))) bob \<le> bals (token_view (ref_view e')) bob"
proof -
  obtain e' where e': "steps (contract_move ref_host ref_good ref_view (ref_auth token_sc))
     (demo_env alice ''transfer'' [])
     [(ref_auth token_sc (demo_env alice ''transfer'' []), Entered (CallToken (CallTransfer alice bob 30)))] e'"
    using demo_call by blast
  have "\<not> ref_auth token_sc (demo_env alice ''transfer'' []) bob"
    using people_distinct(1) by (simp add: ref_auth_def demo_env_def raddr_eq_iff)
  moreover have "allws (token_view (ref_view (demo_env alice ''transfer'' []))) bob s = 0" for s
    by (simp add: ref_view_defs demo_lookup stored_allowance_def)
  ultimately show ?thesis
    using example_no_theft [OF ref_token.token_host_laws_axioms demo_good demo_ok e', of bob] e'
    by (intro exI conjI) (simp_all del: token_view_simps)
qed

end
