(* ===== verification/Spec2Isabelle.thy ===== *)
theory Spec2Isabelle
  imports Token_Props Fuzz_Props Setup_Props Input_Props Trace_Props
begin

text \<open>
  A verification of the Soroban token fuzzer (src/) and of the example token it ships with
  (src/tokens/example-token).

  \<^bold>\<open>The program.\<close> libFuzzer generates an \<open>Input\<close>: three addresses and a list of transactions, each a
  list of commands and a number of ledgers to advance. \<open>fuzz_token\<close> sets up the accounts, registers a
  token through \<open>Config\<close>, and runs the transactions. A command prepares authorizations
  (\<open>mock_auths_for_command\<close>), calls the token, checks the outcome and mirrors a success in
  \<open>ContractState\<close>, the book. After a transaction time advances (\<open>advance_time\<close>, in steps, with a new
  \<open>Env\<close> from a snapshot each), lapsed allowances are forgotten, and \<open>assert_state\<close> compares token and
  book. A panic is the report of a defect. The example token is a contract with balances,
  expiring allowances, an administrator and metadata in ledger storage.

  \<^bold>\<open>Conventions.\<close> \<open>panic + 'a\<close> is a computation that may panic (\<open>Inl\<close> says how), \<open>bnd\<close> sequences them
  and \<open>fold_may\<close> is a loop over a collection; \<open>Env\<close> is threaded as a state of type \<open>'env\<close>. \<open>u8\<close>,
  \<open>u32\<close>, \<open>u64\<close>, \<open>i64\<close> and \<open>i128\<close> are words, \<open>BigInt\<close> is \<open>int\<close>; plain arithmetic panics on overflow, as both
  build profiles check it. Code that is not in the repository is a parameter: the SDK and host
  (\<open>sdk\<close>, \<open>snapshots\<close>, \<open>token_host\<close>, \<open>frames\<close>, \<open>example_sdk\<close>), and the \<open>arbitrary\<close> crate
  (\<open>unstructured\<close>). What is relied on of them are the \<open>assumes\<close> of locales, each interpreted on the
  reference model. Of ed25519 it is relied on that no two of the \<open>u64\<close> seeds a generator can use give
  the same public key (\<open>sdk_addresses\<close>); \<open>signers_generated\<close> and \<open>account_storage\<close> do without
  (\<open>sdk_accounts\<close>). The contract of a token excludes generators with a contract account at the token's
  own address, where the fuzzer would register its mock contract over the token.

  \<^bold>\<open>The model\<close>, by theory:
  \<^item> \<open>Prelude\<close>: panics, checked arithmetic, loops, lemmas on words and lists. \<open>Sdk\<close>: the types of
    the SDK the sources use and the dictionaries.
  \<^item> \<open>Util\<close> (src/util.rs), \<open>Config\<close> (src/config.rs), \<open>Addrgen\<close> (src/addrgen.rs: signers, account and
    trust line entries), \<open>Input\<close> and \<open>Arbitrary\<close> (src/input.rs: the types and their generation).
  \<^item> src/fuzz.rs: \<open>Contract_State\<close> (the book), \<open>Auths\<close> (\<open>mock_auths_for_command\<close>), \<open>Time\<close>
    (\<open>advance_time\<close>, \<open>advance_env\<close>, \<open>purge_expired_entries\<close>) and \<open>Fuzz\<close> (\<open>exec_command\<close>,
    \<open>assert_state\<close>, \<open>fuzz_token\<close>). The arms of \<open>exec_command\<close> are definitions of their own.
  \<^item> \<open>Token\<close>: the example token, entry point by entry point. \<open>Example_Target\<close>: the two fuzz targets, and
    how a client's call reaches the contract.

  \<^bold>\<open>The specifications and what is shown.\<close>
  \<^item> \<open>Token_Spec\<close> is the abstract token, one function per operation; \<open>Machine\<close> makes it a state machine
    with guards, whose traces keep values in range, account for the supply, bound what spenders
    spend and never take from a holder who signs nothing. Its locale \<open>refines_machine\<close> has two
    implementations: the book (\<open>Book\<close>, \<open>Book_Trace\<close>), for every token, and the example token
    (\<open>Token_Trace\<close>), whose steps are the calls of all its entry points and the passing of time;
    there the administrator is followed through \<open>set_admin\<close>.
  \<^item> \<open>Token_Correct\<close>: under \<open>token_host_laws\<close>, every entry point of the example token that returns was
    authorized, within its guards, and performed the abstract operation, keeping the storage
    invariant and lifetimes. \<open>Token_Live\<close>: under \<open>live_host_laws\<close>, a rightful call returns.
  \<^item> \<open>Token_Contract\<close> is the contract the fuzzer holds a token to; \<open>Fuzz_Sound\<close> and \<open>Run_Sound\<close> show
    that a token that keeps it passes every check of every run (no false alarm), and
    \<open>Example_World\<close> that the example token keeps it on a host with documented behaviour.
  \<^item> \<open>Reference\<close>, \<open>Reference_Sdk\<close> and \<open>Demo\<close> are a concrete host, SDK and states on which all locales are
    interpreted and the properties applied.
  \<^item> The properties: of whole runs in this theory and in \<open>Trace_Props\<close>; of commands, checks and
    book in \<open>Fuzz_Props\<close>; of the example token in \<open>Token_Props\<close>; of accounts, authorizations, time and
    book-keeping in \<open>Setup_Props\<close>; of generated inputs in \<open>Input_Props\<close>.

  \<^bold>\<open>Bounds and fuel.\<close> The loop of \<open>advance_time\<close> has fuel for one step per ledger to advance (at least
  one), and every step advances at least one ledger, so the value \<open>Diverged\<close> does not arise:
  \<open>advance_time_exact\<close> proves that the loop returns. \<open>run_fits\<close> bounds a run such that ledger
  numbers fit \<open>u32\<close>, timestamps \<open>u64\<close> and nonces \<open>i64\<close>; the source panics beyond these bounds.

  \<^bold>\<open>Not modelled.\<close> \<open>print_diagnostics\<close> (output only), \<open>MockAuthContract\<close> (an empty body; its
  registration is a parameter), \<open>TokenAdminClient::set_auths\<close> (\<open>todo!()\<close>, never called), the branch of
  \<open>advance_env\<close> for \<open>use_snapshot = false\<close> (dead code), the text of panic messages that print values,
  the example token's tests, the build files, and what macros generate beyond the order of calls.
\<close>

section \<open>Whole runs\<close>

text \<open>
  C1: the fuzzer raises no false alarm: a run on any token that keeps the token contract (each
  call succeeds only as specified, authorized and for a non-negative amount, reads tell the truth,
  failures are not panics, and registering the mock contract at a contract account leaves it
  alone, so no contract account is the token's own address), on any well-formed input that fits the
  machine integers, passes every check and ends with the verdict of its input: rejected without
  commands, kept otherwise.
\<close>

theorem fuzz_accepts_correct_token:
  assumes "token_contract S addr_of xdr N config gen tok token_sc tc ad obs good ready life auths_of
      max_ttl True"
    and "input_ok inp" "address_generator inp = gen"
    and "run_fits max_ttl (clock S N (env_default S)) 0 (transactions inp)"
  shows "fuzz_token S N config inp =
    Inr (if list_all (\<lambda>tx. commands tx = []) (transactions inp) then Reject else Keep)"
proof -
  obtain v where "fuzz_token S N config inp = Inr v"
    using token_contract.fuzz_token_sound [OF assms] by (auto simp: sound_def split: sum.splits)
  then show ?thesis by (auto simp: fuzz_token_def bnd_Inr_iff)
qed

theorem fuzz_accepts_correct_token_witness:
  "fuzz_token (ref_sdk quiet_error) ref_snapshots (contract (TokenOps (ref_example_sdk quiet_error)))
     demo_input = Inr Keep"
  using fuzz_accepts_correct_token [OF demo_contract demo_input_ok demo_fits]
  by (simp add: demo_input_def demo_tx_def)

text \<open>
  C2: the example token under the fuzzer: on a host that keeps its laws, a run on a well-formed
  input that fits the machine integers (\<open>run_fits\<close>) ends kept or rejected, or is reported for the one thing the fuzzer holds against this token, a \<open>panic!\<close> that
  the host reports as a trap. No assertion fails and no arithmetic overflows.
\<close>

theorem example_token_no_false_assertion:
  assumes "example_world S addr_of xdr N H good view auth X F gen tok token_sc ready auths_of max_ttl"
    and "input_ok inp" "address_generator inp = gen"
    and "run_fits max_ttl (clock S N (env_default S)) 0 (transactions inp)"
  shows "fuzz_example_token S N X inp \<in> {Inr Keep, Inr Reject,
    Inl (Panic ''contract failed with InvalidAction - unexpected panic?'')}"
  using example_world.fuzz_example_outcomes [OF assms] by (simp add: unexpected_panic_def)

theorem example_token_no_false_assertion_witness:
  "fuzz_example_token (ref_sdk (Error WasmVm InvalidAction)) ref_snapshots
     (ref_example_sdk (Error WasmVm InvalidAction)) demo_input \<in> {Inr Keep, Inr Reject,
       Inl (Panic ''contract failed with InvalidAction - unexpected panic?'')}"
  by (rule example_token_no_false_assertion
      [OF ref_run.example_world_axioms demo_input_ok demo_fits])

end
